(* ===== verification/Prelude.thy ===== *)
theory Prelude
  imports Main "HOL-Library.Char_ord" "HOL-Library.List_Lexorder"
begin

text \<open>
  The vocabulary the components share.

  \<^item> A Go \<open>string\<close> and a Go \<open>[]byte\<close> are both byte sequences: \<open>bytes\<close>, a list of \<open>char\<close>
    (HOL's \<open>char\<close> has exactly 256 values).
  \<^item> A slice that the code can compare with nil, or that is serialised, is \<open>'a slice\<close>: \<open>None\<close>
    is nil, and \<open>elems\<close> reads it as \<open>range\<close> and \<open>len\<close> do.
  \<^item> A Go map is a key-sorted association list (\<open>gomap_ok\<close>), read by \<open>map_of\<close> and written by
    \<open>gm_put\<close>; a map that can be nil is an option of one.
  \<^item> A fallible call returns \<open>fault + 'a\<close>: \<open>Inl (Err m)\<close> is a returned error, \<open>Inl (Panic m)\<close>
    a run-time panic.
  \<^item> \<open>int64\<close> and \<open>int\<close> values are \<open>int\<close>, with the wrap-around of the machine written out by
    \<open>wrap64\<close> where it can matter.
\<close>

named_theorems codec_simps \<open>round trips of the encoders and decoders\<close>
named_theorems store_simps \<open>what the store operations do to the content of the database\<close>
named_theorems handler_defs \<open>definitions of the request handlers\<close>

subsection \<open>Bytes, slices, errors\<close>

type_synonym bytes = "char list"
type_synonym 'a slice = "'a list option"

definition elems :: "'a slice \<Rightarrow> 'a list" where
  "elems s = (case s of None \<Rightarrow> [] | Some xs \<Rightarrow> xs)"

lemma elems_simps [simp]: "elems None = []" "elems (Some xs) = xs"
  by (simp_all add: elems_def)

datatype fault = Err string | Panic string

type_synonym 'a res = "fault + 'a"

definition is_ok :: "'a res \<Rightarrow> bool" where
  "is_ok r = (case r of Inl _ \<Rightarrow> False | Inr _ \<Rightarrow> True)"

lemma is_ok_simps [simp]: "is_ok (Inr x)" "\<not> is_ok (Inl e)"
  by (simp_all add: is_ok_def)

subsection \<open>Signed 64-bit arithmetic\<close>

definition wrap64 :: "int \<Rightarrow> int" where
  "wrap64 i = (i + 2 ^ 63) mod 2 ^ 64 - 2 ^ 63"

definition in_int64 :: "int \<Rightarrow> bool" where
  "in_int64 i \<longleftrightarrow> - (2 ^ 63) \<le> i \<and> i < 2 ^ 63"

lemma wrap64_id: "in_int64 i \<Longrightarrow> wrap64 i = i"
  by (simp add: wrap64_def in_int64_def)

lemma wrap64_range: "in_int64 (wrap64 i)"
  by (simp add: wrap64_def in_int64_def)

subsection \<open>Go maps as sorted association lists\<close>

fun gm_put :: "'k::linorder \<Rightarrow> 'v \<Rightarrow> ('k \<times> 'v) list \<Rightarrow> ('k \<times> 'v) list" where
  "gm_put k v [] = [(k, v)]"
| "gm_put k v ((k', v') # m) =
     (if k < k' then (k, v) # (k', v') # m
      else if k = k' then (k, v) # m
      else (k', v') # gm_put k v m)"

definition gomap_ok :: "('k::linorder \<times> 'v) list \<Rightarrow> bool" where
  "gomap_ok m \<longleftrightarrow> sorted_wrt (<) (map fst m)"

lemma gomap_ok_Nil [simp]: "gomap_ok []"
  by (simp add: gomap_ok_def)

lemma gomap_ok_Cons: "gomap_ok ((k, v) # m) \<longleftrightarrow> (\<forall>k' \<in> set (map fst m). k < k') \<and> gomap_ok m"
  by (simp add: gomap_ok_def)

lemma gm_put_keys: "set (map fst (gm_put k v m)) = insert k (set (map fst m))"
  by (induction k v m rule: gm_put.induct) auto

lemma gm_put_ok: "gomap_ok m \<Longrightarrow> gomap_ok (gm_put k v m)"
proof (induction k v m rule: gm_put.induct)
  case (2 k v k' v' m)
  then show ?case
    using gm_put_keys[of k v m] by (auto simp: gomap_ok_Cons)
qed (simp add: gomap_ok_def)

lemma map_of_gm_put: "map_of (gm_put k v m) = (map_of m)(k \<mapsto> v)"
  by (induction k v m rule: gm_put.induct) (auto simp: fun_eq_iff)

lemma gomap_distinct: "gomap_ok m \<Longrightarrow> distinct (map fst m)"
  by (simp add: gomap_ok_def strict_sorted_iff)

lemma alist_of_keys:
  "distinct (map fst m) \<Longrightarrow> map (\<lambda>k. (k, the (map_of m k))) (map fst m) = m"
  by (rule nth_equalityI) (auto simp: map_of_eq_Some_iff nth_mem prod_eq_iff
      intro!: option.sel[of "snd _", THEN trans[rotated]] arg_cong[of _ _ the])

lemma gomap_eqI:
  assumes "gomap_ok m" "gomap_ok m'" "map_of m = map_of m'"
  shows "m = m'"
proof -
  have "set (map fst m) = set (map fst m')"
    using assms(3) by (metis dom_map_of_conv_image_fst list.set_map)
  then have keys: "map fst m = map fst m'"
    using assms(1,2) by (simp add: gomap_ok_def strict_sorted_iff sorted_distinct_set_unique)
  have "m = map (\<lambda>k. (k, the (map_of m' k))) (map fst m')"
    using alist_of_keys[OF gomap_distinct[OF assms(1)]] assms(3) keys by simp
  then show ?thesis
    using alist_of_keys[OF gomap_distinct[OF assms(2)]] by simp
qed

end
