(* ===== verification/Go_Json.thy ===== *)
theory Go_Json
  imports Prelude
begin

text \<open>
  The part of Go's \<open>encoding/json\<close>, \<open>encoding/base64\<close> and \<open>strconv\<close> that the program uses:
  the compact printer behind \<open>json.Marshal\<close> (with the HTML-safe escapes), the parser behind
  \<open>json.Unmarshal\<close> and \<open>Decoder.Decode\<close>, standard base64 and decimal integers, all on bytes.
  The printed text of a tree parses back to that tree, with any text after it left over
  (\<open>parse_render\<close>), and the parser's fuel is enough for what the printer prints.

  Bytes that are not UTF-8 become U+FFFD in both directions, as in Go. Not modelled: the nesting
  limit of 10000.
\<close>

datatype json = JNull | JBool bool | JNum string | JStr bytes
  | JArr "json list" | JObj "(bytes \<times> json) list"

abbreviation "quote \<equiv> CHR 0x22"
abbreviation "bslash \<equiv> CHR 0x5C"

subsection \<open>Decimal integers\<close>

fun show_nat :: "nat \<Rightarrow> string" where
  "show_nat n = (if n < 10 then [char_of (48 + n)] else show_nat (n div 10) @ [char_of (48 + n mod 10)])"

declare show_nat.simps [simp del]

definition show_int :: "int \<Rightarrow> string" where
  "show_int i = (if i < 0 then CHR ''-'' # show_nat (nat (- i)) else show_nat (nat i))"

definition is_digit :: "char \<Rightarrow> bool" where
  "is_digit c \<longleftrightarrow> 48 \<le> (of_char c :: nat) \<and> (of_char c :: nat) \<le> 57"

fun read_nat :: "nat \<Rightarrow> string \<Rightarrow> nat option" where
  "read_nat acc [] = Some acc"
| "read_nat acc (c # cs) = (if is_digit c then read_nat (10 * acc + (of_char c - 48)) cs else None)"

text \<open>\<open>strconv.ParseInt(s, 10, 64)\<close>: optional sign, digits, range check. \<open>strconv.Atoi\<close> agrees.\<close>

definition parse_int64 :: "string \<Rightarrow> int option" where
  "parse_int64 s =
     (let (neg, ds) = (case s of [] \<Rightarrow> (False, [])
        | c # cs \<Rightarrow> if c = CHR ''-'' then (True, cs) else if c = CHR ''+'' then (False, cs) else (False, s))
      in if ds = [] then None
         else case read_nat 0 ds of None \<Rightarrow> None
           | Some n \<Rightarrow> (let i = (if neg then - int n else int n) in if in_int64 i then Some i else None))"

lemma is_digit_show: "n < 10 \<Longrightarrow> is_digit (char_of (48 + n :: nat))"
  by (simp add: is_digit_def)

lemma of_char_show: "n < 10 \<Longrightarrow> (of_char (char_of (48 + n :: nat)) :: nat) = 48 + n"
  by simp

lemma show_nat_digits: "c \<in> set (show_nat n) \<Longrightarrow> is_digit c"
proof (induction n rule: show_nat.induct)
  case (1 n)
  then show ?case
    by (auto simp: show_nat.simps[of n] is_digit_show split: if_splits)
qed

lemma show_nat_nonempty [simp]: "show_nat n \<noteq> []"
  by (simp add: show_nat.simps)

lemma read_nat_append: "read_nat acc (xs @ ys) = Option.bind (read_nat acc xs) (\<lambda>a. read_nat a ys)"
  by (induction xs arbitrary: acc) auto

lemma read_nat_show: "read_nat acc (show_nat n) = Some (acc * 10 ^ length (show_nat n) + n)"
proof (induction n arbitrary: acc rule: show_nat.induct)
  case (1 n)
  show ?case
  proof (cases "n < 10")
    case True
    then show ?thesis by (simp add: show_nat.simps[of n] is_digit_show)
  next
    case False
    then show ?thesis using 1[OF False]
      by (simp add: show_nat.simps[of n] read_nat_append is_digit_show algebra_simps)
  qed
qed

lemma parse_show_int [codec_simps]: "in_int64 i \<Longrightarrow> parse_int64 (show_int i) = Some i"
proof -
  have no_sign: "show_nat n = c # cs \<Longrightarrow> c \<noteq> CHR ''-'' \<and> c \<noteq> CHR ''+''" for n c cs
    using show_nat_digits[of c n] by (auto simp: is_digit_def)
  assume "in_int64 i"
  then show ?thesis
    using read_nat_show[of 0 "nat (- i)"] read_nat_show[of 0 "nat i"] no_sign
    by (auto simp: parse_int64_def show_int_def split: list.splits)
qed

subsection \<open>UTF-8\<close>

definition in_range :: "nat \<Rightarrow> nat \<Rightarrow> char \<Rightarrow> bool" where
  "in_range lo hi c \<longleftrightarrow> lo \<le> of_char c \<and> of_char c \<le> hi"

text \<open>The bytes after the first one of a rune: \<open>m\<close> of them, the first one in a narrower range.\<close>

definition conts :: "nat \<Rightarrow> nat \<Rightarrow> nat \<Rightarrow> bytes \<Rightarrow> bool" where
  "conts lo hi m cs \<longleftrightarrow> (case cs of [] \<Rightarrow> False
     | c # ds \<Rightarrow> in_range lo hi c \<and> m \<le> length cs \<and> list_all (in_range 0x80 0xBF) (take (m - 1) ds))"

text \<open>What a first byte asks for: how many bytes follow, and the range of the next one.\<close>

definition rune_lead :: "char \<Rightarrow> (nat \<times> nat \<times> nat) option" where
  "rune_lead c =
     (if in_range 0 0x7F c then Some (0, 0, 0)
      else if in_range 0xC2 0xDF c then Some (1, 0x80, 0xBF)
      else if in_range 0xE0 0xEF c
        then Some (2, if c = CHR 0xE0 then 0xA0 else 0x80, if c = CHR 0xED then 0x9F else 0xBF)
      else if in_range 0xF0 0xF4 c
        then Some (3, if c = CHR 0xF0 then 0x90 else 0x80, if c = CHR 0xF4 then 0x8F else 0xBF)
      else None)"

text \<open>The width of the rune a text begins with (\<open>utf8.DecodeRune\<close>), zero where it is not UTF-8.\<close>

definition rune_len :: "bytes \<Rightarrow> nat" where
  "rune_len s = (case s of [] \<Rightarrow> 0
     | c # cs \<Rightarrow> (case rune_lead c of None \<Rightarrow> 0
        | Some (m, lo, hi) \<Rightarrow> if m = 0 \<or> conts lo hi m cs then Suc m else 0))"

definition U_FFFD :: bytes where
  "U_FFFD = [CHR 0xEF, CHR 0xBF, CHR 0xBD]"

text \<open>Both directions replace each byte that belongs to no rune by U+FFFD.\<close>

function sanitize :: "bytes \<Rightarrow> bytes" where
  "sanitize s = (case s of [] \<Rightarrow> []
     | c # cs \<Rightarrow> if rune_len s = 0 then U_FFFD @ sanitize cs
         else take (rune_len s) s @ sanitize (drop (rune_len s) s))"
  by pat_completeness auto
termination
  by (relation "measure length") auto

declare sanitize.simps [simp del]

definition utf8_ok :: "bytes \<Rightarrow> bool" where
  "utf8_ok s \<longleftrightarrow> sanitize s = s"

lemma conts_length: "conts lo hi m cs \<Longrightarrow> m \<le> length cs"
  by (auto simp: conts_def split: list.splits)

lemma rune_len_le: "rune_len s \<le> length s"
  by (auto simp: rune_len_def split: list.split option.split dest: conts_length)

lemma conts_append: "conts lo hi m cs \<Longrightarrow> 0 < m \<Longrightarrow> conts lo hi m (take m cs @ x)"
  by (cases cs; cases m) (auto simp: conts_def)

lemma rune_len_take: "rune_len s = n \<Longrightarrow> 0 < n \<Longrightarrow> rune_len (take n s @ x) = n"
  by (cases s) (auto simp: rune_len_def conts_append split: option.splits if_splits)

lemma sanitize_Nil [simp]: "sanitize [] = []"
  by (simp add: sanitize.simps)

lemma sanitize_pos: "0 < rune_len s \<Longrightarrow> sanitize s = take (rune_len s) s @ sanitize (drop (rune_len s) s)"
  by (subst sanitize.simps) (auto split: list.split simp: rune_len_def)

lemma sanitize_rune: "rune_len s = n \<Longrightarrow> 0 < n \<Longrightarrow> sanitize (take n s @ x) = take n s @ sanitize x"
  using rune_len_take[of s n x] rune_len_le[of s] sanitize_pos[of "take n s @ x"] by simp

lemma sanitize_U_FFFD: "sanitize (U_FFFD @ x) = U_FFFD @ sanitize x"
proof -
  have "rune_len U_FFFD = 3"
    by (simp add: rune_len_def rune_lead_def U_FFFD_def in_range_def conts_def)
  from sanitize_rune[OF this] show ?thesis by (simp add: U_FFFD_def)
qed

lemma sanitize_idem [simp]: "sanitize (sanitize s) = sanitize s"
proof (induction s rule: sanitize.induct)
  case (1 s)
  show ?case
  proof (cases s)
    case (Cons c cs)
    then show ?thesis
      using 1[OF Cons] sanitize_rune[OF refl, of s] by (subst (2) sanitize.simps, subst (3) sanitize.simps) (auto simp: sanitize_U_FFFD)
  qed simp
qed

lemma utf8_ok_sanitize [simp]: "utf8_ok (sanitize s)"
  by (simp add: utf8_ok_def)

lemma utf8_ok_Nil [simp]: "utf8_ok []"
  by (simp add: utf8_ok_def)

lemma utf8_ok_ascii [simp]: "(of_char c :: nat) < 128 \<Longrightarrow> utf8_ok (c # s) \<longleftrightarrow> utf8_ok s"
  by (simp add: utf8_ok_def sanitize.simps[of "c # s"] rune_len_def rune_lead_def in_range_def)

lemma utf8_ok_ascii_all: "(\<And>c. c \<in> set s \<Longrightarrow> (of_char c :: nat) < 128) \<Longrightarrow> utf8_ok s"
  by (induction s) auto

lemma rune_len_U_FFFD: "rune_len (CHR 0xEF # CHR 0xBF # CHR 0xBD # s) = 3"
  by (simp add: rune_len_def rune_lead_def in_range_def conts_def)

lemma rune_len_pos: "utf8_ok s \<Longrightarrow> s \<noteq> [] \<Longrightarrow> 0 < rune_len s"
proof (rule ccontr)
  assume h: "utf8_ok s" "s \<noteq> []" "\<not> 0 < rune_len s"
  then have "\<exists>r. s = CHR 0xEF # CHR 0xBF # CHR 0xBD # r"
    unfolding utf8_ok_def by (subst (asm) sanitize.simps) (auto simp: U_FFFD_def split: list.splits, metis)
  then show False using h(3) rune_len_U_FFFD by auto
qed

lemma utf8_ok_append: "utf8_ok a \<Longrightarrow> utf8_ok b \<Longrightarrow> utf8_ok (a @ b)"
proof (induction a rule: measure_induct_rule [of length])
  case (less a)
  show ?case
  proof (cases a)
    case (Cons c cs)
    let ?n = "rune_len a"
    have n: "0 < ?n" using rune_len_pos[OF less.prems(1)] Cons by simp
    have a: "a = take ?n a @ drop ?n a" by simp
    have "sanitize a = take ?n a @ sanitize (drop ?n a)"
      using sanitize_rune[OF refl n, of "drop ?n a"] by simp
    then have "utf8_ok (drop ?n a)"
      using less.prems(1) a unfolding utf8_ok_def by (metis same_append_eq)
    then have "utf8_ok (drop ?n a @ b)"
      using less n Cons by simp
    then show ?thesis
      using sanitize_rune[OF refl n, of "drop ?n a @ b"] unfolding utf8_ok_def
      by (metis a append_assoc)
  qed (simp add: less.prems)
qed

subsection \<open>Strings\<close>

definition hexdig :: "nat \<Rightarrow> char" where
  "hexdig n = (if n < 10 then char_of (48 + n) else char_of (87 + n))"

definition hexval :: "char \<Rightarrow> nat option" where
  "hexval c = (let n = of_char c in
     if 48 \<le> n \<and> n \<le> 57 then Some (n - 48)
     else if 97 \<le> n \<and> n \<le> 102 then Some (n - 87)
     else if 65 \<le> n \<and> n \<le> 70 then Some (n - 55) else None)"

definition esc_char :: "char \<Rightarrow> string" where
  "esc_char c =
     (if c = quote \<or> c = bslash then [bslash, c]
      else if c = CHR 0x08 then [bslash, CHR ''b'']
      else if c = CHR 0x0C then [bslash, CHR ''f'']
      else if c = CHR 0x0A then [bslash, CHR ''n'']
      else if c = CHR 0x0D then [bslash, CHR ''r'']
      else if c = CHR 0x09 then [bslash, CHR ''t'']
      else if (of_char c :: nat) < 32 \<or> c = CHR ''<'' \<or> c = CHR ''>'' \<or> c = CHR ''&''
        then [bslash, CHR ''u'', CHR ''0'', CHR ''0'', hexdig (of_char c div 16), hexdig (of_char c mod 16)]
      else [c])"

text \<open>The line separators U+2028 and U+2029 are escaped as well.\<close>

definition esc_rune :: "bytes \<Rightarrow> string" where
  "esc_rune r =
     (if r = [CHR 0xE2, CHR 0x80, CHR 0xA8] then bslash # ''u2028''
      else if r = [CHR 0xE2, CHR 0x80, CHR 0xA9] then bslash # ''u2029''
      else concat (map esc_char r))"

function esc_str :: "bytes \<Rightarrow> string" where
  "esc_str s = (case s of [] \<Rightarrow> []
     | c # cs \<Rightarrow> if rune_len s = 0 then bslash # ''ufffd'' @ esc_str cs
         else esc_rune (take (rune_len s) s) @ esc_str (drop (rune_len s) s))"
  by pat_completeness auto
termination
  by (relation "measure length") auto

declare esc_str.simps [simp del]

definition utf8 :: "nat \<Rightarrow> bytes" where
  "utf8 n =
     (if n < 0x80 then [char_of n]
      else if n < 0x800 then [char_of (0xC0 + n div 64), char_of (0x80 + n mod 64)]
      else if n < 0x10000 then
        [char_of (0xE0 + n div 4096), char_of (0x80 + n div 64 mod 64), char_of (0x80 + n mod 64)]
      else [char_of (0xF0 + n div 262144), char_of (0x80 + n div 4096 mod 64),
            char_of (0x80 + n div 64 mod 64), char_of (0x80 + n mod 64)])"

definition hex4 :: "string \<Rightarrow> nat option" where
  "hex4 s = (case s of a # b # c # d # _ \<Rightarrow>
       (case (hexval a, hexval b, hexval c, hexval d) of
          (Some w, Some x, Some y, Some z) \<Rightarrow> Some (4096 * w + 256 * x + 16 * y + z)
        | _ \<Rightarrow> None)
     | _ \<Rightarrow> None)"

text \<open>
  A \<open>\\uXXXX\<close> escape, read after its \<open>u\<close>: the bytes it stands for and how many characters it
  takes. A high surrogate joins a low one that follows; a lone surrogate is U+FFFD.
\<close>

definition unescape_u :: "string \<Rightarrow> (bytes \<times> nat) option" where
  "unescape_u ds = (case hex4 ds of None \<Rightarrow> None
     | Some r \<Rightarrow>
        if 0xD800 \<le> r \<and> r < 0xE000 then
          (case (take 2 (drop 4 ds) = [bslash, CHR ''u''], hex4 (drop 6 ds)) of
             (True, Some r2) \<Rightarrow>
               if r < 0xDC00 \<and> 0xDC00 \<le> r2 \<and> r2 < 0xE000
               then Some (utf8 ((r - 0xD800) * 1024 + (r2 - 0xDC00) + 0x10000), 10)
               else Some (utf8 0xFFFD, 4)
           | _ \<Rightarrow> Some (utf8 0xFFFD, 4))
        else Some (utf8 r, 4))"

definition simple_esc :: "char \<Rightarrow> char option" where
  "simple_esc d =
     (if d = quote \<or> d = bslash \<or> d = CHR ''/'' then Some d
      else if d = CHR ''b'' then Some (CHR 0x08)
      else if d = CHR ''f'' then Some (CHR 0x0C)
      else if d = CHR ''n'' then Some (CHR 0x0A)
      else if d = CHR ''r'' then Some (CHR 0x0D)
      else if d = CHR ''t'' then Some (CHR 0x09)
      else None)"

text \<open>The body of a string literal, up to and with the closing quote.\<close>

function p_str :: "string \<Rightarrow> (bytes \<times> string) option" where
  "p_str s = (case s of [] \<Rightarrow> None
     | c # cs \<Rightarrow>
        if c = quote then Some ([], cs)
        else if c = bslash then
          (case cs of [] \<Rightarrow> None
           | d # ds \<Rightarrow>
              if d = CHR ''u'' then
                (case unescape_u ds of None \<Rightarrow> None
                 | Some (b, k) \<Rightarrow> map_option (\<lambda>(t, r). (b @ t, r)) (p_str (drop k ds)))
              else (case simple_esc d of None \<Rightarrow> None
                 | Some e \<Rightarrow> map_option (\<lambda>(t, r). (e # t, r)) (p_str ds)))
        else if (of_char c :: nat) < 32 then None
        else map_option (\<lambda>(t, r). (c # t, r)) (p_str cs))"
  by pat_completeness auto
termination
  by (relation "measure length") auto

declare p_str.simps [simp del]

lemma hexval_hexdig: "n < 16 \<Longrightarrow> hexval (hexdig n) = Some n"
  by (auto simp: hexval_def hexdig_def Let_def)

lemma unescape_u_byte:
  assumes "(of_char c :: nat) < 128"
  shows "unescape_u (CHR ''0'' # CHR ''0'' # hexdig (of_char c div 16) # hexdig (of_char c mod 16) # X)
    = Some ([c], 4)"
proof -
  have "(of_char c :: nat) div 16 < 16" using assms by simp
  moreover have "hexval (CHR ''0'') = Some 0" by (simp add: hexval_def)
  ultimately have "hex4 (CHR ''0'' # CHR ''0'' # hexdig (of_char c div 16) # hexdig (of_char c mod 16) # X)
      = Some (of_char c)"
    by (simp add: hex4_def hexval_hexdig)
  then show ?thesis
    using assms by (simp add: unescape_u_def utf8_def)
qed

lemma p_str_esc_char:
  "p_str (esc_char c @ X) = map_option (\<lambda>(t, r). (c # t, r)) (p_str X)"
proof (cases "(of_char c :: nat) < 32 \<or> c = CHR ''<'' \<or> c = CHR ''>'' \<or> c = CHR ''&''")
  case True
  then have "(of_char c :: nat) < 128" by auto
  from unescape_u_byte[OF this, of X] True show ?thesis
    by (subst p_str.simps) (auto simp: esc_char_def simple_esc_def)
next
  case False
  then show ?thesis
    by (subst p_str.simps) (auto simp: esc_char_def simple_esc_def)
qed

lemma p_str_u_escape:
  "p_str (bslash # ''u2028'' @ X) = map_option (\<lambda>(t, r). ([CHR 0xE2, CHR 0x80, CHR 0xA8] @ t, r)) (p_str X)"
  "p_str (bslash # ''u2029'' @ X) = map_option (\<lambda>(t, r). ([CHR 0xE2, CHR 0x80, CHR 0xA9] @ t, r)) (p_str X)"
  "p_str (bslash # ''ufffd'' @ X) = map_option (\<lambda>(t, r). (U_FFFD @ t, r)) (p_str X)"
proof -
  have digits: "hexval (CHR ''2'') = Some 2" "hexval (CHR ''0'') = Some 0"
    "hexval (CHR ''8'') = Some 8" "hexval (CHR ''9'') = Some 9"
    "hexval (CHR ''f'') = Some 15" "hexval (CHR ''d'') = Some 13"
    by (simp_all add: hexval_def)
  have "unescape_u (CHR ''2'' # CHR ''0'' # CHR ''2'' # CHR ''8'' # X) = Some ([CHR 0xE2, CHR 0x80, CHR 0xA8], 4)"
    "unescape_u (CHR ''2'' # CHR ''0'' # CHR ''2'' # CHR ''9'' # X) = Some ([CHR 0xE2, CHR 0x80, CHR 0xA9], 4)"
    "unescape_u (CHR ''f'' # CHR ''f'' # CHR ''f'' # CHR ''d'' # X) = Some (U_FFFD, 4)"
    by (simp_all add: unescape_u_def hex4_def digits utf8_def char_of_eq_iff U_FFFD_def)
  then show
    "p_str (bslash # ''u2028'' @ X) = map_option (\<lambda>(t, r). ([CHR 0xE2, CHR 0x80, CHR 0xA8] @ t, r)) (p_str X)"
    "p_str (bslash # ''u2029'' @ X) = map_option (\<lambda>(t, r). ([CHR 0xE2, CHR 0x80, CHR 0xA9] @ t, r)) (p_str X)"
    "p_str (bslash # ''ufffd'' @ X) = map_option (\<lambda>(t, r). (U_FFFD @ t, r)) (p_str X)"
    by (subst p_str.simps, simp)+
qed

lemma p_str_esc_chars: "p_str (concat (map esc_char r) @ X) = map_option (\<lambda>(t, q). (r @ t, q)) (p_str X)"
  by (induction r) (auto simp: p_str_esc_char option.map_comp o_def case_prod_beta intro: option.map_ident[symmetric])

lemma p_str_esc_rune: "p_str (esc_rune r @ X) = map_option (\<lambda>(t, q). (r @ t, q)) (p_str X)"
  using p_str_u_escape(1,2)[of X] by (simp add: esc_rune_def p_str_esc_chars)

text \<open>What is printed comes back with the replacements made, and nothing after the quote is read.\<close>

lemma p_str_esc_str [codec_simps]: "p_str (esc_str s @ quote # rest) = Some (sanitize s, rest)"
proof (induction s rule: sanitize.induct)
  case (1 s)
  show ?case
  proof (cases s)
    case Nil
    then show ?thesis by (simp add: esc_str.simps p_str.simps)
  next
    case (Cons c cs)
    then show ?thesis
      using 1[OF Cons] p_str_u_escape(3)[of "esc_str cs @ quote # rest"]
      by (subst esc_str.simps, subst sanitize.simps) (auto simp: p_str_esc_rune)
  qed
qed


subsection \<open>Standard base64\<close>

definition b64chr :: "nat \<Rightarrow> char" where
  "b64chr n =
     (if n < 26 then char_of (65 + n) else if n < 52 then char_of (71 + n)
      else if n < 62 then char_of (n - 4) else if n = 62 then CHR ''+'' else CHR ''/'')"

definition b64val :: "char \<Rightarrow> nat option" where
  "b64val c = (let n = of_char c in
     if 65 \<le> n \<and> n \<le> 90 then Some (n - 65)
     else if 97 \<le> n \<and> n \<le> 122 then Some (n - 71)
     else if 48 \<le> n \<and> n \<le> 57 then Some (n + 4)
     else if c = CHR ''+'' then Some 62 else if c = CHR ''/'' then Some 63 else None)"

fun b64enc :: "bytes \<Rightarrow> string" where
  "b64enc [] = []"
| "b64enc [a] =
     [b64chr (of_char a div 4), b64chr (of_char a mod 4 * 16), CHR ''='', CHR ''='']"
| "b64enc [a, b] =
     [b64chr (of_char a div 4), b64chr (of_char a mod 4 * 16 + of_char b div 16),
      b64chr (of_char b mod 16 * 4), CHR ''='']"
| "b64enc (a # b # c # cs) =
     b64chr (of_char a div 4) # b64chr (of_char a mod 4 * 16 + of_char b div 16)
     # b64chr (of_char b mod 16 * 4 + of_char c div 64) # b64chr (of_char c mod 64) # b64enc cs"

text \<open>One quantum of four: two or one padding characters only at the very end of the input.\<close>

fun b64quads :: "string \<Rightarrow> bytes option" where
  "b64quads [] = Some []"
| "b64quads (a # b # c # d # cs) =
     (case (b64val a, b64val b) of
        (Some w, Some x) \<Rightarrow>
          if c = CHR ''='' \<and> d = CHR ''='' \<and> cs = [] then Some [char_of (w * 4 + x div 16)]
          else (case b64val c of None \<Rightarrow> None
            | Some y \<Rightarrow>
                if d = CHR ''='' \<and> cs = []
                then Some [char_of (w * 4 + x div 16), char_of (x mod 16 * 16 + y div 4)]
                else (case b64val d of None \<Rightarrow> None
                  | Some z \<Rightarrow> map_option (\<lambda>t. char_of (w * 4 + x div 16)
                       # char_of (x mod 16 * 16 + y div 4) # char_of (y mod 4 * 64 + z) # t) (b64quads cs)))
      | _ \<Rightarrow> None)"
| "b64quads _ = None"

text \<open>The decoder drops line breaks wherever they stand.\<close>

definition b64dec :: "string \<Rightarrow> bytes option" where
  "b64dec s = b64quads (filter (\<lambda>c. c \<noteq> CHR 0x0A \<and> c \<noteq> CHR 0x0D) s)"

lemma b64val_chr: "n < 64 \<Longrightarrow> b64val (b64chr n) = Some n"
  by (auto simp: b64val_def b64chr_def Let_def)

lemma b64chr_plain:
  "n < 64 \<Longrightarrow> b64chr n \<noteq> CHR ''=''"
  "n < 64 \<Longrightarrow> b64chr n \<noteq> CHR 0x0A"
  "n < 64 \<Longrightarrow> b64chr n \<noteq> CHR 0x0D"
  using b64val_chr[of n] by (auto simp: b64val_def)

lemma b64_digits:
  fixes a b c :: nat
  assumes "a < 256" "b < 256" "c < 256"
  shows "a div 4 < 64" "a mod 4 * 16 + b div 16 < 64" "b mod 16 * 4 + c div 64 < 64" "a mod 4 * 16 < 64"
    "b mod 16 * 4 < 64" "c mod 64 < 64"
  using assms by arith+

lemma b64_high_bits:
  "(of_char b :: nat) div 16 div 16 = 0" "(of_char b :: nat) div 16 mod 16 = of_char b div 16"
  "(of_char b :: nat) div 64 div 4 = 0" "(of_char b :: nat) div 64 mod 4 = of_char b div 64"
  using nat_of_char_less_256[of b] by (simp_all add: div_mult2_eq[symmetric] less_mult_imp_div_less)

lemmas b64_range =
  b64_digits [OF nat_of_char_less_256 nat_of_char_less_256 nat_of_char_less_256]
lemmas b64_facts =
  b64_range [THEN b64val_chr] b64_range [THEN b64chr_plain(1)]
  b64_range [THEN b64chr_plain(2)] b64_range [THEN b64chr_plain(3)] b64_high_bits

lemma b64_no_breaks: "filter (\<lambda>c. c \<noteq> CHR 0x0A \<and> c \<noteq> CHR 0x0D) (b64enc s) = b64enc s"
  by (induction s rule: b64enc.induct) (simp_all add: b64_facts)

lemma b64quads_enc: "b64quads (b64enc s) = Some s"
  by (induction s rule: b64enc.induct) (simp_all add: b64_facts)

lemma b64dec_enc [codec_simps]: "b64dec (b64enc s) = Some s"
  by (simp add: b64dec_def b64_no_breaks b64quads_enc)


subsection \<open>Printing a tree\<close>

fun render :: "json \<Rightarrow> string"
  and render_elems :: "json list \<Rightarrow> string"
  and render_mems :: "(bytes \<times> json) list \<Rightarrow> string" where
  "render JNull = ''null''"
| "render (JBool b) = (if b then ''true'' else ''false'')"
| "render (JNum t) = t"
| "render (JStr s) = quote # esc_str s @ [quote]"
| "render (JArr js) = CHR ''['' # render_elems js @ '']''"
| "render (JObj ms) = CHR ''{'' # render_mems ms @ ''}''"
| "render_elems [] = []"
| "render_elems (j # js) = render j @ (if js = [] then [] else CHR '','' # render_elems js)"
| "render_mems [] = []"
| "render_mems ((k, j) # ms) =
     quote # esc_str k @ [quote, CHR '':''] @ render j @ (if ms = [] then [] else CHR '','' # render_mems ms)"

subsection \<open>Parsing\<close>

definition is_ws :: "char \<Rightarrow> bool" where
  "is_ws c \<longleftrightarrow> c = CHR 0x20 \<or> c = CHR 0x09 \<or> c = CHR 0x0A \<or> c = CHR 0x0D"

definition skip_ws :: "string \<Rightarrow> string" where
  "skip_ws s = dropWhile is_ws s"

definition num_char :: "char \<Rightarrow> bool" where
  "num_char c \<longleftrightarrow> is_digit c \<or> c = CHR ''-'' \<or> c = CHR ''+'' \<or> c = CHR ''.'' \<or> c = CHR ''e'' \<or> c = CHR ''E''"

text \<open>The grammar of a JSON number: no leading zeros, a digit after the point and in the exponent.\<close>

definition valid_exp :: "string \<Rightarrow> bool" where
  "valid_exp s = (case s of [] \<Rightarrow> True
     | c # cs \<Rightarrow> (c = CHR ''e'' \<or> c = CHR ''E'') \<and>
         (let ds = (case cs of d # ds \<Rightarrow> if d = CHR ''+'' \<or> d = CHR ''-'' then ds else cs | [] \<Rightarrow> [])
          in ds \<noteq> [] \<and> list_all is_digit ds))"

definition valid_frac :: "string \<Rightarrow> bool" where
  "valid_frac s = (case s of [] \<Rightarrow> True
     | c # cs \<Rightarrow> if c = CHR ''.''
         then takeWhile is_digit cs \<noteq> [] \<and> valid_exp (dropWhile is_digit cs)
         else valid_exp s)"

definition valid_num :: "string \<Rightarrow> bool" where
  "valid_num s =
     (let u = (case s of c # cs \<Rightarrow> if c = CHR ''-'' then cs else s | [] \<Rightarrow> [])
      in case u of [] \<Rightarrow> False
       | c # cs \<Rightarrow> is_digit c \<and> (if c = CHR ''0'' then valid_frac cs else valid_frac (dropWhile is_digit cs)))"

definition p_lit :: "string \<Rightarrow> json \<Rightarrow> string \<Rightarrow> (json \<times> string) option" where
  "p_lit w j s = (if take (length w) s = w then Some (j, drop (length w) s) else None)"

fun p_val :: "nat \<Rightarrow> string \<Rightarrow> (json \<times> string) option"
  and p_elems :: "nat \<Rightarrow> string \<Rightarrow> (json list \<times> string) option"
  and p_mems :: "nat \<Rightarrow> string \<Rightarrow> ((bytes \<times> json) list \<times> string) option" where
  "p_val 0 s = None"
| "p_val (Suc n) s = (case skip_ws s of [] \<Rightarrow> None
     | c # cs \<Rightarrow>
        if c = quote then map_option (\<lambda>(t, r). (JStr (sanitize t), r)) (p_str cs)
        else if c = CHR ''['' then
          (case skip_ws cs of [] \<Rightarrow> None
           | d # ds \<Rightarrow> if d = CHR '']'' then Some (JArr [], ds)
               else map_option (\<lambda>(js, r). (JArr js, r)) (p_elems n cs))
        else if c = CHR ''{'' then
          (case skip_ws cs of [] \<Rightarrow> None
           | d # ds \<Rightarrow> if d = CHR ''}'' then Some (JObj [], ds)
               else map_option (\<lambda>(ms, r). (JObj ms, r)) (p_mems n cs))
        else if c = CHR ''n'' then p_lit ''null'' JNull (c # cs)
        else if c = CHR ''t'' then p_lit ''true'' (JBool True) (c # cs)
        else if c = CHR ''f'' then p_lit ''false'' (JBool False) (c # cs)
        else (let t = takeWhile num_char (c # cs)
              in if valid_num t then Some (JNum t, dropWhile num_char (c # cs)) else None))"
| "p_elems 0 s = None"
| "p_elems (Suc n) s = (case p_val n s of None \<Rightarrow> None
     | Some (j, r) \<Rightarrow> (case skip_ws r of [] \<Rightarrow> None
        | c # cs \<Rightarrow> if c = CHR '']'' then Some ([j], cs)
            else if c = CHR '','' then map_option (\<lambda>(js, r'). (j # js, r')) (p_elems n cs)
            else None))"
| "p_mems 0 s = None"
| "p_mems (Suc n) s = (case skip_ws s of [] \<Rightarrow> None
     | q # qs \<Rightarrow> if q \<noteq> quote then None else (case p_str qs of None \<Rightarrow> None
        | Some (k, r0) \<Rightarrow> (case skip_ws r0 of [] \<Rightarrow> None
           | d # ds \<Rightarrow> if d \<noteq> CHR '':'' then None else (case p_val n ds of None \<Rightarrow> None
              | Some (j, r) \<Rightarrow> (case skip_ws r of [] \<Rightarrow> None
                 | c # cs \<Rightarrow> if c = CHR ''}'' then Some ([(sanitize k, j)], cs)
                     else if c = CHR '','' then map_option (\<lambda>(ms, r'). ((sanitize k, j) # ms, r')) (p_mems n cs)
                     else None)))))"

definition parse_first :: "string \<Rightarrow> (json \<times> string) option" where
  "parse_first s = p_val (2 * length s + 2) s"

text \<open>\<open>Decoder.Decode\<close> takes the first value and leaves the rest; \<open>json.Unmarshal\<close> wants nothing after it.\<close>

definition parse_stream :: "bytes \<Rightarrow> json option" where
  "parse_stream s = map_option fst (parse_first s)"

definition parse_whole :: "bytes \<Rightarrow> json option" where
  "parse_whole s = (case parse_first s of None \<Rightarrow> None
     | Some (j, r) \<Rightarrow> if skip_ws r = [] then Some j else None)"

subsection \<open>Round trip\<close>

text \<open>Trees with UTF-8 strings and valid number literals; every tree the parser builds is one.\<close>

fun wf_json :: "json \<Rightarrow> bool" where
  "wf_json (JNum t) = (valid_num t \<and> list_all num_char t)"
| "wf_json (JArr js) = list_all wf_json js"
| "wf_json (JObj ms) = list_all (\<lambda>m. utf8_ok (fst m) \<and> wf_json (snd m)) ms"
| "wf_json (JStr s) = utf8_ok s"
| "wf_json _ = True"

definition delimited :: "string \<Rightarrow> bool" where
  "delimited r \<longleftrightarrow> (case r of [] \<Rightarrow> True | c # _ \<Rightarrow> \<not> num_char c)"

lemma skip_ws_id: "\<not> is_ws c \<Longrightarrow> skip_ws (c # cs) = c # cs"
  by (simp add: skip_ws_def)

lemma valid_num_start: "valid_num t \<Longrightarrow> \<exists>c cs. t = c # cs \<and> (is_digit c \<or> c = CHR ''-'')"
  by (auto simp: valid_num_def split: list.splits if_splits)

lemma takeWhile_delimited:
  "list_all num_char t \<Longrightarrow> delimited r \<Longrightarrow> takeWhile num_char (t @ r) = t \<and> dropWhile num_char (t @ r) = r"
  by (cases r) (auto simp: delimited_def list_all_iff takeWhile_append2 dropWhile_append2)

lemma digit_not_special:
  "is_digit c \<or> c = CHR ''-'' \<Longrightarrow>
     c \<noteq> quote \<and> c \<noteq> CHR ''['' \<and> c \<noteq> CHR ''{'' \<and> c \<noteq> CHR ''n'' \<and> c \<noteq> CHR ''t'' \<and> c \<noteq> CHR ''f''
     \<and> c \<noteq> CHR '']'' \<and> c \<noteq> CHR ''}'' \<and> \<not> is_ws c"
  by (auto simp: is_digit_def is_ws_def)

lemma p_val_num:
  assumes "valid_num t" "list_all num_char t" "delimited r" "0 < n"
  shows "p_val n (t @ r) = Some (JNum t, r)"
proof -
  obtain c cs where t: "t = c # cs" and c: "is_digit c \<or> c = CHR ''-''"
    using valid_num_start[OF assms(1)] by blast
  obtain m where "n = Suc m" using assms(4) by (cases n) auto
  then show ?thesis
    using assms(1) takeWhile_delimited[OF assms(2,3)] digit_not_special[OF c]
    by (simp add: t skip_ws_id Let_def)
qed

text \<open>The first character of a printed value is never blank and never closes an array.\<close>

lemma render_start:
  "wf_json j \<Longrightarrow> \<exists>c cs. render j = c # cs \<and> c \<noteq> CHR '']'' \<and> \<not> is_ws c"
proof (cases j)
  case (JNum t)
  moreover assume "wf_json j"
  ultimately show ?thesis using valid_num_start[of t] digit_not_special by fastforce
qed (auto simp: is_ws_def)

lemma delimited_simps: "delimited []" "delimited (CHR '','' # r)" "delimited (CHR '']'' # r)" "delimited (CHR ''}'' # r)"
  by (simp_all add: delimited_def num_char_def is_digit_def)

lemma render_length: "wf_json j \<Longrightarrow> 0 < length (render j)"
  using render_start[of j] by auto

lemma p_elems_step:
  assumes v: "p_val n (render j @ s) = Some (j, s)"
    and s: "s = CHR '','' # s' \<and> p_elems n s' = Some (js, r) \<or> s = CHR '']'' # r \<and> js = []"
  shows "p_elems (Suc n) (render j @ s) = Some (j # js, r)"
  using assms by (auto simp: skip_ws_id is_ws_def)

lemma p_mems_step:
  assumes v: "p_val n (render j @ s) = Some (j, s)"
    and s: "s = CHR '','' # s' \<and> p_mems n s' = Some (ms, r) \<or> s = CHR ''}'' # r \<and> ms = []"
    and k: "utf8_ok k"
  shows "p_mems (Suc n) (quote # esc_str k @ quote # CHR '':'' # render j @ s) = Some ((k, j) # ms, r)"
  using assms by (auto simp: skip_ws_id is_ws_def p_str_esc_str utf8_ok_def)

lemma parse_render_aux:
  "wf_json j \<Longrightarrow> length (render j) \<le> n \<Longrightarrow> delimited r \<Longrightarrow> p_val n (render j @ r) = Some (j, r)"
  "list_all wf_json js \<Longrightarrow> js \<noteq> [] \<Longrightarrow> length (render_elems js) < n
     \<Longrightarrow> p_elems n (render_elems js @ CHR '']'' # r) = Some (js, r)"
  "list_all (\<lambda>m. utf8_ok (fst m) \<and> wf_json (snd m)) ms \<Longrightarrow> ms \<noteq> [] \<Longrightarrow> length (render_mems ms) < n
     \<Longrightarrow> p_mems n (render_mems ms @ CHR ''}'' # r) = Some (ms, r)"
proof (induction j and js and ms arbitrary: n r and n r and n r rule: render_render_elems_render_mems.induct)
  case 1
  then obtain m where "n = Suc m" by (cases n) auto
  then show ?case by (simp add: skip_ws_id is_ws_def p_lit_def)
next
  case (2 b)
  then obtain m where "n = Suc m" by (cases n) (auto split: if_splits)
  then show ?case by (simp add: skip_ws_id is_ws_def p_lit_def)
next
  case (3 t)
  then show ?case using valid_num_start[of t] by (auto intro!: p_val_num)
next
  case (4 s)
  then obtain m where "n = Suc m" by (cases n) auto
  then show ?case using "4.prems" by (simp add: skip_ws_id is_ws_def p_str_esc_str utf8_ok_def)
next
  case (5 js)
  then obtain m where n: "n = Suc m" by (cases n) auto
  show ?case
  proof (cases js)
    case Nil
    then show ?thesis using n by (simp add: skip_ws_id is_ws_def)
  next
    case (Cons j js')
    then obtain c cs where "render j = c # cs" "c \<noteq> CHR '']''" "\<not> is_ws c"
      using render_start[of j] "5.prems" by auto
    then show ?thesis
      using 5 n Cons by (simp add: skip_ws_id is_ws_def)
  qed
next
  case (6 ms)
  then obtain m where n: "n = Suc m" by (cases n) auto
  show ?case
  proof (cases ms)
    case Nil
    then show ?thesis using n by (simp add: skip_ws_id is_ws_def)
  next
    case (Cons kj ms')
    then obtain cs where "render_mems ms = quote # cs" by (cases kj) auto
    then show ?thesis
      using 6 n Cons by (simp add: skip_ws_id is_ws_def)
  qed
next
  case 7
  then show ?case by simp
next
  case (8 j js)
  then obtain m where n: "n = Suc m" by (cases n) auto
  show ?case
  proof (cases "js = []")
    case True
    then show ?thesis
      using 8 n p_elems_step[of m j "CHR '']'' # r" _ "[]" r] by (simp add: delimited_simps)
  next
    case False
    have "p_val m (render j @ CHR '','' # render_elems js @ CHR '']'' # r)
        = Some (j, CHR '','' # render_elems js @ CHR '']'' # r)"
      using "8.IH"(1)[of m] "8.prems" n False by (simp add: delimited_simps)
    moreover have "p_elems m (render_elems js @ CHR '']'' # r) = Some (js, r)"
      using "8.IH"(2)[of m r] "8.prems" n False by simp
    ultimately show ?thesis
      using p_elems_step[of m j "CHR '','' # render_elems js @ CHR '']'' # r" "render_elems js @ CHR '']'' # r" js r]
        n False by simp
  qed
next
  case 9
  then show ?case by simp
next
  case (10 k j ms)
  then obtain m where n: "n = Suc m" by (cases n) auto
  show ?case
  proof (cases "ms = []")
    case True
    then show ?thesis
      using 10 n p_mems_step[of m j "CHR ''}'' # r" _ "[]" r k] by (simp add: delimited_simps)
  next
    case False
    have "p_val m (render j @ CHR '','' # render_mems ms @ CHR ''}'' # r)
        = Some (j, CHR '','' # render_mems ms @ CHR ''}'' # r)"
      using "10.IH"(1)[of m] "10.prems" n False by (simp add: delimited_simps)
    moreover have "p_mems m (render_mems ms @ CHR ''}'' # r) = Some (ms, r)"
      using "10.IH"(2)[of m r] "10.prems" n False by simp
    ultimately show ?thesis
      using p_mems_step[of m j "CHR '','' # render_mems ms @ CHR ''}'' # r" "render_mems ms @ CHR ''}'' # r" ms r k]
        n False "10.prems" by simp
  qed
qed

lemma parse_stream_render [codec_simps]:
  "wf_json j \<Longrightarrow> delimited r \<Longrightarrow> parse_stream (render j @ r) = Some j"
  using parse_render_aux(1)[of j "2 * length (render j @ r) + 2" r]
  by (simp add: parse_stream_def parse_first_def)

lemma parse_whole_render [codec_simps]: "wf_json j \<Longrightarrow> parse_whole (render j) = Some j"
  using parse_render_aux(1)[of j "2 * length (render j) + 2" "[]"]
  by (simp add: parse_whole_def parse_first_def delimited_simps skip_ws_def)

lemma render_inj: "wf_json j \<Longrightarrow> wf_json k \<Longrightarrow> render j = render k \<Longrightarrow> j = k"
  using parse_whole_render by (metis option.inject)

subsection \<open>What the parser lets through\<close>

lemma p_lit_wf: "p_lit w j s = Some (k, r) \<Longrightarrow> wf_json j \<Longrightarrow> wf_json k"
  by (auto simp: p_lit_def split: if_splits)

lemma takeWhile_num_wf: "valid_num (takeWhile num_char s) \<Longrightarrow> wf_json (JNum (takeWhile num_char s))"
  by (simp add: list_all_iff) (meson set_takeWhileD)

lemma p_wf_step:
  assumes e: "\<And>s js r. p_elems n s = Some (js, r) \<Longrightarrow> list_all wf_json js"
    and m: "\<And>s ms r. p_mems n s = Some (ms, r) \<Longrightarrow> list_all (\<lambda>m. utf8_ok (fst m) \<and> wf_json (snd m)) ms"
    and v: "\<And>s j r. p_val n s = Some (j, r) \<Longrightarrow> wf_json j"
  shows "p_val (Suc n) s = Some (j, r) \<Longrightarrow> wf_json j"
    and "p_elems (Suc n) s = Some (js, r) \<Longrightarrow> list_all wf_json js"
    and "p_mems (Suc n) s = Some (ms, r) \<Longrightarrow> list_all (\<lambda>m. utf8_ok (fst m) \<and> wf_json (snd m)) ms"
proof -
  assume h: "p_val (Suc n) s = Some (j, r)"
  obtain c cs where s: "skip_ws s = c # cs" using h by (auto split: list.splits)
  show "wf_json j"
    using h s takeWhile_num_wf[of "c # cs"]
    by (auto simp: Let_def split: if_splits list.splits option.splits dest: e m p_lit_wf)
next
  assume "p_elems (Suc n) s = Some (js, r)"
  then show "list_all wf_json js"
    by (auto split: if_splits list.splits option.splits) (metis v, metis v, metis e)
next
  assume "p_mems (Suc n) s = Some (ms, r)"
  then show "list_all (\<lambda>m. utf8_ok (fst m) \<and> wf_json (snd m)) ms"
    by (auto split: if_splits list.splits option.splits) (metis v, metis v, metis m)
qed

lemma p_wf:
  "(\<forall>s j r. p_val n s = Some (j, r) \<longrightarrow> wf_json j)
   \<and> (\<forall>s js r. p_elems n s = Some (js, r) \<longrightarrow> list_all wf_json js)
   \<and> (\<forall>s ms r. p_mems n s = Some (ms, r) \<longrightarrow> list_all (\<lambda>m. utf8_ok (fst m) \<and> wf_json (snd m)) ms)"
proof (induction n)
  case (Suc n)
  then show ?case using p_wf_step[of n] by blast
qed simp

lemmas p_val_wf = p_wf [THEN conjunct1, rule_format]

lemma parse_stream_wf: "parse_stream s = Some j \<Longrightarrow> wf_json j"
  by (auto simp: parse_stream_def parse_first_def simp del: p_val.simps dest: p_val_wf)

lemma parse_whole_wf: "parse_whole s = Some j \<Longrightarrow> wf_json j"
  by (auto simp: parse_whole_def parse_first_def simp del: p_val.simps split: option.splits if_splits dest: p_val_wf)

subsection \<open>The fuel is enough for every input\<close>

lemma skip_ws_length: "length (skip_ws s) \<le> length s"
  by (simp add: skip_ws_def length_dropWhile_le)

lemma skip_ws_Cons_length: "skip_ws s = c # cs \<Longrightarrow> length cs < length s"
  using skip_ws_length[of s] by simp

lemma p_str_shorter: "p_str s = Some (t, r) \<Longrightarrow> length r < length s"
proof (induction s arbitrary: t r rule: measure_induct_rule [of length])
  case (less s)
  have IH: "length r' < length s'" if "length s' < length s" "p_str s' = Some (t', r')" for s' t' r'
    using less.IH that by blast
  show ?case
    using less.prems
    by (subst (asm) p_str.simps)
      (fastforce split: list.splits if_splits option.splits dest: IH[rotated])
qed

lemma p_lit_shorter: "p_lit w j s = Some (k, r) \<Longrightarrow> w \<noteq> [] \<Longrightarrow> length r < length s"
  by (auto simp: p_lit_def split: if_splits) (metis length_greater_0_conv take_eq_Nil diff_less length_0_conv)

lemma p_num_shorter:
  "valid_num (takeWhile num_char (c # cs)) \<Longrightarrow> length (dropWhile num_char (c # cs)) < length (c # cs)"
  using length_dropWhile_le[of num_char cs] valid_num_start[of "takeWhile num_char (c # cs)"]
  by (auto split: if_splits dest!: le_imp_less_Suc)

lemma p_shorter_step:
  assumes e: "\<And>s js r. p_elems n s = Some (js, r) \<Longrightarrow> length r < length s"
    and m: "\<And>s ms r. p_mems n s = Some (ms, r) \<Longrightarrow> length r < length s"
    and v: "\<And>s j r. p_val n s = Some (j, r) \<Longrightarrow> length r < length s"
  shows "p_val (Suc n) s = Some (j, r) \<Longrightarrow> length r < length s"
    and "p_elems (Suc n) s = Some (js, r) \<Longrightarrow> length r < length s"
    and "p_mems (Suc n) s = Some (ms, r) \<Longrightarrow> length r < length s"
proof -
  assume h: "p_val (Suc n) s = Some (j, r)"
  obtain c cs where s: "skip_ws s = c # cs" using h by (auto split: list.splits)
  have "length r < length (skip_ws s)"
    using h s skip_ws_Cons_length[of cs] p_num_shorter[of c cs]
    by (fastforce simp: Let_def split: if_splits list.splits option.splits
        dest!: e m p_str_shorter p_lit_shorter)
  then show "length r < length s" using skip_ws_length[of s] by simp
next
  assume "p_elems (Suc n) s = Some (js, r)"
  then show "length r < length s"
    by (fastforce split: if_splits list.splits option.splits dest!: e v skip_ws_Cons_length)
next
  assume "p_mems (Suc n) s = Some (ms, r)"
  then show "length r < length s"
    by (fastforce split: if_splits list.splits option.splits dest!: m v p_str_shorter skip_ws_Cons_length)
qed

lemma p_shorter:
  "(\<forall>s j r. p_val n s = Some (j, r) \<longrightarrow> length r < length s)
   \<and> (\<forall>s js r. p_elems n s = Some (js, r) \<longrightarrow> length r < length s)
   \<and> (\<forall>s ms r. p_mems n s = Some (ms, r) \<longrightarrow> length r < length s)"
proof (induction n)
  case (Suc n)
  then show ?case using p_shorter_step[of n] by blast
qed simp


lemmas p_shorter_rules = p_shorter [THEN conjunct1, rule_format]
  p_shorter [THEN conjunct2, THEN conjunct1, rule_format]
  p_shorter [THEN conjunct2, THEN conjunct2, rule_format]

lemma fuel_step:
  assumes v: "\<And>m s. 2 * length s < n \<Longrightarrow> 2 * length s < m \<Longrightarrow> p_val n s = p_val m s"
    and e: "\<And>m s. 2 * length s + 1 < n \<Longrightarrow> 2 * length s + 1 < m \<Longrightarrow> p_elems n s = p_elems m s"
    and m: "\<And>m s. 2 * length s + 1 < n \<Longrightarrow> 2 * length s + 1 < m \<Longrightarrow> p_mems n s = p_mems m s"
  shows "2 * length s < Suc n \<Longrightarrow> 2 * length s < Suc k \<Longrightarrow> p_val (Suc n) s = p_val (Suc k) s"
    and "2 * length s + 1 < Suc n \<Longrightarrow> 2 * length s + 1 < Suc k \<Longrightarrow> p_elems (Suc n) s = p_elems (Suc k) s"
    and "2 * length s + 1 < Suc n \<Longrightarrow> 2 * length s + 1 < Suc k \<Longrightarrow> p_mems (Suc n) s = p_mems (Suc k) s"
proof -
  assume h: "2 * length s < Suc n" "2 * length s < Suc k"
  have "p_elems n cs = p_elems k cs \<and> p_mems n cs = p_mems k cs" if "skip_ws s = c # cs" for c cs
    using skip_ws_Cons_length[OF that] h by (intro conjI e m) auto
  then show "p_val (Suc n) s = p_val (Suc k) s"
    by (auto split: list.splits)
next
  assume h: "2 * length s + 1 < Suc n" "2 * length s + 1 < Suc k"
  have vk: "p_val n s = p_val k s" using h by (intro v) auto
  have ek: "p_elems n cs = p_elems k cs"
    if "p_val k s = Some (j, r)" "skip_ws r = c # cs" for j r c cs
    using p_shorter_rules(1)[OF that(1)] skip_ws_Cons_length[OF that(2)] h by (intro e) auto
  show "p_elems (Suc n) s = p_elems (Suc k) s"
    using vk ek by (auto split: option.splits list.splits)
next
  assume h: "2 * length s + 1 < Suc n" "2 * length s + 1 < Suc k"
  have vk: "p_val n ds = p_val k ds" and
    mk: "\<And>j r c cs. p_val k ds = Some (j, r) \<Longrightarrow> skip_ws r = c # cs \<Longrightarrow> p_mems n cs = p_mems k cs"
    if "skip_ws s = q # qs" "p_str qs = Some (t, r0)" "skip_ws r0 = d # ds" for q qs t r0 d ds
  proof -
    have "length ds < length s"
      using skip_ws_Cons_length[OF that(1)] p_str_shorter[OF that(2)] skip_ws_Cons_length[OF that(3)] by simp
    then show "p_val n ds = p_val k ds"
      and "\<And>j r c cs. p_val k ds = Some (j, r) \<Longrightarrow> skip_ws r = c # cs \<Longrightarrow> p_mems n cs = p_mems k cs"
      using h by (auto intro!: v m dest!: p_shorter_rules(1) skip_ws_Cons_length)
  qed
  show "p_mems (Suc n) s = p_mems (Suc k) s"
    using vk mk by (auto split: option.splits list.splits)
qed

lemma fuel_irrelevant:
  "(\<forall>m s. 2 * length s < n \<longrightarrow> 2 * length s < m \<longrightarrow> p_val n s = p_val m s)
   \<and> (\<forall>m s. 2 * length s + 1 < n \<longrightarrow> 2 * length s + 1 < m \<longrightarrow> p_elems n s = p_elems m s)
   \<and> (\<forall>m s. 2 * length s + 1 < n \<longrightarrow> 2 * length s + 1 < m \<longrightarrow> p_mems n s = p_mems m s)"
proof (induction n)
  case (Suc n)
  then have v: "\<And>m s. 2 * length s < n \<Longrightarrow> 2 * length s < m \<Longrightarrow> p_val n s = p_val m s"
    and e: "\<And>m s. 2 * length s + 1 < n \<Longrightarrow> 2 * length s + 1 < m \<Longrightarrow> p_elems n s = p_elems m s"
    and m: "\<And>m s. 2 * length s + 1 < n \<Longrightarrow> 2 * length s + 1 < m \<Longrightarrow> p_mems n s = p_mems m s"
    by blast+
  have pos: "\<exists>k. m = Suc k" if "l < m" for l m :: nat using that by (cases m) auto
  show ?case
  proof (intro conjI allI impI)
    fix m and s :: string assume "2 * length s < Suc n" "2 * length s < m"
    then show "p_val (Suc n) s = p_val m s" using fuel_step(1)[OF v e m] pos by blast
  next
    fix m and s :: string assume "2 * length s + 1 < Suc n" "2 * length s + 1 < m"
    then show "p_elems (Suc n) s = p_elems m s" using fuel_step(2)[OF v e m] pos by blast
  next
    fix m and s :: string assume "2 * length s + 1 < Suc n" "2 * length s + 1 < m"
    then show "p_mems (Suc n) s = p_mems m s" using fuel_step(3)[OF v e m] pos by blast
  qed
qed (simp only: not_less0 simp_thms)

text \<open>Any larger fuel gives the result of \<open>parse_first\<close>: \<open>None\<close> always means malformed text.\<close>

lemma parse_first_fuel:
  assumes "2 * length s < n"
  shows "p_val n s = parse_first s"
  unfolding parse_first_def
  by (rule fuel_irrelevant [of n, THEN conjunct1, rule_format, OF assms]) simp

text \<open>Decimal integers are valid number literals.\<close>

lemma show_nat_head: "0 < n \<Longrightarrow> \<exists>c cs. show_nat n = c # cs \<and> c \<noteq> CHR ''0''"
proof (induction n rule: show_nat.induct)
  case (1 n)
  show ?case
  proof (cases "n < 10")
    case True
    moreover have "char_of (48 + n) \<noteq> CHR ''0''"
      using 1 True of_char_show[of n] by (auto dest!: arg_cong[of _ _ "of_char :: char \<Rightarrow> nat"])
    ultimately show ?thesis by (simp add: show_nat.simps[of n])
  next
    case False
    then have "0 < n div 10" by simp
    then show ?thesis using "1.IH"[OF False] False by (auto simp: show_nat.simps[of n])
  qed
qed

lemma digits_all: "list_all is_digit (show_nat n)"
  using show_nat_digits by (auto simp: list_all_iff)

lemma takeWhile_all: "list_all P xs \<Longrightarrow> takeWhile P xs = xs \<and> dropWhile P xs = []"
  by (induction xs) auto

lemma digit_not_minus: "is_digit c \<Longrightarrow> c \<noteq> CHR ''-''"
  by (auto simp: is_digit_def)

lemma valid_show_nat: "valid_num (show_nat n)"
proof (cases "n = 0")
  case True
  then show ?thesis
    by (simp add: show_nat.simps valid_num_def valid_frac_def valid_exp_def is_digit_def char_of_eq_iff)
next
  case False
  then obtain c cs where "show_nat n = c # cs" "c \<noteq> CHR ''0''" using show_nat_head by blast
  then show ?thesis
    using digits_all[of n] takeWhile_all[of is_digit cs] digit_not_minus[of c]
    by (auto simp: valid_num_def valid_frac_def simp del: dropWhile_eq_Nil_conv)
qed

lemma valid_show_int: "valid_num (show_int i)"
proof (cases "i < 0")
  case True
  obtain c cs where "show_nat (nat (- i)) = c # cs"
    by (metis neq_Nil_conv show_nat_nonempty)
  moreover from this have "c \<noteq> CHR ''-''"
    using digits_all[of "nat (- i)"] digit_not_minus by simp
  ultimately show ?thesis
    using True valid_show_nat[of "nat (- i)"] by (simp add: show_int_def valid_num_def)
qed (simp add: show_int_def valid_show_nat)

lemma num_chars_show_int: "list_all num_char (show_int i)"
  using digits_all by (auto simp: show_int_def list_all_iff num_char_def)

lemma wf_json_int [simp]: "wf_json (JNum (show_int i))"
  by (simp add: valid_show_int num_chars_show_int)

lemma utf8_ok_show_int [simp]: "utf8_ok (show_int i)"
  using num_chars_show_int[of i]
  by (intro utf8_ok_ascii_all) (auto simp: list_all_iff num_char_def is_digit_def dest!: bspec)

text \<open>Base64 text is plain ASCII.\<close>

lemma b64chr_ascii: "n < 64 \<Longrightarrow> (of_char (b64chr n) :: nat) < 128"
  by (simp add: b64chr_def) arith

lemma utf8_ok_b64enc [simp]: "utf8_ok (b64enc s)"
  by (induction s rule: b64enc.induct) (simp_all add: b64_range [THEN b64chr_ascii] b64_high_bits)

end
