(* ===== verification/Go_Codec.thy ===== *)
theory Go_Codec
  imports Go_Json
begin

text \<open>
  How \<open>encoding/json\<close> maps Go values to JSON trees and back, by the kinds of field the program's
  structs have. A decoder takes the tree and the value the target holds and returns the new value
  with a flag: false when Go reports a type error, which leaves that target as it is and lets the
  rest of the document be decoded. Member names match up to Go's case folding, unknown members are
  skipped, null empties slices and maps and leaves strings, numbers and structs alone.

  The locale \<open>go_codec\<close> is what the program relies on of a struct's pair of functions: a value
  that is encoded decodes to itself, from bytes to bytes, and whatever bytes are decoded, the
  result is a value the Go type can hold (\<open>ok\<close>). It is interpreted in \<open>Models\<close> for the struct types
  of the program.
\<close>

type_synonym 'a dec = "json \<Rightarrow> 'a \<Rightarrow> 'a \<times> bool"

subsection \<open>Strings, numbers, byte slices\<close>

fun dec_str :: "bytes dec" where
  "dec_str (JStr s) _ = (s, True)"
| "dec_str JNull old = (old, True)"
| "dec_str _ old = (old, False)"

fun dec_int :: "int dec" where
  "dec_int (JNum t) old = (case parse_int64 t of Some i \<Rightarrow> (i, True) | None \<Rightarrow> (old, False))"
| "dec_int JNull old = (old, True)"
| "dec_int _ old = (old, False)"

text \<open>A Go \<open>byte\<close> is a number below 256 without a sign.\<close>

fun dec_byte :: "char dec" where
  "dec_byte (JNum t) old =
     (if list_all is_digit t \<and> t \<noteq> []
      then (case read_nat 0 t of Some n \<Rightarrow> if n < 256 then (char_of n, True) else (old, False)
            | None \<Rightarrow> (old, False))
      else (old, False))"
| "dec_byte JNull old = (old, True)"
| "dec_byte _ old = (old, False)"

definition dec_slice :: "'a dec \<Rightarrow> 'a \<Rightarrow> 'a slice dec" where
  "dec_slice d z j old = (case j of
       JArr js \<Rightarrow> (Some (map (\<lambda>x. fst (d x z)) js), list_all (\<lambda>x. snd (d x z)) js)
     | JNull \<Rightarrow> (None, True)
     | _ \<Rightarrow> (old, False))"

definition dec_bytes :: "char slice dec" where
  "dec_bytes j old = (case j of
       JStr s \<Rightarrow> (case b64dec s of Some b \<Rightarrow> (Some b, True) | None \<Rightarrow> (old, False))
     | _ \<Rightarrow> dec_slice dec_byte (CHR 0x00) j old)"

definition enc_int :: "int \<Rightarrow> json" where
  "enc_int i = JNum (show_int i)"

definition enc_byte :: "char \<Rightarrow> json" where
  "enc_byte c = JNum (show_nat (of_char c))"

definition enc_slice :: "('a \<Rightarrow> json) \<Rightarrow> 'a slice \<Rightarrow> json" where
  "enc_slice e s = (case s of None \<Rightarrow> JNull | Some xs \<Rightarrow> JArr (map e xs))"

definition enc_bytes :: "char slice \<Rightarrow> json" where
  "enc_bytes s = (case s of None \<Rightarrow> JNull | Some b \<Rightarrow> JStr (b64enc b))"

lemma dec_enc_str [codec_simps]: "dec_str (JStr s) old = (s, True)"
  by simp

lemma dec_enc_int [codec_simps]: "in_int64 i \<Longrightarrow> dec_int (enc_int i) old = (i, True)"
  by (simp add: enc_int_def parse_show_int)

lemma dec_enc_byte [codec_simps]: "dec_byte (enc_byte c) old = (c, True)"
  using digits_all[of "of_char c"] read_nat_show[of 0 "of_char c"]
  by (simp add: enc_byte_def)

lemma dec_enc_bytes [codec_simps]: "dec_bytes (enc_bytes b) old = (b, True)"
  by (simp add: dec_bytes_def enc_bytes_def dec_slice_def b64dec_enc split: option.split)

lemma dec_enc_slice:
  assumes "\<And>x. x \<in> set (elems s) \<Longrightarrow> d (e x) z = (x, True)"
  shows "dec_slice d z (enc_slice e s) old = (s, True)"
  using assms by (cases s) (auto simp: dec_slice_def enc_slice_def list_all_iff o_def map_idI)

lemma wf_enc [simp]:
  "wf_json (enc_int i)" "wf_json (enc_bytes b)"
  unfolding enc_int_def by (rule wf_json_int) (simp add: enc_bytes_def split: option.split)

lemma wf_enc_byte [simp]: "wf_json (enc_byte c)"
  using wf_json_int[of "int (of_char c)"] by (simp add: enc_byte_def show_int_def)

lemma wf_enc_slice: "(\<And>x. x \<in> set (elems s) \<Longrightarrow> wf_json (e x)) \<Longrightarrow> wf_json (enc_slice e s)"
  by (cases s) (auto simp: enc_slice_def list_all_iff)

subsection \<open>Maps\<close>

text \<open>
  The printer sorts a map by the text of its keys; the decoder puts one entry after another into
  the map the target holds. An entry whose value has a type error is still stored, with what was
  decoded of it; an entry whose key is no number is not stored in a map with integer keys.
\<close>

fun dec_entries :: "(bytes \<Rightarrow> 'k::linorder option) \<Rightarrow> 'v dec \<Rightarrow> 'v \<Rightarrow> (bytes \<times> json) list
    \<Rightarrow> ('k \<times> 'v) list \<Rightarrow> ('k \<times> 'v) list \<times> bool" where
  "dec_entries kp d z [] m = (m, True)"
| "dec_entries kp d z ((k, j) # ms) m =
     (let (v, ok1) = d j z;
          (m', ok2) = (case kp k of None \<Rightarrow> (m, False) | Some k' \<Rightarrow> (gm_put k' v m, True));
          (m'', ok3) = dec_entries kp d z ms m'
      in (m'', ok1 \<and> ok2 \<and> ok3))"

definition dec_map :: "(bytes \<Rightarrow> 'k::linorder option) \<Rightarrow> 'v dec \<Rightarrow> 'v \<Rightarrow> ('k \<times> 'v) slice dec" where
  "dec_map kp d z j old = (case j of
       JObj ms \<Rightarrow> (let (m, ok) = dec_entries kp d z ms (elems old) in (Some m, ok))
     | JNull \<Rightarrow> (None, True)
     | _ \<Rightarrow> (old, False))"

definition enc_map :: "('k \<Rightarrow> bytes) \<Rightarrow> ('v \<Rightarrow> json) \<Rightarrow> ('k \<times> 'v) slice \<Rightarrow> json" where
  "enc_map ks e m = (case m of None \<Rightarrow> JNull
     | Some es \<Rightarrow> JObj (map (\<lambda>(k, v). (ks k, e v)) (sort_key (\<lambda>x. ks (fst x)) es)))"

lemma dec_entries_enc:
  assumes "\<And>k v. (k, v) \<in> set es \<Longrightarrow> kp (ks k) = Some k \<and> d (e v) z = (v, True)"
  shows "dec_entries kp d z (map (\<lambda>(k, v). (ks k, e v)) es) m = (fold (\<lambda>(k, v). gm_put k v) es m, True)"
  using assms
proof (induction es arbitrary: m)
  case (Cons a es)
  obtain k v where a: "a = (k, v)" by (cases a)
  with Cons.prems have "kp (ks k) = Some k" "d (e v) z = (v, True)" by auto
  moreover have "dec_entries kp d z (map (\<lambda>(k, v). (ks k, e v)) es) m'
      = (fold (\<lambda>(k, v). gm_put k v) es m', True)" for m'
    by (rule Cons.IH) (use Cons.prems in auto)
  ultimately show ?case using a by (simp add: Let_def)
qed simp

lemma fold_gm_put_ok: "gomap_ok m \<Longrightarrow> gomap_ok (fold (\<lambda>(k, v). gm_put k v) es m)"
  by (induction es arbitrary: m) (auto simp: gm_put_ok)

lemma map_of_fold_gm_put:
  "distinct (map fst es) \<Longrightarrow> map_of (fold (\<lambda>(k, v). gm_put k v) es m) = map_of m ++ map_of es"
proof (induction es arbitrary: m)
  case (Cons a es)
  then show ?case
    by (cases a) (auto simp: map_of_gm_put fun_eq_iff map_add_def split: option.splits
        dest: map_of_SomeD intro: rev_image_eqI)
qed simp

lemma fold_gm_put_perm:
  assumes "gomap_ok es" "set es' = set es" "distinct (map fst es')"
  shows "fold (\<lambda>(k, v). gm_put k v) es' [] = es"
proof (rule gomap_eqI)
  show "gomap_ok (fold (\<lambda>(k, v). gm_put k v) es' [])" by (rule fold_gm_put_ok) simp
  show "map_of (fold (\<lambda>(k, v). gm_put k v) es' []) = map_of es"
    using assms map_of_inject_set[of es' es] gomap_distinct[of es] by (simp add: map_of_fold_gm_put)
qed (rule assms)

lemma distinct_sort_key_fst:
  "distinct (map fst es) \<Longrightarrow> distinct (map fst (sort_key f es))"
  by (metis distinct_map distinct_sort set_sort)

lemma dec_enc_map:
  assumes "gomap_ok (elems m)"
    and "\<And>k v. (k, v) \<in> set (elems m) \<Longrightarrow> kp (ks k) = Some k \<and> d (e v) z = (v, True)"
  shows "dec_map kp d z (enc_map ks e m) None = (m, True)"
proof (cases m)
  case (Some es)
  let ?es = "sort_key (\<lambda>x. ks (fst x)) es"
  have "fold (\<lambda>(k, v). gm_put k v) ?es [] = es"
    using assms(1) Some by (intro fold_gm_put_perm distinct_sort_key_fst) (auto simp: gomap_distinct)
  then show ?thesis
    using dec_entries_enc[of ?es kp ks d e z "[]"] assms(2) Some
    by (simp add: dec_map_def enc_map_def)
qed (simp add: dec_map_def enc_map_def)

lemma wf_enc_map:
  "(\<And>k v. (k, v) \<in> set (elems m) \<Longrightarrow> utf8_ok (ks k) \<and> wf_json (e v)) \<Longrightarrow> wf_json (enc_map ks e m)"
  by (cases m) (auto simp: enc_map_def list_all_iff)

subsection \<open>What decoders can produce\<close>

text \<open>
  From a tree the parser built, strings are UTF-8, integers fit 64 bits and maps have one entry per
  key: the values of the Go types.
\<close>

lemma parse_int64_range: "parse_int64 t = Some i \<Longrightarrow> in_int64 i"
  by (auto simp: parse_int64_def Let_def split: if_splits option.splits prod.splits)

lemma dec_str_ok [codec_simps]: "wf_json j \<Longrightarrow> utf8_ok old \<Longrightarrow> utf8_ok (fst (dec_str j old))"
  by (cases j) auto

lemma dec_int_ok [codec_simps]: "in_int64 old \<Longrightarrow> in_int64 (fst (dec_int j old))"
  by (cases j) (auto simp: parse_int64_range split: option.split)

lemma dec_slice_ok:
  assumes "\<And>k. wf_json k \<Longrightarrow> P (fst (d k z))" "wf_json j" "list_all P (elems old)"
  shows "list_all P (elems (fst (dec_slice d z j old)))"
  using assms by (cases j) (auto simp: dec_slice_def list_all_iff)

lemma gm_put_set: "set (gm_put k v m) \<subseteq> insert (k, v) (set m)"
  by (induction k v m rule: gm_put.induct) auto

lemma dec_entries_ok:
  assumes v: "\<And>k. wf_json k \<Longrightarrow> Q (fst (d k z))"
    and k: "\<And>k k'. utf8_ok k \<Longrightarrow> kp k = Some k' \<Longrightarrow> P k'"
    and "list_all (\<lambda>m. utf8_ok (fst m) \<and> wf_json (snd m)) ms" "gomap_ok m"
    and "list_all (\<lambda>e. P (fst e) \<and> Q (snd e)) m"
  shows "gomap_ok (fst (dec_entries kp d z ms m))
    \<and> list_all (\<lambda>e. P (fst e) \<and> Q (snd e)) (fst (dec_entries kp d z ms m))"
  using assms(3-5)
proof (induction ms arbitrary: m)
  case (Cons a ms)
  obtain k j where a: "a = (k, j)" by (cases a)
  have step: "gomap_ok (gm_put k' (fst (d j z)) m)
      \<and> list_all (\<lambda>e. P (fst e) \<and> Q (snd e)) (gm_put k' (fst (d j z)) m)" if "kp k = Some k'" for k'
    using Cons.prems a v[of j] k[OF _ that] gm_put_set[of k' "fst (d j z)" m]
    by (auto simp: gm_put_ok list_all_iff)
  then show ?case
    using Cons a by (auto simp: Let_def case_prod_beta split: option.split)
qed simp

lemma dec_map_ok:
  assumes "\<And>k. wf_json k \<Longrightarrow> Q (fst (d k z))" "\<And>k k'. utf8_ok k \<Longrightarrow> kp k = Some k' \<Longrightarrow> P k'"
    and "wf_json j" "gomap_ok (elems old)" "list_all (\<lambda>e. P (fst e) \<and> Q (snd e)) (elems old)"
  shows "gomap_ok (elems (fst (dec_map kp d z j old)))"
    and "list_all (\<lambda>e. P (fst e) \<and> Q (snd e)) (elems (fst (dec_map kp d z j old)))"
  using assms dec_entries_ok[of Q d z kp P _ "elems old"]
  by (cases j; simp add: dec_map_def Let_def case_prod_beta)+

subsection \<open>Structs\<close>

text \<open>Go compares member names up to simple case folding; U+212A folds to K and U+017F to S.\<close>

fun fold_name :: "bytes \<Rightarrow> bytes" where
  "fold_name [] = []"
| "fold_name (c # cs) =
     (if c = CHR 0xE2 \<and> take 2 cs = [CHR 0x84, CHR 0xAA] then CHR ''K'' # fold_name (drop 2 cs)
      else if c = CHR 0xC5 \<and> take 1 cs = [CHR 0xBF] then CHR ''S'' # fold_name (drop 1 cs)
      else (if 97 \<le> (of_char c :: nat) \<and> (of_char c :: nat) \<le> 122 then char_of ((of_char c :: nat) - 32) else c)
           # fold_name cs)"

text \<open>A struct's fields: the name in the field's tag and a decoder that works on the whole struct.\<close>

type_synonym 'r fields = "(bytes \<times> 'r dec) list"

definition fld :: "'a dec \<Rightarrow> ('r \<Rightarrow> 'a) \<Rightarrow> (('a \<Rightarrow> 'a) \<Rightarrow> 'r \<Rightarrow> 'r) \<Rightarrow> 'r dec" where
  "fld d get upd j r = (let (v, ok) = d j (get r) in (upd (\<lambda>_. v) r, ok))"

definition find_field :: "'r fields \<Rightarrow> bytes \<Rightarrow> 'r dec option" where
  "find_field fs k = map_option snd (find (\<lambda>f. fold_name (fst f) = fold_name k) fs)"

fun dec_members :: "'r fields \<Rightarrow> (bytes \<times> json) list \<Rightarrow> 'r \<Rightarrow> 'r \<times> bool" where
  "dec_members fs [] r = (r, True)"
| "dec_members fs ((k, j) # ms) r =
     (let (r1, ok1) = (case find_field fs k of None \<Rightarrow> (r, True) | Some d \<Rightarrow> d j r);
          (r2, ok2) = dec_members fs ms r1
      in (r2, ok1 \<and> ok2))"

definition dec_struct :: "'r fields \<Rightarrow> 'r dec" where
  "dec_struct fs j r = (case j of
       JObj ms \<Rightarrow> dec_members fs ms r
     | JNull \<Rightarrow> (r, True)
     | _ \<Rightarrow> (r, False))"

lemma find_field_mem: "find_field fs k = Some d \<Longrightarrow> \<exists>n. (n, d) \<in> set fs"
  by (induction fs) (auto simp: find_field_def split: if_splits)

lemma dec_members_ok:
  assumes "\<And>n d j x. (n, d) \<in> set fs \<Longrightarrow> wf_json j \<Longrightarrow> P x \<Longrightarrow> P (fst (d j x))"
    and "list_all (\<lambda>m. utf8_ok (fst m) \<and> wf_json (snd m)) ms" "P r"
  shows "P (fst (dec_members fs ms r))"
  using assms(2,3)
proof (induction ms arbitrary: r)
  case (Cons a ms)
  obtain k j where a: "a = (k, j)" by (cases a)
  have "P (fst (d j r))" if "find_field fs k = Some d" for d
    using find_field_mem[OF that] assms(1) Cons.prems a by auto
  then show ?case
    using Cons a by (auto simp: Let_def case_prod_beta split: option.split)
qed simp

lemma dec_struct_ok:
  assumes "\<And>n d j x. (n, d) \<in> set fs \<Longrightarrow> wf_json j \<Longrightarrow> P x \<Longrightarrow> P (fst (d j x))" "wf_json j" "P r"
  shows "P (fst (dec_struct fs j r))"
  using assms dec_members_ok[of fs P _ r] by (cases j) (auto simp: dec_struct_def)

lemma fst_fld [simp]: "fst (fld d get upd j r) = upd (\<lambda>_. fst (d j (get r))) r"
  by (simp add: fld_def case_prod_beta)

subsection \<open>Bytes to structs and back\<close>

definition marshal :: "('a \<Rightarrow> json) \<Rightarrow> 'a \<Rightarrow> bytes" where
  "marshal e x = render (e x)"

text \<open>
  \<open>json.NewDecoder(r).Decode(&x)\<close> and \<open>json.Unmarshal(b, &x)\<close>: malformed text leaves the target
  alone; otherwise the target holds what could be decoded and the flag says whether that was all.
\<close>

definition decode_stream :: "'a dec \<Rightarrow> 'a \<Rightarrow> bytes \<Rightarrow> 'a \<times> bool" where
  "decode_stream d x b = (case parse_stream b of None \<Rightarrow> (x, False) | Some j \<Rightarrow> d j x)"

definition unmarshal :: "'a dec \<Rightarrow> 'a \<Rightarrow> bytes \<Rightarrow> 'a \<times> bool" where
  "unmarshal d x b = (case parse_whole b of None \<Rightarrow> (x, False) | Some j \<Rightarrow> d j x)"

text \<open>Decoding into a nil pointer: null leaves it nil, any other value allocates the struct.\<close>

definition decode_stream_ptr :: "'a dec \<Rightarrow> 'a \<Rightarrow> bytes \<Rightarrow> 'a option \<times> bool" where
  "decode_stream_ptr d z b = (case parse_stream b of None \<Rightarrow> (None, False)
     | Some JNull \<Rightarrow> (None, True)
     | Some j \<Rightarrow> (let (x, ok) = d j z in (Some x, ok)))"

locale go_codec =
  fixes enc :: "'a \<Rightarrow> json" and dec :: "'a dec" and zero :: 'a and ok :: "'a \<Rightarrow> bool"
  assumes dec_enc: "ok x \<Longrightarrow> dec (enc x) zero = (x, True)"
    and enc_wf: "ok x \<Longrightarrow> wf_json (enc x)"
    and enc_obj: "\<exists>ms. enc x = JObj ms"
    and zero_ok: "ok zero"
    and dec_ok: "wf_json j \<Longrightarrow> ok x \<Longrightarrow> ok (fst (dec j x))"
begin

lemma stream_ok: "ok (fst (decode_stream dec zero b))"
  by (auto simp: decode_stream_def zero_ok dec_ok parse_stream_wf split: option.split)

lemma unmarshal_ok: "ok (fst (unmarshal dec zero b))"
  by (auto simp: unmarshal_def zero_ok dec_ok parse_whole_wf split: option.split)

lemma stream_ptr_ok: "fst (decode_stream_ptr dec zero b) = Some x \<Longrightarrow> ok x"
  using dec_ok[OF parse_stream_wf zero_ok, of b]
  by (auto simp: decode_stream_ptr_def case_prod_beta split: option.splits json.splits)

lemma stream_marshal: "ok x \<Longrightarrow> delimited r \<Longrightarrow> decode_stream dec zero (marshal enc x @ r) = (x, True)"
  by (simp add: decode_stream_def marshal_def parse_stream_render enc_wf dec_enc)

lemma stream_marshal_end: "ok x \<Longrightarrow> decode_stream dec zero (marshal enc x) = (x, True)"
  using stream_marshal[of x "[]"] by (simp add: delimited_simps)

lemma unmarshal_marshal: "ok x \<Longrightarrow> unmarshal dec zero (marshal enc x) = (x, True)"
  by (simp add: unmarshal_def marshal_def parse_whole_render enc_wf dec_enc)

lemma stream_ptr_marshal: "ok x \<Longrightarrow> decode_stream_ptr dec zero (marshal enc x) = (Some x, True)"
  using enc_obj[of x] parse_stream_render[of "enc x" "[]"] dec_enc[of x] enc_wf[of x]
  by (auto simp: decode_stream_ptr_def marshal_def delimited_simps)

lemma marshal_inj: "ok x \<Longrightarrow> ok y \<Longrightarrow> marshal enc x = marshal enc y \<Longrightarrow> x = y"
  using unmarshal_marshal by (metis prod.inject)

lemma marshal_nonempty: "marshal enc x \<noteq> []"
  using enc_obj[of x] by (auto simp: marshal_def)

end

lemma decode_stream_empty: "decode_stream d x [] = (x, False)"
  by (simp add: decode_stream_def parse_stream_def parse_first_def skip_ws_def numeral_eq_Suc)

lemma decode_stream_ptr_empty: "decode_stream_ptr d x [] = (None, False)"
  by (simp add: decode_stream_ptr_def parse_stream_def parse_first_def skip_ws_def numeral_eq_Suc)

end
