(* ===== verification/Models.thy ===== *)
theory Models
  imports Go_Codec
begin

text \<open>
  The structs of \<open>internal/models/model.go\<close>, one record each, field by field, with the encoder
  and decoder that the field tags give (a field without a tag uses the field's name). Field names
  carry a prefix of three letters because HOL's record fields are global. \<open>zero_X\<close> is Go's zero
  value of the struct, which every handler decodes into, and \<open>ok_X\<close> says that the record is a value
  the Go struct can hold and \<open>json\<close> preserves: UTF-8 strings, integers of 64 bits and maps with one
  entry per key. Every struct is an interpretation of \<open>go_codec\<close>.
\<close>

definition ok_strs :: "bytes slice \<Rightarrow> bool" where
  "ok_strs s \<longleftrightarrow> list_all utf8_ok (elems s)"

definition ok_bmap :: "(bytes \<times> char slice) slice \<Rightarrow> bool" where
  "ok_bmap m \<longleftrightarrow> gomap_ok (elems m) \<and> list_all (\<lambda>e. utf8_ok (fst e) \<and> True) (elems m)"

record SubscriptionRequest =
  sub_Address :: bytes
  sub_PublicKey :: "char slice"
  sub_Signature :: "char slice"

definition zero_SubscriptionRequest :: SubscriptionRequest where
  "zero_SubscriptionRequest = \<lparr>sub_Address = [], sub_PublicKey = None, sub_Signature = None\<rparr>"

definition enc_SubscriptionRequest :: "SubscriptionRequest \<Rightarrow> json" where
  "enc_SubscriptionRequest x = JObj
     [(''address'', JStr (sub_Address x)),
      (''public_key'', enc_bytes (sub_PublicKey x)),
      (''signature'', enc_bytes (sub_Signature x))]"

definition dec_SubscriptionRequest :: "SubscriptionRequest dec" where
  "dec_SubscriptionRequest = dec_struct
     [(''address'', fld dec_str sub_Address sub_Address_update),
      (''public_key'', fld dec_bytes sub_PublicKey sub_PublicKey_update),
      (''signature'', fld dec_bytes sub_Signature sub_Signature_update)]"

definition ok_SubscriptionRequest :: "SubscriptionRequest \<Rightarrow> bool" where
  "ok_SubscriptionRequest x \<longleftrightarrow> utf8_ok (sub_Address x)"

record SyncDigest =
  dig_Address :: bytes
  dig_PublicKey :: "char slice"
  dig_Signature :: "char slice"
  dig_NodeKeys :: "bytes slice"
  dig_ManifestKeys :: "bytes slice"

definition zero_SyncDigest :: SyncDigest where
  "zero_SyncDigest = \<lparr>dig_Address = [], dig_PublicKey = None, dig_Signature = None, dig_NodeKeys = None, dig_ManifestKeys = None\<rparr>"

definition enc_SyncDigest :: "SyncDigest \<Rightarrow> json" where
  "enc_SyncDigest x = JObj
     [(''address'', JStr (dig_Address x)),
      (''public_key'', enc_bytes (dig_PublicKey x)),
      (''signature'', enc_bytes (dig_Signature x)),
      (''node_keys'', enc_slice JStr (dig_NodeKeys x)),
      (''manifest_keys'', enc_slice JStr (dig_ManifestKeys x))]"

definition dec_SyncDigest :: "SyncDigest dec" where
  "dec_SyncDigest = dec_struct
     [(''address'', fld dec_str dig_Address dig_Address_update),
      (''public_key'', fld dec_bytes dig_PublicKey dig_PublicKey_update),
      (''signature'', fld dec_bytes dig_Signature dig_Signature_update),
      (''node_keys'', fld (dec_slice dec_str []) dig_NodeKeys dig_NodeKeys_update),
      (''manifest_keys'', fld (dec_slice dec_str []) dig_ManifestKeys dig_ManifestKeys_update)]"

definition ok_SyncDigest :: "SyncDigest \<Rightarrow> bool" where
  "ok_SyncDigest x \<longleftrightarrow> utf8_ok (dig_Address x) \<and> ok_strs (dig_NodeKeys x) \<and> ok_strs (dig_ManifestKeys x)"

record SyncPayload =
  pay_Address :: bytes
  pay_PublicKey :: "char slice"
  pay_Signature :: "char slice"
  pay_ActiveNodes :: "(bytes \<times> char slice) slice"
  pay_FileManifests :: "(bytes \<times> char slice) slice"
  pay_RequestedNodes :: "bytes slice"
  pay_RequestedManifests :: "bytes slice"

definition zero_SyncPayload :: SyncPayload where
  "zero_SyncPayload = \<lparr>pay_Address = [], pay_PublicKey = None, pay_Signature = None, pay_ActiveNodes = None, pay_FileManifests = None, pay_RequestedNodes = None, pay_RequestedManifests = None\<rparr>"

definition enc_SyncPayload :: "SyncPayload \<Rightarrow> json" where
  "enc_SyncPayload x = JObj
     [(''address'', JStr (pay_Address x)),
      (''public_key'', enc_bytes (pay_PublicKey x)),
      (''signature'', enc_bytes (pay_Signature x)),
      (''active_nodes'', enc_map (\<lambda>k. k) enc_bytes (pay_ActiveNodes x)),
      (''file_manifests'', enc_map (\<lambda>k. k) enc_bytes (pay_FileManifests x)),
      (''requested_nodes'', enc_slice JStr (pay_RequestedNodes x)),
      (''requested_manifests'', enc_slice JStr (pay_RequestedManifests x))]"

definition dec_SyncPayload :: "SyncPayload dec" where
  "dec_SyncPayload = dec_struct
     [(''address'', fld dec_str pay_Address pay_Address_update),
      (''public_key'', fld dec_bytes pay_PublicKey pay_PublicKey_update),
      (''signature'', fld dec_bytes pay_Signature pay_Signature_update),
      (''active_nodes'', fld (dec_map Some dec_bytes None) pay_ActiveNodes pay_ActiveNodes_update),
      (''file_manifests'', fld (dec_map Some dec_bytes None) pay_FileManifests pay_FileManifests_update),
      (''requested_nodes'', fld (dec_slice dec_str []) pay_RequestedNodes pay_RequestedNodes_update),
      (''requested_manifests'', fld (dec_slice dec_str []) pay_RequestedManifests pay_RequestedManifests_update)]"

definition ok_SyncPayload :: "SyncPayload \<Rightarrow> bool" where
  "ok_SyncPayload x \<longleftrightarrow> utf8_ok (pay_Address x) \<and> ok_bmap (pay_ActiveNodes x) \<and> ok_bmap (pay_FileManifests x) \<and> ok_strs (pay_RequestedNodes x) \<and> ok_strs (pay_RequestedManifests x)"

record NodesForFileUploadRequest =
  nfu_Address :: bytes
  nfu_PublicKey :: "char slice"
  nfu_Signature :: "char slice"
  nfu_TotalChunks :: int
  nfu_NodesPerChunk :: int

definition zero_NodesForFileUploadRequest :: NodesForFileUploadRequest where
  "zero_NodesForFileUploadRequest = \<lparr>nfu_Address = [], nfu_PublicKey = None, nfu_Signature = None, nfu_TotalChunks = 0, nfu_NodesPerChunk = 0\<rparr>"

definition enc_NodesForFileUploadRequest :: "NodesForFileUploadRequest \<Rightarrow> json" where
  "enc_NodesForFileUploadRequest x = JObj
     [(''address'', JStr (nfu_Address x)),
      (''public_key'', enc_bytes (nfu_PublicKey x)),
      (''signature'', enc_bytes (nfu_Signature x)),
      (''total_chunks'', enc_int (nfu_TotalChunks x)),
      (''nodes_per_chunk'', enc_int (nfu_NodesPerChunk x))]"

definition dec_NodesForFileUploadRequest :: "NodesForFileUploadRequest dec" where
  "dec_NodesForFileUploadRequest = dec_struct
     [(''address'', fld dec_str nfu_Address nfu_Address_update),
      (''public_key'', fld dec_bytes nfu_PublicKey nfu_PublicKey_update),
      (''signature'', fld dec_bytes nfu_Signature nfu_Signature_update),
      (''total_chunks'', fld dec_int nfu_TotalChunks nfu_TotalChunks_update),
      (''nodes_per_chunk'', fld dec_int nfu_NodesPerChunk nfu_NodesPerChunk_update)]"

definition ok_NodesForFileUploadRequest :: "NodesForFileUploadRequest \<Rightarrow> bool" where
  "ok_NodesForFileUploadRequest x \<longleftrightarrow> utf8_ok (nfu_Address x) \<and> in_int64 (nfu_TotalChunks x) \<and> in_int64 (nfu_NodesPerChunk x)"

record ActiveNodeRecord =
  anr_PublicKey :: "char slice"
  anr_Timestamp :: int

definition zero_ActiveNodeRecord :: ActiveNodeRecord where
  "zero_ActiveNodeRecord = \<lparr>anr_PublicKey = None, anr_Timestamp = 0\<rparr>"

definition enc_ActiveNodeRecord :: "ActiveNodeRecord \<Rightarrow> json" where
  "enc_ActiveNodeRecord x = JObj
     [(''PublicKey'', enc_bytes (anr_PublicKey x)),
      (''Timestamp'', enc_int (anr_Timestamp x))]"

definition dec_ActiveNodeRecord :: "ActiveNodeRecord dec" where
  "dec_ActiveNodeRecord = dec_struct
     [(''PublicKey'', fld dec_bytes anr_PublicKey anr_PublicKey_update),
      (''Timestamp'', fld dec_int anr_Timestamp anr_Timestamp_update)]"

definition ok_ActiveNodeRecord :: "ActiveNodeRecord \<Rightarrow> bool" where
  "ok_ActiveNodeRecord x \<longleftrightarrow> in_int64 (anr_Timestamp x)"

record Chunk =
  chk_ChunkId :: bytes
  chk_KeyIndexPart :: char
  chk_KeyPart :: "char slice"
  chk_ShardIndex :: int
  chk_Nodes :: "bytes slice"

definition zero_Chunk :: Chunk where
  "zero_Chunk = \<lparr>chk_ChunkId = [], chk_KeyIndexPart = CHR 0x00, chk_KeyPart = None, chk_ShardIndex = 0, chk_Nodes = None\<rparr>"

definition enc_Chunk :: "Chunk \<Rightarrow> json" where
  "enc_Chunk x = JObj
     [(''chunk_id'', JStr (chk_ChunkId x)),
      (''key_index_part'', enc_byte (chk_KeyIndexPart x)),
      (''key_part'', enc_bytes (chk_KeyPart x)),
      (''shard_index'', enc_int (chk_ShardIndex x)),
      (''nodes'', enc_slice JStr (chk_Nodes x))]"

definition dec_Chunk :: "Chunk dec" where
  "dec_Chunk = dec_struct
     [(''chunk_id'', fld dec_str chk_ChunkId chk_ChunkId_update),
      (''key_index_part'', fld dec_byte chk_KeyIndexPart chk_KeyIndexPart_update),
      (''key_part'', fld dec_bytes chk_KeyPart chk_KeyPart_update),
      (''shard_index'', fld dec_int chk_ShardIndex chk_ShardIndex_update),
      (''nodes'', fld (dec_slice dec_str []) chk_Nodes chk_Nodes_update)]"

definition ok_Chunk :: "Chunk \<Rightarrow> bool" where
  "ok_Chunk x \<longleftrightarrow> utf8_ok (chk_ChunkId x) \<and> in_int64 (chk_ShardIndex x) \<and> ok_strs (chk_Nodes x)"

definition ok_Chunks :: "Chunk slice \<Rightarrow> bool" where
  "ok_Chunks s \<longleftrightarrow> list_all ok_Chunk (elems s)"

record FileBlock =
  blk_EncryptedBlockSize :: int
  blk_Chunks :: "Chunk slice"

definition zero_FileBlock :: FileBlock where
  "zero_FileBlock = \<lparr>blk_EncryptedBlockSize = 0, blk_Chunks = None\<rparr>"

definition enc_FileBlock :: "FileBlock \<Rightarrow> json" where
  "enc_FileBlock x = JObj
     [(''encrypted_block_size'', enc_int (blk_EncryptedBlockSize x)),
      (''chunks'', enc_slice enc_Chunk (blk_Chunks x))]"

definition dec_FileBlock :: "FileBlock dec" where
  "dec_FileBlock = dec_struct
     [(''encrypted_block_size'', fld dec_int blk_EncryptedBlockSize blk_EncryptedBlockSize_update),
      (''chunks'', fld (dec_slice dec_Chunk zero_Chunk) blk_Chunks blk_Chunks_update)]"

definition ok_FileBlock :: "FileBlock \<Rightarrow> bool" where
  "ok_FileBlock x \<longleftrightarrow> in_int64 (blk_EncryptedBlockSize x) \<and> ok_Chunks (blk_Chunks x)"

definition ok_Split :: "(int \<times> FileBlock) slice \<Rightarrow> bool" where
  "ok_Split m \<longleftrightarrow> gomap_ok (elems m) \<and> list_all (\<lambda>e. in_int64 (fst e) \<and> ok_FileBlock (snd e)) (elems m)"

record ReedSolomonConfig =
  rsc_DataShards :: int
  rsc_ParityShards :: int

definition zero_ReedSolomonConfig :: ReedSolomonConfig where
  "zero_ReedSolomonConfig = \<lparr>rsc_DataShards = 0, rsc_ParityShards = 0\<rparr>"

definition enc_ReedSolomonConfig :: "ReedSolomonConfig \<Rightarrow> json" where
  "enc_ReedSolomonConfig x = JObj
     [(''data_shards'', enc_int (rsc_DataShards x)),
      (''parity_shards'', enc_int (rsc_ParityShards x))]"

definition dec_ReedSolomonConfig :: "ReedSolomonConfig dec" where
  "dec_ReedSolomonConfig = dec_struct
     [(''data_shards'', fld dec_int rsc_DataShards rsc_DataShards_update),
      (''parity_shards'', fld dec_int rsc_ParityShards rsc_ParityShards_update)]"

definition ok_ReedSolomonConfig :: "ReedSolomonConfig \<Rightarrow> bool" where
  "ok_ReedSolomonConfig x \<longleftrightarrow> in_int64 (rsc_DataShards x) \<and> in_int64 (rsc_ParityShards x)"

record FileManifest =
  man_FileName :: bytes
  man_FileId :: bytes
  man_FileSize :: int
  man_ReleaseDate :: bytes
  man_HashFile :: bytes
  man_HashAlgorithm :: bytes
  man_Blocks :: int
  man_ChunksPerBlocks :: int
  man_ReedSolomonConfig :: ReedSolomonConfig
  man_Split :: "(int \<times> FileBlock) slice"

definition zero_FileManifest :: FileManifest where
  "zero_FileManifest = \<lparr>man_FileName = [], man_FileId = [], man_FileSize = 0, man_ReleaseDate = [], man_HashFile = [], man_HashAlgorithm = [], man_Blocks = 0, man_ChunksPerBlocks = 0, man_ReedSolomonConfig = zero_ReedSolomonConfig, man_Split = None\<rparr>"

definition enc_FileManifest :: "FileManifest \<Rightarrow> json" where
  "enc_FileManifest x = JObj
     [(''file_name'', JStr (man_FileName x)),
      (''file_id'', JStr (man_FileId x)),
      (''file_size'', enc_int (man_FileSize x)),
      (''release_date'', JStr (man_ReleaseDate x)),
      (''hash_file'', JStr (man_HashFile x)),
      (''hash_algorithm'', JStr (man_HashAlgorithm x)),
      (''blocks'', enc_int (man_Blocks x)),
      (''chunks_per_blocks'', enc_int (man_ChunksPerBlocks x)),
      (''reed_solomon_config'', enc_ReedSolomonConfig (man_ReedSolomonConfig x)),
      (''split'', enc_map show_int enc_FileBlock (man_Split x))]"

definition dec_FileManifest :: "FileManifest dec" where
  "dec_FileManifest = dec_struct
     [(''file_name'', fld dec_str man_FileName man_FileName_update),
      (''file_id'', fld dec_str man_FileId man_FileId_update),
      (''file_size'', fld dec_int man_FileSize man_FileSize_update),
      (''release_date'', fld dec_str man_ReleaseDate man_ReleaseDate_update),
      (''hash_file'', fld dec_str man_HashFile man_HashFile_update),
      (''hash_algorithm'', fld dec_str man_HashAlgorithm man_HashAlgorithm_update),
      (''blocks'', fld dec_int man_Blocks man_Blocks_update),
      (''chunks_per_blocks'', fld dec_int man_ChunksPerBlocks man_ChunksPerBlocks_update),
      (''reed_solomon_config'', fld dec_ReedSolomonConfig man_ReedSolomonConfig man_ReedSolomonConfig_update),
      (''split'', fld (dec_map parse_int64 dec_FileBlock zero_FileBlock) man_Split man_Split_update)]"

definition ok_FileManifest :: "FileManifest \<Rightarrow> bool" where
  "ok_FileManifest x \<longleftrightarrow> utf8_ok (man_FileName x) \<and> utf8_ok (man_FileId x) \<and> in_int64 (man_FileSize x) \<and> utf8_ok (man_ReleaseDate x) \<and> utf8_ok (man_HashFile x) \<and> utf8_ok (man_HashAlgorithm x) \<and> in_int64 (man_Blocks x) \<and> in_int64 (man_ChunksPerBlocks x) \<and> ok_ReedSolomonConfig (man_ReedSolomonConfig x) \<and> ok_Split (man_Split x)"

record FileManifestRequest =
  fmr_Address :: bytes
  fmr_PublicKey :: "char slice"
  fmr_Signature :: "char slice"
  fmr_Manifest :: FileManifest

definition zero_FileManifestRequest :: FileManifestRequest where
  "zero_FileManifestRequest = \<lparr>fmr_Address = [], fmr_PublicKey = None, fmr_Signature = None, fmr_Manifest = zero_FileManifest\<rparr>"

definition enc_FileManifestRequest :: "FileManifestRequest \<Rightarrow> json" where
  "enc_FileManifestRequest x = JObj
     [(''address'', JStr (fmr_Address x)),
      (''public_key'', enc_bytes (fmr_PublicKey x)),
      (''signature'', enc_bytes (fmr_Signature x)),
      (''manifest'', enc_FileManifest (fmr_Manifest x))]"

definition dec_FileManifestRequest :: "FileManifestRequest dec" where
  "dec_FileManifestRequest = dec_struct
     [(''address'', fld dec_str fmr_Address fmr_Address_update),
      (''public_key'', fld dec_bytes fmr_PublicKey fmr_PublicKey_update),
      (''signature'', fld dec_bytes fmr_Signature fmr_Signature_update),
      (''manifest'', fld dec_FileManifest fmr_Manifest fmr_Manifest_update)]"

definition ok_FileManifestRequest :: "FileManifestRequest \<Rightarrow> bool" where
  "ok_FileManifestRequest x \<longleftrightarrow> utf8_ok (fmr_Address x) \<and> ok_FileManifest (fmr_Manifest x)"

record GetFileManifestRequest =
  gfm_Address :: bytes
  gfm_PublicKey :: "char slice"
  gfm_Signature :: "char slice"
  gfm_FileId :: bytes

definition zero_GetFileManifestRequest :: GetFileManifestRequest where
  "zero_GetFileManifestRequest = \<lparr>gfm_Address = [], gfm_PublicKey = None, gfm_Signature = None, gfm_FileId = []\<rparr>"

definition enc_GetFileManifestRequest :: "GetFileManifestRequest \<Rightarrow> json" where
  "enc_GetFileManifestRequest x = JObj
     [(''address'', JStr (gfm_Address x)),
      (''public_key'', enc_bytes (gfm_PublicKey x)),
      (''signature'', enc_bytes (gfm_Signature x)),
      (''file_id'', JStr (gfm_FileId x))]"

definition dec_GetFileManifestRequest :: "GetFileManifestRequest dec" where
  "dec_GetFileManifestRequest = dec_struct
     [(''address'', fld dec_str gfm_Address gfm_Address_update),
      (''public_key'', fld dec_bytes gfm_PublicKey gfm_PublicKey_update),
      (''signature'', fld dec_bytes gfm_Signature gfm_Signature_update),
      (''file_id'', fld dec_str gfm_FileId gfm_FileId_update)]"

definition ok_GetFileManifestRequest :: "GetFileManifestRequest \<Rightarrow> bool" where
  "ok_GetFileManifestRequest x \<longleftrightarrow> utf8_ok (gfm_Address x) \<and> utf8_ok (gfm_FileId x)"

record ChunkRequest =
  crq_Address :: bytes
  crq_PublicKey :: "char slice"
  crq_Signature :: "char slice"
  crq_ChunkId :: bytes
  crq_FileId :: bytes
  crq_CreatedAt :: int
  crq_Shard :: "char slice"
  crq_ReleaseDate :: bytes

definition zero_ChunkRequest :: ChunkRequest where
  "zero_ChunkRequest = \<lparr>crq_Address = [], crq_PublicKey = None, crq_Signature = None, crq_ChunkId = [], crq_FileId = [], crq_CreatedAt = 0, crq_Shard = None, crq_ReleaseDate = []\<rparr>"

definition enc_ChunkRequest :: "ChunkRequest \<Rightarrow> json" where
  "enc_ChunkRequest x = JObj
     [(''address'', JStr (crq_Address x)),
      (''public_key'', enc_bytes (crq_PublicKey x)),
      (''signature'', enc_bytes (crq_Signature x)),
      (''chunk_id'', JStr (crq_ChunkId x)),
      (''file_id'', JStr (crq_FileId x)),
      (''created_at'', enc_int (crq_CreatedAt x)),
      (''shard'', enc_bytes (crq_Shard x)),
      (''release_date'', JStr (crq_ReleaseDate x))]"

definition dec_ChunkRequest :: "ChunkRequest dec" where
  "dec_ChunkRequest = dec_struct
     [(''address'', fld dec_str crq_Address crq_Address_update),
      (''public_key'', fld dec_bytes crq_PublicKey crq_PublicKey_update),
      (''signature'', fld dec_bytes crq_Signature crq_Signature_update),
      (''chunk_id'', fld dec_str crq_ChunkId crq_ChunkId_update),
      (''file_id'', fld dec_str crq_FileId crq_FileId_update),
      (''created_at'', fld dec_int crq_CreatedAt crq_CreatedAt_update),
      (''shard'', fld dec_bytes crq_Shard crq_Shard_update),
      (''release_date'', fld dec_str crq_ReleaseDate crq_ReleaseDate_update)]"

definition ok_ChunkRequest :: "ChunkRequest \<Rightarrow> bool" where
  "ok_ChunkRequest x \<longleftrightarrow> utf8_ok (crq_Address x) \<and> utf8_ok (crq_ChunkId x) \<and> utf8_ok (crq_FileId x) \<and> in_int64 (crq_CreatedAt x) \<and> utf8_ok (crq_ReleaseDate x)"

subsection \<open>Round trips\<close>

lemma fold_tags:
  "fold_name ''PublicKey'' = ''PUBLICKEY''"
  "fold_name ''Timestamp'' = ''TIMESTAMP''"
  "fold_name ''active_nodes'' = ''ACTIVE_NODES''"
  "fold_name ''address'' = ''ADDRESS''"
  "fold_name ''blocks'' = ''BLOCKS''"
  "fold_name ''chunk_id'' = ''CHUNK_ID''"
  "fold_name ''chunks'' = ''CHUNKS''"
  "fold_name ''chunks_per_blocks'' = ''CHUNKS_PER_BLOCKS''"
  "fold_name ''created_at'' = ''CREATED_AT''"
  "fold_name ''data_shards'' = ''DATA_SHARDS''"
  "fold_name ''encrypted_block_size'' = ''ENCRYPTED_BLOCK_SIZE''"
  "fold_name ''file_id'' = ''FILE_ID''"
  "fold_name ''file_manifests'' = ''FILE_MANIFESTS''"
  "fold_name ''file_name'' = ''FILE_NAME''"
  "fold_name ''file_size'' = ''FILE_SIZE''"
  "fold_name ''hash_algorithm'' = ''HASH_ALGORITHM''"
  "fold_name ''hash_file'' = ''HASH_FILE''"
  "fold_name ''key_index_part'' = ''KEY_INDEX_PART''"
  "fold_name ''key_part'' = ''KEY_PART''"
  "fold_name ''manifest'' = ''MANIFEST''"
  "fold_name ''manifest_keys'' = ''MANIFEST_KEYS''"
  "fold_name ''node_keys'' = ''NODE_KEYS''"
  "fold_name ''nodes'' = ''NODES''"
  "fold_name ''nodes_per_chunk'' = ''NODES_PER_CHUNK''"
  "fold_name ''parity_shards'' = ''PARITY_SHARDS''"
  "fold_name ''public_key'' = ''PUBLIC_KEY''"
  "fold_name ''reed_solomon_config'' = ''REED_SOLOMON_CONFIG''"
  "fold_name ''release_date'' = ''RELEASE_DATE''"
  "fold_name ''requested_manifests'' = ''REQUESTED_MANIFESTS''"
  "fold_name ''requested_nodes'' = ''REQUESTED_NODES''"
  "fold_name ''shard'' = ''SHARD''"
  "fold_name ''shard_index'' = ''SHARD_INDEX''"
  "fold_name ''signature'' = ''SIGNATURE''"
  "fold_name ''split'' = ''SPLIT''"
  "fold_name ''total_chunks'' = ''TOTAL_CHUNKS''"
  by (simp_all add: char_of_eq_iff)

lemma ok_empty [simp]: "ok_strs None" "ok_bmap None" "ok_Chunks None" "ok_Split None"
  by (simp_all add: ok_strs_def ok_bmap_def ok_Chunks_def ok_Split_def)

lemma dec_enc_strs [codec_simps]: "dec_slice dec_str [] (enc_slice JStr s) old = (s, True)"
  by (rule dec_enc_slice) simp

lemma wf_enc_strs [codec_simps]: "ok_strs s \<Longrightarrow> wf_json (enc_slice JStr s)"
  by (rule wf_enc_slice) (simp add: ok_strs_def list_all_iff)

lemma dec_strs_ok [codec_simps]:
  "wf_json j \<Longrightarrow> ok_strs old \<Longrightarrow> ok_strs (fst (dec_slice dec_str [] j old))"
  unfolding ok_strs_def by (rule dec_slice_ok) (simp_all add: dec_str_ok)

lemma dec_enc_bmap [codec_simps]:
  "ok_bmap m \<Longrightarrow> dec_map Some dec_bytes None (enc_map (\<lambda>k. k) enc_bytes m) None = (m, True)"
  by (rule dec_enc_map) (simp_all add: dec_enc_bytes ok_bmap_def)

lemma wf_enc_bmap [codec_simps]: "ok_bmap m \<Longrightarrow> wf_json (enc_map (\<lambda>k. k) enc_bytes m)"
  by (rule wf_enc_map) (auto simp: ok_bmap_def list_all_iff)

lemma dec_bmap_ok [codec_simps]:
  "wf_json j \<Longrightarrow> ok_bmap old \<Longrightarrow> ok_bmap (fst (dec_map Some dec_bytes None j old))"
  using dec_map_ok[of "\<lambda>_. True" dec_bytes None Some utf8_ok j old] by (simp add: ok_bmap_def)

lemmas struct_defs = dec_struct_def find_field_def fold_tags fld_def

interpretation sub: go_codec enc_SubscriptionRequest dec_SubscriptionRequest zero_SubscriptionRequest ok_SubscriptionRequest
proof
  fix x :: SubscriptionRequest and j
  show "ok_SubscriptionRequest zero_SubscriptionRequest"
    by (simp add: zero_SubscriptionRequest_def ok_SubscriptionRequest_def in_int64_def)
  show "wf_json j \<Longrightarrow> ok_SubscriptionRequest x \<Longrightarrow> ok_SubscriptionRequest (fst (dec_SubscriptionRequest j x))"
    unfolding dec_SubscriptionRequest_def by (rule dec_struct_ok) (auto simp: ok_SubscriptionRequest_def codec_simps)
  assume "ok_SubscriptionRequest x"
  then show "dec_SubscriptionRequest (enc_SubscriptionRequest x) zero_SubscriptionRequest = (x, True)" "wf_json (enc_SubscriptionRequest x)"
    by (simp_all add: enc_SubscriptionRequest_def dec_SubscriptionRequest_def zero_SubscriptionRequest_def ok_SubscriptionRequest_def struct_defs codec_simps)
qed (simp add: enc_SubscriptionRequest_def)

interpretation dig: go_codec enc_SyncDigest dec_SyncDigest zero_SyncDigest ok_SyncDigest
proof
  fix x :: SyncDigest and j
  show "ok_SyncDigest zero_SyncDigest"
    by (simp add: zero_SyncDigest_def ok_SyncDigest_def in_int64_def)
  show "wf_json j \<Longrightarrow> ok_SyncDigest x \<Longrightarrow> ok_SyncDigest (fst (dec_SyncDigest j x))"
    unfolding dec_SyncDigest_def by (rule dec_struct_ok) (auto simp: ok_SyncDigest_def codec_simps)
  assume "ok_SyncDigest x"
  then show "dec_SyncDigest (enc_SyncDigest x) zero_SyncDigest = (x, True)" "wf_json (enc_SyncDigest x)"
    by (simp_all add: enc_SyncDigest_def dec_SyncDigest_def zero_SyncDigest_def ok_SyncDigest_def struct_defs codec_simps)
qed (simp add: enc_SyncDigest_def)

interpretation pay: go_codec enc_SyncPayload dec_SyncPayload zero_SyncPayload ok_SyncPayload
proof
  fix x :: SyncPayload and j
  show "ok_SyncPayload zero_SyncPayload"
    by (simp add: zero_SyncPayload_def ok_SyncPayload_def in_int64_def)
  show "wf_json j \<Longrightarrow> ok_SyncPayload x \<Longrightarrow> ok_SyncPayload (fst (dec_SyncPayload j x))"
    unfolding dec_SyncPayload_def by (rule dec_struct_ok) (auto simp: ok_SyncPayload_def codec_simps)
  assume "ok_SyncPayload x"
  then show "dec_SyncPayload (enc_SyncPayload x) zero_SyncPayload = (x, True)" "wf_json (enc_SyncPayload x)"
    by (simp_all add: enc_SyncPayload_def dec_SyncPayload_def zero_SyncPayload_def ok_SyncPayload_def struct_defs codec_simps)
qed (simp add: enc_SyncPayload_def)

interpretation nfu: go_codec enc_NodesForFileUploadRequest dec_NodesForFileUploadRequest zero_NodesForFileUploadRequest ok_NodesForFileUploadRequest
proof
  fix x :: NodesForFileUploadRequest and j
  show "ok_NodesForFileUploadRequest zero_NodesForFileUploadRequest"
    by (simp add: zero_NodesForFileUploadRequest_def ok_NodesForFileUploadRequest_def in_int64_def)
  show "wf_json j \<Longrightarrow> ok_NodesForFileUploadRequest x \<Longrightarrow> ok_NodesForFileUploadRequest (fst (dec_NodesForFileUploadRequest j x))"
    unfolding dec_NodesForFileUploadRequest_def by (rule dec_struct_ok) (auto simp: ok_NodesForFileUploadRequest_def codec_simps)
  assume "ok_NodesForFileUploadRequest x"
  then show "dec_NodesForFileUploadRequest (enc_NodesForFileUploadRequest x) zero_NodesForFileUploadRequest = (x, True)" "wf_json (enc_NodesForFileUploadRequest x)"
    by (simp_all add: enc_NodesForFileUploadRequest_def dec_NodesForFileUploadRequest_def zero_NodesForFileUploadRequest_def ok_NodesForFileUploadRequest_def struct_defs codec_simps)
qed (simp add: enc_NodesForFileUploadRequest_def)

interpretation anr: go_codec enc_ActiveNodeRecord dec_ActiveNodeRecord zero_ActiveNodeRecord ok_ActiveNodeRecord
proof
  fix x :: ActiveNodeRecord and j
  show "ok_ActiveNodeRecord zero_ActiveNodeRecord"
    by (simp add: zero_ActiveNodeRecord_def ok_ActiveNodeRecord_def in_int64_def)
  show "wf_json j \<Longrightarrow> ok_ActiveNodeRecord x \<Longrightarrow> ok_ActiveNodeRecord (fst (dec_ActiveNodeRecord j x))"
    unfolding dec_ActiveNodeRecord_def by (rule dec_struct_ok) (auto simp: ok_ActiveNodeRecord_def codec_simps)
  assume "ok_ActiveNodeRecord x"
  then show "dec_ActiveNodeRecord (enc_ActiveNodeRecord x) zero_ActiveNodeRecord = (x, True)" "wf_json (enc_ActiveNodeRecord x)"
    by (simp_all add: enc_ActiveNodeRecord_def dec_ActiveNodeRecord_def zero_ActiveNodeRecord_def ok_ActiveNodeRecord_def struct_defs codec_simps)
qed (simp add: enc_ActiveNodeRecord_def)

interpretation chk: go_codec enc_Chunk dec_Chunk zero_Chunk ok_Chunk
proof
  fix x :: Chunk and j
  show "ok_Chunk zero_Chunk"
    by (simp add: zero_Chunk_def ok_Chunk_def in_int64_def)
  show "wf_json j \<Longrightarrow> ok_Chunk x \<Longrightarrow> ok_Chunk (fst (dec_Chunk j x))"
    unfolding dec_Chunk_def by (rule dec_struct_ok) (auto simp: ok_Chunk_def codec_simps)
  assume "ok_Chunk x"
  then show "dec_Chunk (enc_Chunk x) zero_Chunk = (x, True)" "wf_json (enc_Chunk x)"
    by (simp_all add: enc_Chunk_def dec_Chunk_def zero_Chunk_def ok_Chunk_def struct_defs codec_simps)
qed (simp add: enc_Chunk_def)

lemma dec_enc_chunks [codec_simps]:
  "ok_Chunks s \<Longrightarrow> dec_slice dec_Chunk zero_Chunk (enc_slice enc_Chunk s) old = (s, True)"
  by (rule dec_enc_slice) (simp add: ok_Chunks_def list_all_iff chk.dec_enc)

lemma wf_enc_chunks [codec_simps]: "ok_Chunks s \<Longrightarrow> wf_json (enc_slice enc_Chunk s)"
  by (rule wf_enc_slice) (simp add: ok_Chunks_def list_all_iff chk.enc_wf)

lemma dec_chunks_ok [codec_simps]:
  "wf_json j \<Longrightarrow> ok_Chunks old \<Longrightarrow> ok_Chunks (fst (dec_slice dec_Chunk zero_Chunk j old))"
  unfolding ok_Chunks_def by (rule dec_slice_ok) (simp_all add: chk.dec_ok chk.zero_ok)

interpretation blk: go_codec enc_FileBlock dec_FileBlock zero_FileBlock ok_FileBlock
proof
  fix x :: FileBlock and j
  show "ok_FileBlock zero_FileBlock"
    by (simp add: zero_FileBlock_def ok_FileBlock_def in_int64_def)
  show "wf_json j \<Longrightarrow> ok_FileBlock x \<Longrightarrow> ok_FileBlock (fst (dec_FileBlock j x))"
    unfolding dec_FileBlock_def by (rule dec_struct_ok) (auto simp: ok_FileBlock_def codec_simps)
  assume "ok_FileBlock x"
  then show "dec_FileBlock (enc_FileBlock x) zero_FileBlock = (x, True)" "wf_json (enc_FileBlock x)"
    by (simp_all add: enc_FileBlock_def dec_FileBlock_def zero_FileBlock_def ok_FileBlock_def struct_defs codec_simps)
qed (simp add: enc_FileBlock_def)

interpretation rsc: go_codec enc_ReedSolomonConfig dec_ReedSolomonConfig zero_ReedSolomonConfig ok_ReedSolomonConfig
proof
  fix x :: ReedSolomonConfig and j
  show "ok_ReedSolomonConfig zero_ReedSolomonConfig"
    by (simp add: zero_ReedSolomonConfig_def ok_ReedSolomonConfig_def in_int64_def)
  show "wf_json j \<Longrightarrow> ok_ReedSolomonConfig x \<Longrightarrow> ok_ReedSolomonConfig (fst (dec_ReedSolomonConfig j x))"
    unfolding dec_ReedSolomonConfig_def by (rule dec_struct_ok) (auto simp: ok_ReedSolomonConfig_def codec_simps)
  assume "ok_ReedSolomonConfig x"
  then show "dec_ReedSolomonConfig (enc_ReedSolomonConfig x) zero_ReedSolomonConfig = (x, True)" "wf_json (enc_ReedSolomonConfig x)"
    by (simp_all add: enc_ReedSolomonConfig_def dec_ReedSolomonConfig_def zero_ReedSolomonConfig_def ok_ReedSolomonConfig_def struct_defs codec_simps)
qed (simp add: enc_ReedSolomonConfig_def)

lemma dec_enc_split [codec_simps]:
  "ok_Split m \<Longrightarrow> dec_map parse_int64 dec_FileBlock zero_FileBlock (enc_map show_int enc_FileBlock m) None = (m, True)"
  by (rule dec_enc_map) (auto simp: ok_Split_def list_all_iff blk.dec_enc parse_show_int)

lemma wf_enc_split [codec_simps]: "ok_Split m \<Longrightarrow> wf_json (enc_map show_int enc_FileBlock m)"
  by (rule wf_enc_map) (auto simp: ok_Split_def list_all_iff blk.enc_wf)

lemma dec_split_ok [codec_simps]:
  "wf_json j \<Longrightarrow> ok_Split old \<Longrightarrow> ok_Split (fst (dec_map parse_int64 dec_FileBlock zero_FileBlock j old))"
  using dec_map_ok[of ok_FileBlock dec_FileBlock zero_FileBlock parse_int64 in_int64 j old]
  by (auto simp: ok_Split_def blk.dec_ok blk.zero_ok parse_int64_range)

interpretation man: go_codec enc_FileManifest dec_FileManifest zero_FileManifest ok_FileManifest
proof
  fix x :: FileManifest and j
  show "ok_FileManifest zero_FileManifest"
    by (simp add: zero_FileManifest_def ok_FileManifest_def in_int64_def rsc.zero_ok)
  show "wf_json j \<Longrightarrow> ok_FileManifest x \<Longrightarrow> ok_FileManifest (fst (dec_FileManifest j x))"
    unfolding dec_FileManifest_def by (rule dec_struct_ok) (auto simp: ok_FileManifest_def codec_simps rsc.dec_enc rsc.enc_wf rsc.zero_ok rsc.dec_ok)
  assume "ok_FileManifest x"
  then show "dec_FileManifest (enc_FileManifest x) zero_FileManifest = (x, True)" "wf_json (enc_FileManifest x)"
    by (simp_all add: enc_FileManifest_def dec_FileManifest_def zero_FileManifest_def ok_FileManifest_def struct_defs codec_simps rsc.dec_enc rsc.enc_wf rsc.zero_ok rsc.dec_ok)
qed (simp add: enc_FileManifest_def)

interpretation fmr: go_codec enc_FileManifestRequest dec_FileManifestRequest zero_FileManifestRequest ok_FileManifestRequest
proof
  fix x :: FileManifestRequest and j
  show "ok_FileManifestRequest zero_FileManifestRequest"
    by (simp add: zero_FileManifestRequest_def ok_FileManifestRequest_def in_int64_def man.zero_ok)
  show "wf_json j \<Longrightarrow> ok_FileManifestRequest x \<Longrightarrow> ok_FileManifestRequest (fst (dec_FileManifestRequest j x))"
    unfolding dec_FileManifestRequest_def by (rule dec_struct_ok) (auto simp: ok_FileManifestRequest_def codec_simps man.dec_enc man.enc_wf man.zero_ok man.dec_ok)
  assume "ok_FileManifestRequest x"
  then show "dec_FileManifestRequest (enc_FileManifestRequest x) zero_FileManifestRequest = (x, True)" "wf_json (enc_FileManifestRequest x)"
    by (simp_all add: enc_FileManifestRequest_def dec_FileManifestRequest_def zero_FileManifestRequest_def ok_FileManifestRequest_def struct_defs codec_simps man.dec_enc man.enc_wf man.zero_ok man.dec_ok)
qed (simp add: enc_FileManifestRequest_def)

interpretation gfm: go_codec enc_GetFileManifestRequest dec_GetFileManifestRequest zero_GetFileManifestRequest ok_GetFileManifestRequest
proof
  fix x :: GetFileManifestRequest and j
  show "ok_GetFileManifestRequest zero_GetFileManifestRequest"
    by (simp add: zero_GetFileManifestRequest_def ok_GetFileManifestRequest_def in_int64_def)
  show "wf_json j \<Longrightarrow> ok_GetFileManifestRequest x \<Longrightarrow> ok_GetFileManifestRequest (fst (dec_GetFileManifestRequest j x))"
    unfolding dec_GetFileManifestRequest_def by (rule dec_struct_ok) (auto simp: ok_GetFileManifestRequest_def codec_simps)
  assume "ok_GetFileManifestRequest x"
  then show "dec_GetFileManifestRequest (enc_GetFileManifestRequest x) zero_GetFileManifestRequest = (x, True)" "wf_json (enc_GetFileManifestRequest x)"
    by (simp_all add: enc_GetFileManifestRequest_def dec_GetFileManifestRequest_def zero_GetFileManifestRequest_def ok_GetFileManifestRequest_def struct_defs codec_simps)
qed (simp add: enc_GetFileManifestRequest_def)

interpretation crq: go_codec enc_ChunkRequest dec_ChunkRequest zero_ChunkRequest ok_ChunkRequest
proof
  fix x :: ChunkRequest and j
  show "ok_ChunkRequest zero_ChunkRequest"
    by (simp add: zero_ChunkRequest_def ok_ChunkRequest_def in_int64_def)
  show "wf_json j \<Longrightarrow> ok_ChunkRequest x \<Longrightarrow> ok_ChunkRequest (fst (dec_ChunkRequest j x))"
    unfolding dec_ChunkRequest_def by (rule dec_struct_ok) (auto simp: ok_ChunkRequest_def codec_simps)
  assume "ok_ChunkRequest x"
  then show "dec_ChunkRequest (enc_ChunkRequest x) zero_ChunkRequest = (x, True)" "wf_json (enc_ChunkRequest x)"
    by (simp_all add: enc_ChunkRequest_def dec_ChunkRequest_def zero_ChunkRequest_def ok_ChunkRequest_def struct_defs codec_simps)
qed (simp add: enc_ChunkRequest_def)

subsection \<open>Properties\<close>

text \<open>
  Whatever bytes arrive, what the handlers decode as a manifest is a value of the Go type that
  survives the way back: encoded again, as the servers do before they hash and store it, it decodes
  to the same manifest.
\<close>

theorem manifest_reencoding_stable:
  "unmarshal dec_FileManifest zero_FileManifest
     (marshal enc_FileManifest (fst (decode_stream dec_FileManifest zero_FileManifest b)))
   = (fst (decode_stream dec_FileManifest zero_FileManifest b), True)"
  by (rule man.unmarshal_marshal) (rule man.stream_ok)


end
