(* ===== verification/Config.thy ===== *)
theory Config
  imports Go_Json
begin

text \<open>
  The process-wide settings of \<open>internal/config/config.go\<close> and how the two \<open>main\<close> functions set
  them. Variables the program never assigns are constants here.
\<close>

record Config =
  cfg_AdvertisedAddress :: bytes
  cfg_Port :: int
  cfg_BootStrapServers :: "bytes list"
  cfg_PublicKey :: "char slice"
  cfg_PrivateKey :: "char slice"
  cfg_PublicKeyDir :: bytes
  cfg_PrivateKeyDir :: bytes

definition TargetChunkSize :: int where "TargetChunkSize = 500 * 1024"
definition DataShards :: int where "DataShards = 3"
definition ParityShards :: int where "ParityShards = 2"
definition TotalShards :: int where "TotalShards = DataShards + ParityShards"
definition ChunksTolerance :: int where "ChunksTolerance = 3"
definition CronSync :: int where "CronSync = 10"
definition CronClean :: int where "CronClean = 3600"

lemmas config_consts = TargetChunkSize_def DataShards_def ParityShards_def TotalShards_def ChunksTolerance_def

text \<open>\<open>config.AdvertisedAddress + ":" + strconv.Itoa(config.Port)\<close>, written out at each use in the source.\<close>

definition self_address :: "Config \<Rightarrow> bytes" where
  "self_address cfg = cfg_AdvertisedAddress cfg @ '':'' @ show_int (cfg_Port cfg)"

subsection \<open>Settings from the environment\<close>

text \<open>
  \<open>strconv.Atoi\<close> with its error dropped: zero for text that is no integer, the nearest bound for
  one that does not fit.
\<close>

definition atoi_value :: "string \<Rightarrow> int" where
  "atoi_value s =
     (let (neg, ds) = (case s of [] \<Rightarrow> (False, [])
        | c # cs \<Rightarrow> if c = CHR ''-'' then (True, cs) else if c = CHR ''+'' then (False, cs) else (False, s))
      in if ds = [] then 0
         else case read_nat 0 ds of None \<Rightarrow> 0
           | Some n \<Rightarrow> (if neg then max (- int n) (- (2 ^ 63)) else min (int n) (2 ^ 63 - 1)))"

text \<open>\<open>strings.Split(s, ",")\<close>\<close>

fun split_commas :: "bytes \<Rightarrow> bytes list" where
  "split_commas [] = [[]]"
| "split_commas (c # cs) =
     (if c = CHR '','' then [] # split_commas cs
      else (case split_commas cs of [] \<Rightarrow> [[c]] | w # ws \<Rightarrow> (c # w) # ws))"

definition default_config :: Config where
  "default_config = \<lparr>cfg_AdvertisedAddress = [], cfg_Port = 8080, cfg_BootStrapServers = [],
     cfg_PublicKey = None, cfg_PrivateKey = None, cfg_PublicKeyDir = [], cfg_PrivateKeyDir = []\<rparr>"

text \<open>The first part of both \<open>main\<close> functions; they differ in the default database path only.\<close>

definition config_of_env :: "bytes \<Rightarrow> (bytes \<Rightarrow> bytes) \<Rightarrow> Config" where
  "config_of_env defaultPath env =
     (let dbPath = (if env ''KAIROS_DB_PATH'' = [] then defaultPath else env ''KAIROS_DB_PATH'')
      in default_config
        \<lparr>cfg_Port := (if env ''PORT'' \<noteq> [] then atoi_value (env ''PORT'') else cfg_Port default_config),
         cfg_AdvertisedAddress := (if env ''POD_IP'' = [] then ''localhost'' else env ''POD_IP''),
         cfg_BootStrapServers := (if env ''BOOTSTRAP_SERVERS'' \<noteq> []
            then split_commas (env ''BOOTSTRAP_SERVERS'') else []),
         cfg_PrivateKeyDir := dbPath @ ''/keys/private_key.pem'',
         cfg_PublicKeyDir := dbPath @ ''/keys/public_key.pem''\<rparr>)"

definition node_config :: "(bytes \<Rightarrow> bytes) \<Rightarrow> Config" where
  "node_config = config_of_env ''./data-node''"

definition bootstrap_config :: "(bytes \<Rightarrow> bytes) \<Rightarrow> Config" where
  "bootstrap_config = config_of_env ''./data-bootstrap''"

lemma split_commas_nonempty [simp]: "split_commas s \<noteq> []"
  by (induction s) (auto split: list.split)

lemma utf8_ok_self_address: "utf8_ok (cfg_AdvertisedAddress cfg) \<Longrightarrow> utf8_ok (self_address cfg)"
  by (simp add: self_address_def utf8_ok_append)

end
