(* ===== verification/Crypto.thy ===== *)
theory Crypto
  imports Config
begin

text \<open>
  \<open>internal/crypto/keys_management.go\<close>. The primitives of Go's crypto packages (Ed25519, X.509,
  PEM, AES-GCM, SHA-256) are the fields of \<open>crypto_lib\<close>, an argument of every definition; the
  locale \<open>crypto_ok\<close> states what their documentation promises. The file system is \<open>disk\<close>: the
  files and, for each path, whether reading or writing it fails.

  The main lemma is that a process whose key files were written by \<open>GenerateKeyPair\<close>, now or at an
  earlier start, produces signatures that \<open>VerifySignature\<close> accepts under the public key it
  advertises; the locale
  \<open>signer\<close> is that promise as the request code uses it.
\<close>

datatype key_if = Ed25519 bytes | OtherKey

record crypto_lib =
  ed_generate :: "bytes \<Rightarrow> (bytes \<times> bytes) res"
  ed_sign :: "bytes \<Rightarrow> bytes \<Rightarrow> bytes"
  ed_verify :: "bytes \<Rightarrow> bytes \<Rightarrow> bytes \<Rightarrow> bool"
  pkcs8_marshal :: "bytes \<Rightarrow> bytes res"
  pkcs8_parse :: "bytes \<Rightarrow> key_if res"
  pkix_marshal :: "bytes \<Rightarrow> bytes res"
  pkix_parse :: "bytes \<Rightarrow> key_if res"
  pem_encode :: "bytes \<Rightarrow> bytes \<Rightarrow> bytes"
  pem_decode :: "bytes \<Rightarrow> bytes option"
  gcm_seal :: "bytes \<Rightarrow> bytes \<Rightarrow> bytes \<Rightarrow> bytes"
  gcm_open :: "bytes \<Rightarrow> bytes \<Rightarrow> bytes \<Rightarrow> bytes option"
  sha256 :: "bytes \<Rightarrow> bytes"

subsection \<open>Files\<close>

text \<open>A failed write names the error and what it left in the file.\<close>

record disk =
  dsk_files :: "bytes \<Rightarrow> bytes option"
  dsk_read_err :: "bytes \<Rightarrow> string option"
  dsk_write_err :: "bytes \<Rightarrow> (string \<times> bytes option) option"
  dsk_parent_err :: "bytes \<Rightarrow> string option"

definition ReadFile :: "disk \<Rightarrow> bytes \<Rightarrow> bytes res" where
  "ReadFile d p = (case dsk_read_err d p of Some e \<Rightarrow> Inl (Err e)
     | None \<Rightarrow> (case dsk_files d p of None \<Rightarrow> Inl (Err ''no such file'') | Some b \<Rightarrow> Inr b))"

definition WriteFile :: "disk \<Rightarrow> bytes \<Rightarrow> bytes \<Rightarrow> fault option \<times> disk" where
  "WriteFile d p b = (case dsk_write_err d p of
       None \<Rightarrow> (None, d\<lparr>dsk_files := (dsk_files d)(p \<mapsto> b)\<rparr>)
     | Some (e, left) \<Rightarrow> (Some (Err e), d\<lparr>dsk_files := (dsk_files d)(p := left)\<rparr>))"

subsection \<open>Keys and signatures\<close>

definition GetPublicKey :: "Config \<Rightarrow> disk \<Rightarrow> bytes res" where
  "GetPublicKey cfg d = ReadFile d (cfg_PublicKeyDir cfg)"

definition GetPrivateKey :: "Config \<Rightarrow> disk \<Rightarrow> bytes res" where
  "GetPrivateKey cfg d = ReadFile d (cfg_PrivateKeyDir cfg)"

text \<open>\<open>os.IsNotExist\<close>: any other error of \<open>os.Stat\<close> counts as the file being there.\<close>

definition KeysExist :: "Config \<Rightarrow> disk \<Rightarrow> bool" where
  "KeysExist cfg d \<longleftrightarrow> dsk_files d (cfg_PrivateKeyDir cfg) \<noteq> None \<or> dsk_read_err d (cfg_PrivateKeyDir cfg) \<noteq> None"

definition GenerateKeyPair ::
  "crypto_lib \<Rightarrow> bytes \<Rightarrow> Config \<Rightarrow> disk \<Rightarrow> fault option \<times> Config \<times> disk" where
  "GenerateKeyPair C rand cfg d =
     (case dsk_parent_err d (cfg_PrivateKeyDir cfg) of
        Some e \<Rightarrow> (Some (Err ''error creating keys folder''), cfg, d)
      | None \<Rightarrow>
     (case ed_generate C rand of
        Inl _ \<Rightarrow> (Some (Err ''error generating keys''), cfg, d)
      | Inr (publicKey, privateKey) \<Rightarrow>
     (case pkcs8_marshal C privateKey of
        Inl _ \<Rightarrow> (Some (Err ''error marshaling private key''), cfg, d)
      | Inr privateKeyBytes \<Rightarrow>
     (case WriteFile d (cfg_PrivateKeyDir cfg) (pem_encode C ''PRIVATE KEY'' privateKeyBytes) of
        (Some _, d1) \<Rightarrow> (Some (Err ''error saving private key''), cfg, d1)
      | (None, d1) \<Rightarrow>
     (case pkix_marshal C publicKey of
        Inl _ \<Rightarrow> (Some (Err ''error marshaling public key''), cfg, d1)
      | Inr publicKeyBytes \<Rightarrow>
     (case WriteFile d1 (cfg_PublicKeyDir cfg) (pem_encode C ''PUBLIC KEY'' publicKeyBytes) of
        (Some _, d2) \<Rightarrow> (Some (Err ''error saving public key''), cfg, d2)
      | (None, d2) \<Rightarrow>
     (case GetPublicKey cfg d2 of
        Inl e \<Rightarrow> (Some e, cfg, d2)
      | Inr pub \<Rightarrow>
     (case GetPrivateKey cfg d2 of
        Inl e \<Rightarrow> (Some e, cfg\<lparr>cfg_PublicKey := Some pub\<rparr>, d2)
      | Inr priv \<Rightarrow>
        (None, cfg\<lparr>cfg_PublicKey := Some pub, cfg_PrivateKey := Some priv\<rparr>, d2)))))))))"

text \<open>
  How both \<open>main\<close> functions set the keys: a new pair when the private key file is missing (an error
  of \<open>GenerateKeyPair\<close> is dropped), otherwise the two files (nil for one that cannot be read).
\<close>

definition slice_or_nil :: "bytes res \<Rightarrow> char slice" where
  "slice_or_nil r = (case r of Inl _ \<Rightarrow> None | Inr b \<Rightarrow> Some b)"

definition startup_keys :: "crypto_lib \<Rightarrow> bytes \<Rightarrow> Config \<Rightarrow> disk \<Rightarrow> Config \<times> disk" where
  "startup_keys C rand cfg d =
     (if \<not> KeysExist cfg d then snd (GenerateKeyPair C rand cfg d)
      else (cfg\<lparr>cfg_PublicKey := slice_or_nil (GetPublicKey cfg d),
                cfg_PrivateKey := slice_or_nil (GetPrivateKey cfg d)\<rparr>, d))"

definition SignMessage :: "crypto_lib \<Rightarrow> Config \<Rightarrow> disk \<Rightarrow> bytes \<Rightarrow> bytes res" where
  "SignMessage C cfg d message =
     (case ReadFile d (cfg_PrivateKeyDir cfg) of
        Inl _ \<Rightarrow> Inl (Err ''error reading private key'')
      | Inr privateKeyPEM \<Rightarrow>
     (case pem_decode C privateKeyPEM of
        None \<Rightarrow> Inl (Err ''failed to decode PEM block'')
      | Some blk \<Rightarrow>
     (case pkcs8_parse C blk of
        Inl _ \<Rightarrow> Inl (Err ''error parsing private key'')
      | Inr OtherKey \<Rightarrow> Inl (Err ''not an Ed25519 private key'')
      | Inr (Ed25519 privateKey) \<Rightarrow> Inr (ed_sign C privateKey message))))"

definition VerifySignature :: "crypto_lib \<Rightarrow> bytes \<Rightarrow> bytes \<Rightarrow> bytes \<Rightarrow> bool res" where
  "VerifySignature C message signature publicKey =
     (case pem_decode C publicKey of
        None \<Rightarrow> Inl (Err ''failed to decode PEM block'')
      | Some blk \<Rightarrow>
     (case pkix_parse C blk of
        Inl _ \<Rightarrow> Inl (Err ''error parsing public key'')
      | Inr OtherKey \<Rightarrow> Inl (Err ''not an Ed25519 public key'')
      | Inr (Ed25519 pubKey) \<Rightarrow> Inr (ed_verify C pubKey message signature)))"

text \<open>The check as the handlers use it: \<open>check, _ := crypto.VerifySignature(...)\<close>.\<close>

definition check_signature :: "crypto_lib \<Rightarrow> bytes \<Rightarrow> char slice \<Rightarrow> char slice \<Rightarrow> bool" where
  "check_signature C message signature publicKey =
     (case VerifySignature C message (elems signature) (elems publicKey) of Inl _ \<Rightarrow> False | Inr b \<Rightarrow> b)"

subsection \<open>AES-GCM\<close>

text \<open>\<open>aes.NewCipher\<close> takes keys of 16, 24 or 32 bytes; the nonce of \<open>cipher.NewGCM\<close> has 12 bytes.\<close>

definition aes_key_ok :: "bytes \<Rightarrow> bool" where
  "aes_key_ok key \<longleftrightarrow> length key \<in> {16, 24, 32}"

definition nonceSize :: nat where "nonceSize = 12"

definition GenerateRandomAESKey :: "(nat \<Rightarrow> bytes) \<Rightarrow> bytes" where
  "GenerateRandomAESKey rand = rand 32"

text \<open>\<open>rand.Read(nonce)\<close> fills the nonce or fails: the argument \<open>rand\<close>, asked for \<open>nonceSize\<close> bytes.\<close>

definition EncryptGCM :: "crypto_lib \<Rightarrow> (nat \<Rightarrow> bytes res) \<Rightarrow> bytes \<Rightarrow> bytes \<Rightarrow> bytes res" where
  "EncryptGCM C rand data key =
     (if \<not> aes_key_ok key then Inl (Err ''crypto/aes: invalid key size'')
      else (case rand nonceSize of
          Inl e \<Rightarrow> Inl e
        | Inr nonce \<Rightarrow> Inr (nonce @ gcm_seal C key nonce data)))"

definition DecryptGCM :: "crypto_lib \<Rightarrow> bytes \<Rightarrow> bytes \<Rightarrow> bytes res" where
  "DecryptGCM C data key =
     (if \<not> aes_key_ok key then Inl (Err ''NewCipher error'')
      else if length data < nonceSize then Inl (Err ''ciphertext is too short'')
      else (case gcm_open C key (take nonceSize data) (drop nonceSize data) of
          None \<Rightarrow> Inl (Err ''cipher: message authentication failed'')
        | Some m \<Rightarrow> Inr m))"

subsection \<open>What the packages promise\<close>

locale crypto_ok =
  fixes C :: crypto_lib
  assumes verify_sign: "ed_generate C r = Inr (pk, sk) \<Longrightarrow> ed_verify C pk m (ed_sign C sk m)"
    and pkcs8: "pkcs8_marshal C sk = Inr b \<Longrightarrow> pkcs8_parse C b = Inr (Ed25519 sk)"
    and pkix: "pkix_marshal C pk = Inr b \<Longrightarrow> pkix_parse C b = Inr (Ed25519 pk)"
    and pem: "t \<in> {''PRIVATE KEY'', ''PUBLIC KEY''} \<Longrightarrow> pem_decode C (pem_encode C t b) = Some b"
    and gcm: "gcm_open C k n (gcm_seal C k n m) = Some m"

text \<open>What the request code relies on: what the process signs verifies under its public key.\<close>

locale signer =
  fixes C :: crypto_lib and cfg :: Config and d :: disk
  assumes sign_ok: "\<exists>s. SignMessage C cfg d m = Inr s"
    and sign_verifies: "SignMessage C cfg d m = Inr s \<Longrightarrow> VerifySignature C m s (elems (cfg_PublicKey cfg)) = Inr True"
begin

lemma check_own_signature:
  "SignMessage C cfg d m = Inr s \<Longrightarrow> check_signature C m (Some s) (cfg_PublicKey cfg)"
  by (simp add: check_signature_def sign_verifies)

end

text \<open>A process whose key files a successful \<open>GenerateKeyPair\<close> left behind.\<close>

locale generated_keys = crypto_ok C for C +
  fixes rand :: bytes and cfg0 cfg :: Config and d0 d :: disk
  assumes generated: "GenerateKeyPair C rand cfg0 d0 = (None, cfg, d)"
    and paths: "cfg_PrivateKeyDir cfg0 \<noteq> cfg_PublicKeyDir cfg0"
begin

lemma key_files:
  "\<exists>pk sk pb sb. ed_generate C rand = Inr (pk, sk)
     \<and> pkcs8_marshal C sk = Inr sb \<and> pkix_marshal C pk = Inr pb
     \<and> ReadFile d (cfg_PrivateKeyDir cfg) = Inr (pem_encode C ''PRIVATE KEY'' sb)
     \<and> cfg_PublicKey cfg = Some (pem_encode C ''PUBLIC KEY'' pb)"
  using generated paths
  by (auto simp: GenerateKeyPair_def WriteFile_def GetPublicKey_def GetPrivateKey_def ReadFile_def
      split: option.splits sum.splits prod.splits)

sublocale signer C cfg d
proof
  obtain pk sk pb sb where k: "ed_generate C rand = Inr (pk, sk)"
    "pkcs8_marshal C sk = Inr sb" "pkix_marshal C pk = Inr pb"
    "ReadFile d (cfg_PrivateKeyDir cfg) = Inr (pem_encode C ''PRIVATE KEY'' sb)"
    "cfg_PublicKey cfg = Some (pem_encode C ''PUBLIC KEY'' pb)"
    using key_files by blast
  then have sign: "SignMessage C cfg d m = Inr (ed_sign C sk m)" for m
    by (simp add: SignMessage_def pem pkcs8)
  then show "\<exists>s. SignMessage C cfg d m = Inr s" for m by blast
  show "SignMessage C cfg d m = Inr s \<Longrightarrow> VerifySignature C m s (elems (cfg_PublicKey cfg)) = Inr True" for m s
    using sign[of m] k verify_sign[of rand pk sk m] by (auto simp: VerifySignature_def pem pkix)
qed

lemma is_signer: "signer C cfg d"
  by unfold_locales

end

subsection \<open>A stand-in for the packages\<close>

text \<open>
  Functions with the promised laws, so that hypotheses about \<open>crypto_lib\<close> can be met by a
  concrete value: a key signs by putting itself in front of the message.
\<close>

definition ref_crypto :: crypto_lib where
  "ref_crypto = \<lparr>ed_generate = (\<lambda>r. Inr (r, r)), ed_sign = (\<lambda>k m. k @ m),
     ed_verify = (\<lambda>k m s. s = k @ m), pkcs8_marshal = Inr, pkcs8_parse = (\<lambda>b. Inr (Ed25519 b)),
     pkix_marshal = Inr, pkix_parse = (\<lambda>b. Inr (Ed25519 b)),
     pem_encode = (\<lambda>t b. t @ CHR 0x0A # b),
     pem_decode = (\<lambda>b. case dropWhile (\<lambda>c. c \<noteq> CHR 0x0A) b of [] \<Rightarrow> None | _ # r \<Rightarrow> Some r),
     gcm_seal = (\<lambda>k n m. m), gcm_open = (\<lambda>k n m. Some m), sha256 = (\<lambda>m. m)\<rparr>"

definition ref_config :: Config where
  "ref_config = bootstrap_config (\<lambda>_. [])"

definition empty_disk :: disk where
  "empty_disk = \<lparr>dsk_files = (\<lambda>_. None), dsk_read_err = (\<lambda>_. None),
     dsk_write_err = (\<lambda>_. None), dsk_parent_err = (\<lambda>_. None)\<rparr>"

definition ref_identity :: "Config \<times> disk" where
  "ref_identity = snd (GenerateKeyPair ref_crypto ''k'' ref_config empty_disk)"

text \<open>Only the two block types the program writes have to survive the PEM stand-in.\<close>

lemma ref_pem: "CHR 0x0A \<notin> set t \<Longrightarrow> dropWhile (\<lambda>c. c \<noteq> CHR 0x0A) (t @ CHR 0x0A # b) = CHR 0x0A # b"
  by (induction t) auto

interpretation ref: crypto_ok ref_crypto
  by unfold_locales (auto simp: ref_crypto_def ref_pem)

lemma ref_paths: "cfg_PrivateKeyDir ref_config \<noteq> cfg_PublicKeyDir ref_config"
  by (simp add: ref_config_def bootstrap_config_def config_of_env_def)

lemma ref_generated:
  "GenerateKeyPair ref_crypto ''k'' ref_config empty_disk = (None, fst ref_identity, snd ref_identity)"
  using ref_paths
  by (simp add: ref_identity_def GenerateKeyPair_def ref_crypto_def empty_disk_def WriteFile_def
      GetPublicKey_def GetPrivateKey_def ReadFile_def)

interpretation ref: generated_keys ref_crypto "''k''" ref_config "fst ref_identity" empty_disk "snd ref_identity"
  by unfold_locales (rule ref_generated, rule ref_paths)

subsection \<open>Properties\<close>

text \<open>
  What \<open>EncryptGCM\<close> produces, with any key it accepts and any nonce of the right length,
  \<open>DecryptGCM\<close> turns back into the plain text under the same key.
\<close>

theorem DecryptGCM_EncryptGCM:
  assumes "crypto_ok C" and "\<And>n. rand nonceSize = Inr n \<Longrightarrow> length n = nonceSize"
    and "EncryptGCM C rand data key = Inr c"
  shows "DecryptGCM C c key = Inr data"
  using assms crypto_ok.gcm[OF assms(1)]
  by (auto simp: EncryptGCM_def DecryptGCM_def split: if_splits sum.splits)

theorem DecryptGCM_EncryptGCM_witness:
  "DecryptGCM ref_crypto (replicate 12 CHR ''n'' @ ''data'') (replicate 32 CHR ''k'') = Inr ''data''"
  by (rule DecryptGCM_EncryptGCM[where rand = "\<lambda>n. Inr (replicate n CHR ''n'')", OF ref.crypto_ok_axioms])
    (simp_all add: EncryptGCM_def nonceSize_def aes_key_ok_def ref_crypto_def)

text \<open>What a later start reads is what the generation left, whatever else is in its settings.\<close>

lemma restart_signer:
  assumes "generated_keys C rand cfg0 cfg d0 d"
    and "cfg_PrivateKeyDir cfg' = cfg_PrivateKeyDir cfg0" "cfg_PublicKeyDir cfg' = cfg_PublicKeyDir cfg0"
  shows "snd (startup_keys C rand' cfg' d) = d \<and> cfg_PublicKey (fst (startup_keys C rand' cfg' d)) = cfg_PublicKey cfg
    \<and> signer C (fst (startup_keys C rand' cfg' d)) d"
proof -
  have g: "GenerateKeyPair C rand cfg0 d0 = (None, cfg, d)" "cfg_PrivateKeyDir cfg0 \<noteq> cfg_PublicKeyDir cfg0"
    using assms(1) by (simp_all add: generated_keys_def generated_keys_axioms_def)
  then have f: "cfg_PrivateKeyDir cfg = cfg_PrivateKeyDir cfg0" "KeysExist cfg' d"
    "slice_or_nil (GetPublicKey cfg' d) = cfg_PublicKey cfg"
    using assms(2,3)
    by (auto simp: GenerateKeyPair_def WriteFile_def GetPublicKey_def GetPrivateKey_def ReadFile_def KeysExist_def slice_or_nil_def
        split: option.splits sum.splits prod.splits)
  have s: "signer C cfg d" using assms(1) by (rule generated_keys.is_signer)
  show ?thesis
    using s f assms(2) by (simp add: startup_keys_def signer_def SignMessage_def)
qed

text \<open>
  A process that generates its key pair at its first start signs every message, and so does
  every later start on the same key files; the signatures verify under the public key it puts into
  its requests, which is the same after each start.
\<close>

theorem startup_sign_verify:
  assumes "crypto_ok C" "\<not> KeysExist cfg0 d0" "fst (GenerateKeyPair C rand cfg0 d0) = None"
    and "cfg_PrivateKeyDir cfg0 \<noteq> cfg_PublicKeyDir cfg0"
    and "cfg_PrivateKeyDir cfg' = cfg_PrivateKeyDir cfg0" "cfg_PublicKeyDir cfg' = cfg_PublicKeyDir cfg0"
    and "startup_keys C rand cfg0 d0 = (cfg1, d1)" "startup_keys C rand' cfg' d1 = (cfg2, d2)"
  shows "(\<exists>s. SignMessage C cfg1 d1 m = Inr s \<and> check_signature C m (Some s) (cfg_PublicKey cfg1))
    \<and> (\<exists>s. SignMessage C cfg2 d2 m = Inr s \<and> check_signature C m (Some s) (cfg_PublicKey cfg2))
    \<and> cfg_PublicKey cfg2 = cfg_PublicKey cfg1"
proof -
  have "GenerateKeyPair C rand cfg0 d0 = (None, cfg1, d1)"
    using assms(2,3,7) by (simp add: startup_keys_def prod_eq_iff)
  then have g: "generated_keys C rand cfg0 cfg1 d0 d1"
    using assms(1,4) by (simp add: generated_keys_def generated_keys_axioms_def)
  then have k: "signer C cfg1 d1" by (rule generated_keys.is_signer)
  have r: "d2 = d1" "cfg_PublicKey cfg2 = cfg_PublicKey cfg1" "signer C cfg2 d2"
    using restart_signer[OF g assms(5,6), of rand'] assms(8) by auto
  have "\<exists>s. SignMessage C cfg d m = Inr s \<and> check_signature C m (Some s) (cfg_PublicKey cfg)"
    if "signer C cfg d" for cfg d
    using signer.sign_ok[OF that] signer.check_own_signature[OF that] by blast
  note sign_check = this
  show ?thesis using sign_check[OF k] sign_check[OF r(3)] r(2) by blast
qed

theorem startup_sign_verify_witness:
  "\<exists>s. SignMessage ref_crypto (fst (startup_keys ref_crypto ''k'' ref_config empty_disk))
      (snd (startup_keys ref_crypto ''k'' ref_config empty_disk)) ''m'' = Inr s
    \<and> check_signature ref_crypto ''m'' (Some s) (cfg_PublicKey (fst (startup_keys ref_crypto ''k'' ref_config empty_disk)))"
proof -
  have "\<not> KeysExist ref_config empty_disk" by (simp add: KeysExist_def empty_disk_def)
  from startup_sign_verify[OF ref.crypto_ok_axioms this _ ref_paths refl refl prod.collapse[symmetric] prod.collapse[symmetric],
      of "''k''" "''m''" "''l''"]
  show ?thesis by (simp add: ref_generated)
qed

end
