(* ===== verification/Database.thy ===== *)
theory Database
  imports Go_Codec "HOL-Library.RBT"
begin

text \<open>
  \<open>internal/database/badger.go\<close>: the typed namespaces over one Badger store. Badger itself is
  not in the repository: it is the argument \<open>badger\<close>, a record of what the code calls (a read or
  write transaction with one operation, and the items an iterator walks, in the order it walks
  them). The locale \<open>badger_ok\<close> states its documented behaviour: keys are unique and come in byte
  order, a committed write changes that key only, a failed one changes nothing.

  From that contract the locale derives the one the rest of the program uses, in which a store is
  a family of maps, one per prefix (\<open>view\<close>): \<open>prefix_store\<close>.
\<close>

datatype db_error = ErrKeyNotFound | DBError string

record 'db badger =
  bg_get :: "'db \<Rightarrow> bytes \<Rightarrow> db_error + bytes"
  bg_set :: "'db \<Rightarrow> bytes \<Rightarrow> bytes \<Rightarrow> db_error option \<times> 'db"
  bg_delete :: "'db \<Rightarrow> bytes \<Rightarrow> db_error option \<times> 'db"
  bg_items :: "'db \<Rightarrow> (bytes \<times> (db_error + bytes)) list"

subsection \<open>The operations\<close>

definition makeKey :: "bytes \<Rightarrow> bytes \<Rightarrow> bytes" where
  "makeKey prefix key = prefix @ '':'' @ key"

definition GetData :: "'db badger \<Rightarrow> 'db \<Rightarrow> bytes \<Rightarrow> bytes \<Rightarrow> db_error + bytes" where
  "GetData bg db prefix key = bg_get bg db (makeKey prefix key)"

definition PutData :: "'db badger \<Rightarrow> 'db \<Rightarrow> bytes \<Rightarrow> bytes \<Rightarrow> bytes \<Rightarrow> db_error option \<times> 'db" where
  "PutData bg db prefix key data = bg_set bg db (makeKey prefix key) data"

definition DeleteKey :: "'db badger \<Rightarrow> 'db \<Rightarrow> bytes \<Rightarrow> bytes \<Rightarrow> db_error option \<times> 'db" where
  "DeleteKey bg db prefix key = bg_delete bg db (makeKey prefix key)"

definition ExistsKey :: "'db badger \<Rightarrow> 'db \<Rightarrow> bytes \<Rightarrow> bytes \<Rightarrow> db_error + bool" where
  "ExistsKey bg db prefix key = (case bg_get bg db (makeKey prefix key) of
       Inl ErrKeyNotFound \<Rightarrow> Inr False
     | Inl e \<Rightarrow> Inl e
     | Inr _ \<Rightarrow> Inr True)"

text \<open>
  \<open>for it.Seek(p); it.ValidForPrefix(p); it.Next()\<close>: the items from the first key that is not
  below the prefix, as long as they carry it.
\<close>

definition has_prefix :: "bytes \<Rightarrow> bytes \<Rightarrow> bool" where
  "has_prefix p k \<longleftrightarrow> take (length p) k = p"

definition scan :: "'db badger \<Rightarrow> 'db \<Rightarrow> bytes \<Rightarrow> (bytes \<times> (db_error + bytes)) list" where
  "scan bg db p = takeWhile (\<lambda>i. has_prefix p (fst i)) (dropWhile (\<lambda>i. fst i < p) (bg_items bg db))"

definition prefixBytes :: "bytes \<Rightarrow> bytes" where
  "prefixBytes prefix = prefix @ '':''"

text \<open>The loop bodies: an item whose value cannot be read ends the loop with its error.\<close>

fun collect_values :: "nat \<Rightarrow> (bytes \<times> (db_error + bytes)) list \<Rightarrow> (bytes \<times> bytes) list
    \<Rightarrow> (bytes \<times> bytes) list \<times> db_error option" where
  "collect_values n [] values = (values, None)"
| "collect_values n ((k, r) # items) values = (case r of
       Inl e \<Rightarrow> (values, Some e)
     | Inr v \<Rightarrow> collect_values n items (gm_put (drop n k) v values))"

definition GetAllData :: "'db badger \<Rightarrow> 'db \<Rightarrow> bytes \<Rightarrow> (bytes \<times> bytes) list \<times> db_error option" where
  "GetAllData bg db prefix =
     collect_values (length (prefixBytes prefix)) (scan bg db (prefixBytes prefix)) []"

text \<open>\<open>var keys []string\<close> stays nil when the loop appends nothing; the only error would come from the transaction.\<close>

definition GetAllKeys :: "'db badger \<Rightarrow> 'db \<Rightarrow> bytes \<Rightarrow> bytes slice" where
  "GetAllKeys bg db prefix =
     (let ks = map (\<lambda>i. drop (length (prefixBytes prefix)) (fst i)) (scan bg db (prefixBytes prefix))
      in if ks = [] then None else Some ks)"

text \<open>\<open>IterateAndProcess\<close> threads what the callback updates; the store itself is not written during the scan.\<close>

fun process_items :: "nat \<Rightarrow> (bytes \<Rightarrow> bytes \<Rightarrow> 'a \<Rightarrow> 'a) \<Rightarrow> (bytes \<times> (db_error + bytes)) list
    \<Rightarrow> 'a \<Rightarrow> 'a \<times> db_error option" where
  "process_items n f [] acc = (acc, None)"
| "process_items n f ((k, r) # items) acc = (case r of
       Inl e \<Rightarrow> (acc, Some e)
     | Inr v \<Rightarrow> process_items n f items (f (drop n k) v acc))"

definition IterateAndProcess ::
  "'db badger \<Rightarrow> 'db \<Rightarrow> bytes \<Rightarrow> (bytes \<Rightarrow> bytes \<Rightarrow> 'a \<Rightarrow> 'a) \<Rightarrow> 'a \<Rightarrow> 'a \<times> db_error option" where
  "IterateAndProcess bg db prefix f acc =
     process_items (length (prefixBytes prefix)) f (scan bg db (prefixBytes prefix)) acc"

subsection \<open>Keys\<close>

definition colon_free :: "bytes \<Rightarrow> bool" where
  "colon_free p \<longleftrightarrow> CHR '':'' \<notin> set p"

lemma makeKey_inj:
  assumes "colon_free p" "colon_free q" "makeKey p k = makeKey q l"
  shows "p = q \<and> k = l"
  using assms
proof (induction p arbitrary: q)
  case Nil
  then show ?case by (cases q) (auto simp: makeKey_def colon_free_def)
next
  case (Cons c p)
  then show ?case by (cases q) (auto simp: makeKey_def colon_free_def)
qed

lemma makeKey_eq_iff [simp]:
  "colon_free p \<Longrightarrow> colon_free q \<Longrightarrow> makeKey p k = makeKey q l \<longleftrightarrow> p = q \<and> k = l"
  using makeKey_inj by blast

lemma makeKey_inj_on: "inj (makeKey p)"
  by (auto simp: makeKey_def inj_def)

lemma has_prefix_iff: "has_prefix p k \<longleftrightarrow> (\<exists>r. k = p @ r)"
  by (auto simp: has_prefix_def) (metis append_take_drop_id)

lemma has_prefix_makeKey: "has_prefix (prefixBytes p) k \<longleftrightarrow> (\<exists>r. k = makeKey p r)"
  by (simp add: has_prefix_iff prefixBytes_def makeKey_def)

lemma drop_prefix_makeKey [simp]: "drop (length (prefixBytes p)) (makeKey p r) = r"
  by (simp add: prefixBytes_def makeKey_def)

lemma prefix_ge: "has_prefix p k \<Longrightarrow> \<not> k < p"
proof (induction p arbitrary: k)
  case (Cons c p)
  then show ?case by (cases k) (auto simp: has_prefix_def)
qed (simp add: has_prefix_def)

text \<open>In byte order, whatever lies between a prefix and a key that carries it carries it too.\<close>

lemma prefix_convex: "\<not> k < p \<Longrightarrow> k < l \<Longrightarrow> has_prefix p l \<Longrightarrow> has_prefix p k"
proof (induction p arbitrary: k l)
  case (Cons c p)
  then obtain l' where l: "l = c # l'" "has_prefix p l'"
    by (cases l) (auto simp: has_prefix_def)
  from Cons.prems l obtain k' where k: "k = c # k'" "\<not> k' < p" "k' < l'"
    by (cases k) auto
  then show ?case using Cons.IH[OF k(2,3) l(2)] by (simp add: has_prefix_def)
qed (simp add: has_prefix_def)

lemma scan_filter:
  assumes "sorted_wrt (<) (map fst items)"
  shows "takeWhile (\<lambda>i. has_prefix p (fst i)) (dropWhile (\<lambda>i. fst i < p) items)
    = filter (\<lambda>i. has_prefix p (fst i)) items"
  using assms
proof (induction items)
  case (Cons i items)
  show ?case
  proof (cases "fst i < p")
    case True
    then show ?thesis using Cons prefix_ge by auto
  next
    case False
    have rest: "takeWhile (\<lambda>i. has_prefix p (fst i)) items = filter (\<lambda>i. has_prefix p (fst i)) items"
      if "has_prefix p (fst i)"
    proof -
      have "dropWhile (\<lambda>i. fst i < p) items = items"
        using Cons.prems False by (cases items) (auto dest: less_trans)
      then show ?thesis using Cons by simp
    qed
    have none: "filter (\<lambda>i. has_prefix p (fst i)) items = []" if "\<not> has_prefix p (fst i)"
      using Cons.prems False that prefix_convex[of "fst i" p] by (auto simp: filter_empty_conv)
    show ?thesis using False rest none by auto
  qed
qed simp

subsection \<open>What Badger promises\<close>

locale badger_ok =
  fixes bg :: "'db badger"
  assumes items_sorted: "sorted_wrt (<) (map fst (bg_items bg db))"
    and get_items: "bg_get bg db k = (case map_of (bg_items bg db) k of
        None \<Rightarrow> Inl ErrKeyNotFound | Some r \<Rightarrow> r)"
    and read_error: "map_of (bg_items bg db) k = Some (Inl e) \<Longrightarrow> e \<noteq> ErrKeyNotFound"
    and set_ok: "bg_set bg db k v = (None, db') \<Longrightarrow> map_of (bg_items bg db') = (map_of (bg_items bg db))(k \<mapsto> Inr v)"
    and set_fail: "bg_set bg db k v = (Some e, db') \<Longrightarrow> bg_items bg db' = bg_items bg db"
    and delete_ok: "bg_delete bg db k = (None, db') \<Longrightarrow> map_of (bg_items bg db') = (map_of (bg_items bg db))(k := None)"
    and delete_fail: "bg_delete bg db k = (Some e, db') \<Longrightarrow> bg_items bg db' = bg_items bg db"

text \<open>A store on which no operation fails.\<close>

locale badger_reliable = badger_ok bg for bg :: "'db badger" +
  assumes set_works: "fst (bg_set bg db k v) = None"
    and delete_works: "fst (bg_delete bg db k) = None"
    and reads_work: "map_of (bg_items bg db) k \<noteq> Some (Inl e)"

subsection \<open>The contract of the package\<close>

definition view :: "'db badger \<Rightarrow> 'db \<Rightarrow> bytes \<Rightarrow> bytes \<Rightarrow> (db_error + bytes) option" where
  "view bg db p k = map_of (bg_items bg db) (makeKey p k)"

locale prefix_store =
  fixes get :: "'s \<Rightarrow> bytes \<Rightarrow> bytes \<Rightarrow> db_error + bytes"
    and put :: "'s \<Rightarrow> bytes \<Rightarrow> bytes \<Rightarrow> bytes \<Rightarrow> db_error option \<times> 's"
    and del :: "'s \<Rightarrow> bytes \<Rightarrow> bytes \<Rightarrow> db_error option \<times> 's"
    and ex :: "'s \<Rightarrow> bytes \<Rightarrow> bytes \<Rightarrow> db_error + bool"
    and keys :: "'s \<Rightarrow> bytes \<Rightarrow> bytes slice"
    and cont :: "'s \<Rightarrow> bytes \<Rightarrow> bytes \<Rightarrow> (db_error + bytes) option"
  assumes get_cont: "get s p k = (case cont s p k of None \<Rightarrow> Inl ErrKeyNotFound | Some r \<Rightarrow> r)"
    and put_cont: "put s p k v = (None, s') \<Longrightarrow> colon_free p \<Longrightarrow> colon_free q
        \<Longrightarrow> cont s' q = (if q = p then (cont s p)(k \<mapsto> Inr v) else cont s q)"
    and put_failed: "put s p k v = (Some e, s') \<Longrightarrow> cont s' = cont s"
    and del_cont: "del s p k = (None, s') \<Longrightarrow> colon_free p \<Longrightarrow> colon_free q
        \<Longrightarrow> cont s' q = (if q = p then (cont s p)(k := None) else cont s q)"
    and del_failed: "del s p k = (Some e, s') \<Longrightarrow> cont s' = cont s"
    and ex_cont: "ex s p k = (case cont s p k of None \<Rightarrow> Inr False | Some (Inr _) \<Rightarrow> Inr True | Some (Inl e) \<Rightarrow> Inl e)"
    and keys_cont: "set (elems (keys s p)) = dom (cont s p)"
    and keys_sorted: "sorted_wrt (<) (elems (keys s p))"
begin

lemma get_after_put: "put s p k v = (None, s') \<Longrightarrow> colon_free p \<Longrightarrow> get s' p k = Inr v"
  by (simp add: get_cont put_cont)

lemma get_after_del: "del s p k = (None, s') \<Longrightarrow> colon_free p \<Longrightarrow> get s' p k = Inl ErrKeyNotFound"
  by (simp add: get_cont del_cont)

lemma put_other:
  "colon_free p \<Longrightarrow> colon_free q \<Longrightarrow> (q, l) \<noteq> (p, k) \<Longrightarrow> cont (snd (put s p k v)) q l = cont s q l"
  by (cases "put s p k v"; cases "fst (put s p k v)") (auto simp: put_cont put_failed)

lemma del_other:
  "colon_free p \<Longrightarrow> colon_free q \<Longrightarrow> (q, l) \<noteq> (p, k) \<Longrightarrow> cont (snd (del s p k)) q l = cont s q l"
  by (cases "del s p k"; cases "fst (del s p k)") (auto simp: del_cont del_failed)

lemma keys_nodup: "distinct (elems (keys s p))"
  using keys_sorted strict_sorted_iff by blast

end

context badger_ok
begin

lemma items_distinct: "distinct (map fst (bg_items bg db))"
  using items_sorted strict_sorted_iff by blast

lemma scan_prefix: "scan bg db p = filter (\<lambda>i. has_prefix p (fst i)) (bg_items bg db)"
  by (simp add: scan_def scan_filter items_sorted)

lemma keys_eq:
  "elems (GetAllKeys bg db p)
    = map (\<lambda>i. drop (length (prefixBytes p)) (fst i)) (filter (\<lambda>i. has_prefix (prefixBytes p) (fst i)) (bg_items bg db))"
  by (simp add: GetAllKeys_def scan_prefix Let_def)

lemma keys_makeKey:
  "map (makeKey p) (elems (GetAllKeys bg db p)) = map fst (filter (\<lambda>i. has_prefix (prefixBytes p) (fst i)) (bg_items bg db))"
  by (auto simp: keys_eq has_prefix_makeKey)

lemma keys_set: "set (elems (GetAllKeys bg db p)) = dom (view bg db p)"
proof -
  have "makeKey p ` set (elems (GetAllKeys bg db p)) = makeKey p ` dom (view bg db p)"
    using arg_cong[OF keys_makeKey[of p db], of set]
    by (simp add: has_prefix_makeKey view_def dom_def) (auto simp: image_iff map_of_eq_Some_iff[OF items_distinct], blast)
  then show ?thesis by (simp add: inj_image_eq_iff[OF makeKey_inj_on])
qed

lemma keys_ascending: "sorted_wrt (<) (elems (GetAllKeys bg db p))"
proof -
  have "sorted_wrt (<) (map (makeKey p) (elems (GetAllKeys bg db p)))"
    unfolding keys_makeKey using items_sorted[of db] by (simp add: sorted_wrt_map sorted_wrt_filter)
  then have "sorted_wrt (\<lambda>a b. makeKey p a < makeKey p b) (elems (GetAllKeys bg db p))"
    by (simp add: sorted_wrt_map)
  moreover have "makeKey p a < makeKey p b \<Longrightarrow> a < b" for a b
    by (induction p) (auto simp: makeKey_def)
  ultimately show ?thesis
    by (rule sorted_wrt_mono_rel[rotated])
qed

end

sublocale badger_ok \<subseteq> store: prefix_store "GetData bg" "PutData bg" "DeleteKey bg" "ExistsKey bg" "GetAllKeys bg" "view bg"
proof
  fix db p k v db' q e
  show "GetData bg db p k = (case view bg db p k of None \<Rightarrow> Inl ErrKeyNotFound | Some r \<Rightarrow> r)"
    by (simp add: GetData_def view_def get_items)
  show "PutData bg db p k v = (None, db') \<Longrightarrow> colon_free p \<Longrightarrow> colon_free q
      \<Longrightarrow> view bg db' q = (if q = p then (view bg db p)(k \<mapsto> Inr v) else view bg db q)"
    by (auto simp: PutData_def view_def set_ok fun_eq_iff)
  show "PutData bg db p k v = (Some e, db') \<Longrightarrow> view bg db' = view bg db"
    by (simp add: PutData_def view_def set_fail fun_eq_iff)
  show "DeleteKey bg db p k = (None, db') \<Longrightarrow> colon_free p \<Longrightarrow> colon_free q
      \<Longrightarrow> view bg db' q = (if q = p then (view bg db p)(k := None) else view bg db q)"
    by (auto simp: DeleteKey_def view_def delete_ok fun_eq_iff)
  show "DeleteKey bg db p k = (Some e, db') \<Longrightarrow> view bg db' = view bg db"
    by (simp add: DeleteKey_def view_def delete_fail fun_eq_iff)
  show "ExistsKey bg db p k
      = (case view bg db p k of None \<Rightarrow> Inr False | Some (Inr _) \<Rightarrow> Inr True | Some (Inl e) \<Rightarrow> Inl e)"
    using read_error[of db "makeKey p k"]
    by (auto simp: ExistsKey_def view_def get_items split: option.splits sum.splits db_error.splits)
  show "set (elems (GetAllKeys bg db p)) = dom (view bg db p)" by (rule keys_set)
  show "sorted_wrt (<) (elems (GetAllKeys bg db p))" by (rule keys_ascending)
qed

text \<open>The laws of the contract under names that can be used outside the locale.\<close>

context badger_ok
begin

lemmas view_put = store.put_cont store.put_failed
lemmas view_del = store.del_cont store.del_failed
lemmas view_put_other = store.put_other
lemmas view_del_other = store.del_other
lemmas view_get = store.get_cont
lemmas view_exists = store.ex_cont
lemmas view_keys = store.keys_cont
lemmas view_keys_sorted = store.keys_sorted

end

subsection \<open>Loops over the store\<close>

text \<open>
  \<open>for _, key := range keys { DeleteKey(...) }\<close>, as the cleaners write it: how many deletions
  succeeded, and the store.
\<close>

fun delete_keys :: "'db badger \<Rightarrow> bytes \<Rightarrow> bytes list \<Rightarrow> 'db \<Rightarrow> nat \<times> 'db" where
  "delete_keys bg p [] db = (0, db)"
| "delete_keys bg p (k # ks) db =
     (let (e, db1) = DeleteKey bg db p k;
          (n, db2) = delete_keys bg p ks db1
      in (if e = None then Suc n else n, db2))"

lemma delete_keys_Cons:
  "snd (delete_keys bg p (k # ks) db) = snd (delete_keys bg p ks (snd (DeleteKey bg db p k)))"
  "fst (delete_keys bg p (k # ks) db) = fst (delete_keys bg p ks (snd (DeleteKey bg db p k)))
     + (if fst (DeleteKey bg db p k) = None then 1 else 0)"
  by (simp_all add: Let_def case_prod_beta)

declare delete_keys.simps(2) [simp del]

context badger_ok
begin

lemma delete_keys_other:
  "colon_free p \<Longrightarrow> colon_free q \<Longrightarrow> q \<noteq> p \<or> l \<notin> set ks
     \<Longrightarrow> view bg (snd (delete_keys bg p ks db)) q l = view bg db q l"
proof (induction ks arbitrary: db)
  case (Cons k ks)
  then show ?case
    using store.del_other[of p q l k db] by (auto simp: delete_keys_Cons)
qed simp

lemma delete_keys_le: "fst (delete_keys bg p ks db) \<le> length ks"
  by (induction ks arbitrary: db) (auto simp: delete_keys_Cons le_SucI)

text \<open>No deletion brings a key back.\<close>

lemma delete_keys_none:
  assumes "colon_free p" "colon_free q" "view bg db q l = None"
  shows "view bg (snd (delete_keys bg p ks db)) q l = None"
  using assms(3)
proof (induction ks arbitrary: db)
  case (Cons k ks)
  obtain e db1 where d: "DeleteKey bg db p k = (e, db1)" by fastforce
  have "view bg db1 q l = None"
    using store.del_cont[of db p k db1 q] store.del_failed[of db p k _ db1] d Cons.prems assms
    by (cases e) auto
  then show ?case using Cons.IH[of db1] d by (simp add: delete_keys_Cons)
qed simp

end

context badger_reliable
begin

lemma delete_reliable: "\<exists>db'. DeleteKey bg db p k = (None, db')"
  using delete_works by (metis DeleteKey_def prod.collapse)

lemma put_reliable: "\<exists>db'. PutData bg db p k v = (None, db')"
  using set_works by (metis PutData_def prod.collapse)

lemma delete_keys_view:
  assumes "colon_free p"
  shows "view bg (snd (delete_keys bg p ks db)) p = (view bg db p) |` (- set ks)"
proof (induction ks arbitrary: db)
  case (Cons k ks)
  obtain db1 where d: "DeleteKey bg db p k = (None, db1)" using delete_reliable by blast
  then show ?case
    using Cons.IH[of db1] store.del_cont[OF d assms assms]
    by (auto simp: delete_keys_Cons restrict_map_def fun_eq_iff)
qed (simp add: restrict_map_def)

lemma delete_keys_count: "fst (delete_keys bg p ks db) = length ks"
proof (induction ks arbitrary: db)
  case (Cons k ks)
  obtain db1 where "DeleteKey bg db p k = (None, db1)" using delete_reliable by blast
  then show ?case using Cons.IH[of db1] by (simp add: delete_keys_Cons)
qed simp

end

subsection \<open>What a scan sees\<close>

text \<open>The entries a scan hands out before the first value it cannot read.\<close>

fun readable :: "nat \<Rightarrow> (bytes \<times> (db_error + bytes)) list \<Rightarrow> (bytes \<times> bytes) list" where
  "readable n [] = []"
| "readable n ((k, r) # items) = (case r of Inl _ \<Rightarrow> [] | Inr v \<Rightarrow> (drop n k, v) # readable n items)"

definition entries_of :: "'db badger \<Rightarrow> 'db \<Rightarrow> bytes \<Rightarrow> (bytes \<times> bytes) list" where
  "entries_of bg db p = readable (length (prefixBytes p)) (scan bg db (prefixBytes p))"

lemma process_items_fold: "fst (process_items n f items acc) = fold (\<lambda>(k, v). f k v) (readable n items) acc"
  by (induction n f items acc rule: process_items.induct) (auto split: sum.splits)

lemma collect_values_fold: "fst (collect_values n items m) = fold (\<lambda>(k, v). gm_put k v) (readable n items) m"
  by (induction n items m rule: collect_values.induct) (auto split: sum.splits)

lemma IterateAndProcess_fold:
  "fst (IterateAndProcess bg db p f acc) = fold (\<lambda>(k, v). f k v) (entries_of bg db p) acc"
  by (simp add: IterateAndProcess_def entries_of_def process_items_fold)

lemma GetAllData_fold:
  "fst (GetAllData bg db p) = fold (\<lambda>(k, v). gm_put k v) (entries_of bg db p) []"
  by (simp add: GetAllData_def entries_of_def collect_values_fold)

lemma readable_sub: "(k, v) \<in> set (readable n items) \<Longrightarrow> \<exists>k'. (k', Inr v) \<in> set items \<and> k = drop n k'"
  by (induction n items rule: readable.induct) (auto split: sum.splits)

lemma readable_keys: "\<exists>m. map fst (readable n items) = take m (map (\<lambda>i. drop n (fst i)) items)"
proof (induction n items rule: readable.induct)
  case (2 n k r items)
  then show ?case
    by (cases r) (auto intro: exI[of _ 0] exI[of _ "Suc _"])
qed simp

lemma readable_all:
  "(\<And>k r. (k, r) \<in> set items \<Longrightarrow> \<exists>v. r = Inr v) \<Longrightarrow>
     set (readable n items) = (\<lambda>(k, r). (drop n k, projr r)) ` set items"
proof (induction n items rule: readable.induct)
  case (2 n k r items)
  from "2.prems"[of k r] obtain v where r: "r = Inr v" by auto
  have "set (readable n items) = (\<lambda>(k, r). (drop n k, projr r)) ` set items"
    by (rule "2.IH"[OF r]) (use "2.prems" in auto)
  with r show ?case by simp
qed simp

context badger_ok
begin

lemma entries_view: "(k, v) \<in> set (entries_of bg db p) \<Longrightarrow> view bg db p k = Some (Inr v)"
  by (auto simp: entries_of_def scan_prefix has_prefix_makeKey view_def map_of_eq_Some_iff[OF items_distinct]
      dest!: readable_sub)

lemma entries_distinct: "distinct (map fst (entries_of bg db p))"
proof -
  have "distinct (elems (GetAllKeys bg db p))" by (rule store.keys_nodup)
  then show ?thesis
    using readable_keys[of "length (prefixBytes p)" "scan bg db (prefixBytes p)"]
    by (auto simp: entries_of_def keys_eq scan_prefix)
qed

lemma GetAllData_view:
  "gomap_ok (fst (GetAllData bg db p))"
  "map_of (fst (GetAllData bg db p)) = map_of (entries_of bg db p)"
  by (simp_all add: GetAllData_fold fold_gm_put_ok map_of_fold_gm_put entries_distinct)

end

context badger_reliable
begin

lemma entries_complete: "set (entries_of bg db p) = {(k, v). view bg db p k = Some (Inr v)}"
proof (rule set_eqI, clarify)
  fix k v
  have "set (entries_of bg db p)
      = (\<lambda>(k, r). (drop (length (prefixBytes p)) k, projr r)) ` set (scan bg db (prefixBytes p))"
    unfolding entries_of_def
    by (rule readable_all) (use reads_work map_of_eq_Some_iff[OF items_distinct] in
      \<open>auto simp: scan_prefix sum.exhaust_sel, metis sum.exhaust\<close>)
  then have "view bg db p k = Some (Inr v) \<Longrightarrow> (k, v) \<in> set (entries_of bg db p)"
    by (auto simp: scan_prefix has_prefix_makeKey view_def image_iff dest!: map_of_SomeD) force
  then show "(k, v) \<in> set (entries_of bg db p) \<longleftrightarrow> (k, v) \<in> {(k, v). view bg db p k = Some (Inr v)}"
    using entries_view by auto
qed

lemma entries_map_of: "map_of (entries_of bg db p) k = (case view bg db p k of Some (Inr v) \<Rightarrow> Some v | _ \<Rightarrow> None)"
proof (cases "view bg db p k")
  case (Some r)
  then obtain v where "r = Inr v" using reads_work by (metis view_def sum.exhaust)
  then show ?thesis using Some entries_complete entries_distinct by auto
next
  case None
  then have "k \<notin> fst ` set (entries_of bg db p)" by (auto simp: entries_complete)
  then show ?thesis using None by (simp add: map_of_eq_None_iff)
qed

end

lemma collect_values_ok: "\<forall>i \<in> set items. \<exists>v. snd i = Inr v \<Longrightarrow> snd (collect_values n items m) = None"
  by (induction items arbitrary: m) auto

context badger_reliable
begin

lemma GetAllData_complete:
  "snd (GetAllData bg db p) = None"
  "map_of (fst (GetAllData bg db p)) k = (case view bg db p k of Some (Inr v) \<Rightarrow> Some v | _ \<Rightarrow> None)"
proof -
  have "\<exists>v. r = Inr v" if "(k, r) \<in> set (bg_items bg db)" for k r
    using that reads_work map_of_eq_Some_iff[OF items_distinct, of db k r] by (cases r) auto
  then show "snd (GetAllData bg db p) = None"
    by (auto simp: GetAllData_def scan_prefix intro!: collect_values_ok)
  show "map_of (fst (GetAllData bg db p)) k = (case view bg db p k of Some (Inr v) \<Rightarrow> Some v | _ \<Rightarrow> None)"
    by (simp add: GetAllData_view entries_map_of)
qed

end

lemma reliable_view_cases:
  assumes "badger_reliable bg"
  obtains (none) "view bg db p k = None" | (some) v where "view bg db p k = Some (Inr v)"
  using badger_reliable.reads_work[OF assms, of db "makeKey p k"]
  by (cases "view bg db p k"; simp add: view_def) (metis sum.exhaust)

lemma keys_filter_snd: "k \<in> set (map fst (filter (\<lambda>e. P (snd e)) es)) \<longleftrightarrow> (\<exists>v. (k, v) \<in> set es \<and> P v)"
  by (induction es) auto

lemma reliable_ok: "badger_reliable bg \<Longrightarrow> badger_ok bg"
  by (simp add: badger_reliable_def)

lemma reliable_put:
  assumes "badger_reliable bg" "colon_free q"
  shows "view bg (snd (PutData bg db q k v)) q = (view bg db q)(k \<mapsto> Inr v)"
  using badger_reliable.put_reliable[OF assms(1), of db q k v]
    badger_ok.view_put(1)[OF reliable_ok[OF assms(1)], of db q k v _ q] assms(2) by auto

lemma reliable_del:
  assumes "badger_reliable bg" "colon_free q"
  shows "view bg (snd (DeleteKey bg db q k)) q = (view bg db q)(k := None)"
  using badger_reliable.delete_reliable[OF assms(1), of db q k]
    badger_ok.view_del(1)[OF reliable_ok[OF assms(1)], of db q k _ q] assms(2) by auto

subsection \<open>A store in memory\<close>

text \<open>
  A red-black tree with byte-string keys has the promised behaviour and never fails; it is the
  concrete store of the examples.
\<close>

definition mem_badger :: "(bytes, bytes) RBT.rbt badger" where
  "mem_badger = \<lparr>
     bg_get = (\<lambda>db k. case RBT.lookup db k of None \<Rightarrow> Inl ErrKeyNotFound | Some v \<Rightarrow> Inr v),
     bg_set = (\<lambda>db k v. (None, RBT.insert k v db)),
     bg_delete = (\<lambda>db k. (None, RBT.delete k db)),
     bg_items = (\<lambda>db. map (\<lambda>(k, v). (k, Inr v)) (RBT.entries db))\<rparr>"

lemma map_of_entries_Inr: "map_of (map (\<lambda>(k, v). (k, Inr v)) (RBT.entries t)) k = map_option Inr (RBT.lookup t k)"
  by (simp add: map_of_map map_of_entries)

interpretation mem: badger_reliable mem_badger
proof
  fix db db' :: "(bytes, bytes) RBT.rbt" and k v e
  show "sorted_wrt (<) (map fst (bg_items mem_badger db))"
    using RBT.sorted_entries[of db] RBT.distinct_entries[of db]
    by (simp add: mem_badger_def strict_sorted_iff o_def case_prod_beta)
  show "bg_get mem_badger db k = (case map_of (bg_items mem_badger db) k of None \<Rightarrow> Inl ErrKeyNotFound | Some r \<Rightarrow> r)"
    by (simp add: mem_badger_def map_of_entries_Inr split: option.split)
  show "map_of (bg_items mem_badger db) k = Some (Inl e) \<Longrightarrow> e \<noteq> ErrKeyNotFound"
    by (auto simp: mem_badger_def map_of_entries_Inr)
qed (auto simp: mem_badger_def map_of_entries_Inr fun_eq_iff)

lemma mem_view: "view mem_badger db q k = map_option Inr (RBT.lookup db (makeKey q k))"
  by (simp add: view_def mem_badger_def map_of_entries_Inr)

lemma mem_reliable: "badger_reliable mem_badger"
  by unfold_locales

lemma mem_put [simp]: "PutData mem_badger db ns k v = (None, RBT.insert (makeKey ns k) v db)"
  by (simp add: PutData_def mem_badger_def)

subsection \<open>Properties\<close>

text \<open>
  Two keys of the database are equal only if their namespaces and their keys are, for
  namespaces without a colon; the keys themselves (addresses with ports) may hold colons.
\<close>

theorem makeKey_isolates:
  assumes "colon_free p" "colon_free q"
  shows "makeKey p k = makeKey q l \<longleftrightarrow> p = q \<and> k = l"
  using assms by (rule makeKey_eq_iff)

theorem makeKey_isolates_witness:
  "makeKey ''active_nodes'' ''h:1'' \<noteq> makeKey ''manifests'' ''h:1''"
  using makeKey_isolates[of "''active_nodes''" "''manifests''" "''h:1''" "''h:1''"] by (simp add: colon_free_def)

text \<open>
  \<open>GetAllKeys\<close> lists exactly the keys of the namespace, each once and in ascending byte order:
  the iteration neither stops early nor runs into another namespace.
\<close>

theorem GetAllKeys_exact:
  assumes "badger_ok bg"
  shows "set (elems (GetAllKeys bg db p)) = {k. GetData bg db p k \<noteq> Inl ErrKeyNotFound}
    \<and> sorted_wrt (<) (elems (GetAllKeys bg db p)) \<and> distinct (elems (GetAllKeys bg db p))"
proof -
  have "GetData bg db p k \<noteq> Inl ErrKeyNotFound \<longleftrightarrow> k \<in> dom (view bg db p)" for k
    using badger_ok.view_get[OF assms, of db p k] badger_ok.read_error[OF assms, of db "makeKey p k"]
    by (auto simp: view_def split: option.splits)
  moreover have "distinct (elems (GetAllKeys bg db p))"
    using badger_ok.view_keys_sorted[OF assms, of db p] by (simp add: strict_sorted_iff)
  ultimately show ?thesis
    using badger_ok.view_keys[OF assms, of db p] badger_ok.view_keys_sorted[OF assms, of db p] by auto
qed

theorem GetAllKeys_exact_witness:
  "set (elems (GetAllKeys mem_badger (RBT.insert (makeKey ''n'' ''x'') ''1'' (RBT.insert (makeKey ''m'' ''y'') ''2'' RBT.empty)) ''n''))
     = {''x''}"
proof -
  let ?db = "RBT.insert (makeKey ''n'' ''x'') ''1'' (RBT.insert (makeKey ''m'' ''y'') ''2'' RBT.empty)"
  have "set (elems (GetAllKeys mem_badger ?db ''n'')) = {k. GetData mem_badger ?db ''n'' k \<noteq> Inl ErrKeyNotFound}"
    using GetAllKeys_exact[OF reliable_ok[OF mem_reliable], of ?db "''n''"] by simp
  then show ?thesis
    by (auto simp: GetData_def mem_badger_def makeKey_def split: if_splits)
qed

text \<open>
  C28: after a successful \<open>PutData\<close>, \<open>GetData\<close> returns the value and \<open>ExistsKey\<close> says true; every
  other key of every namespace reads as before. After a failed one every key reads as before.
\<close>

theorem PutData_reads_back:
  assumes "badger_ok bg" "colon_free p" "colon_free q" "PutData bg db p k v = (e, db')"
  shows "(e = None \<longrightarrow> GetData bg db' p k = Inr v \<and> ExistsKey bg db' p k = Inr True)
    \<and> ((q, l) \<noteq> (p, k) \<or> e \<noteq> None \<longrightarrow> GetData bg db' q l = GetData bg db q l \<and> ExistsKey bg db' q l = ExistsKey bg db q l)"
  using assms(2-4) badger_ok.view_put[OF assms(1), of db p k v]
  by (cases e) (auto simp: badger_ok.view_get[OF assms(1)] badger_ok.view_exists[OF assms(1)])

theorem PutData_reads_back_witness:
  "GetData mem_badger (snd (PutData mem_badger RBT.empty ''n'' ''x'' ''1'')) ''n'' ''x'' = Inr ''1''"
  using PutData_reads_back[OF reliable_ok[OF mem_reliable], of "''n''" "''n''" RBT.empty "''x''" "''1''" None]
  by (simp add: colon_free_def)

end
