(* ===== verification/Runtime.thy ===== *)
theory Runtime
  imports Models Crypto Database
begin

text \<open>
  What a running process has around its store: the settings, the key files and the libraries
  (\<open>env\<close>), the requests and responses of \<open>net/http\<close> with the helpers the handlers use, and the
  network as the client code sees it (\<open>net\<close>), which answers or fails and may change the state \<open>'w\<close>
  of the other processes. Random choices are explicit arguments: \<open>rand.Intn(n)\<close> is \<open>r mod n\<close> for
  an arbitrary \<open>r\<close>, and panics for \<open>n = 0\<close>.
\<close>

record 'db env =
  env_bg :: "'db badger"
  env_C :: crypto_lib
  env_cfg :: Config
  env_disk :: disk

subsection \<open>HTTP\<close>

record request =
  req_Method :: bytes
  req_Path :: bytes
  req_Query :: "bytes \<Rightarrow> bytes"
  req_Body :: bytes

record response =
  rsp_Status :: int
  rsp_Header :: "(bytes \<times> bytes) list"
  rsp_Body :: bytes

definition respond :: "(bytes \<times> bytes) list \<Rightarrow> bytes \<Rightarrow> response" where
  "respond hs b = \<lparr>rsp_Status = 200, rsp_Header = hs, rsp_Body = b\<rparr>"

text \<open>\<open>http.Error\<close>: the message and a line break, as plain text.\<close>

definition http_Error :: "bytes \<Rightarrow> int \<Rightarrow> response" where
  "http_Error msg code = \<lparr>rsp_Status = code,
     rsp_Header = [(''Content-Type'', ''text/plain; charset=utf-8''), (''X-Content-Type-Options'', ''nosniff'')],
     rsp_Body = msg @ [CHR 0x0A]\<rparr>"

lemma response_simps [simp]:
  "rsp_Status (respond hs b) = 200" "rsp_Body (respond hs b) = b" "rsp_Header (respond hs b) = hs"
  "rsp_Status (http_Error m c) = c"
  by (simp_all add: respond_def http_Error_def)

subsection \<open>The network as a client sees it\<close>

record 'w net =
  net_post :: "'w \<Rightarrow> bytes \<Rightarrow> bytes \<Rightarrow> (string + int \<times> bytes) \<times> 'w"
  net_delete :: "'w \<Rightarrow> bytes \<Rightarrow> bytes \<Rightarrow> (string + int \<times> bytes) \<times> 'w"

definition http_url :: "bytes \<Rightarrow> bytes \<Rightarrow> bytes" where
  "http_url server path = ''http://'' @ server @ path"

subsection \<open>Helpers\<close>

definition Intn :: "nat \<Rightarrow> nat \<Rightarrow> nat res" where
  "Intn r n = (if n = 0 then Inl (Panic ''invalid argument to Intn'') else Inr (r mod n))"

text \<open>A slice built by \<open>append\<close> from a nil one: nil as long as nothing is appended.\<close>

definition appended :: "'a list \<Rightarrow> 'a slice" where
  "appended xs = (if xs = [] then None else Some xs)"

lemma elems_appended [simp]: "elems (appended xs) = xs"
  by (simp add: appended_def)

definition sign :: "'db env \<Rightarrow> bytes \<Rightarrow> bytes res" where
  "sign env m = SignMessage (env_C env) (env_cfg env) (env_disk env) m"

definition check :: "'db env \<Rightarrow> bytes \<Rightarrow> char slice \<Rightarrow> char slice \<Rightarrow> bool" where
  "check env m s pk = check_signature (env_C env) m s pk"

text \<open>\<open>signature, _ := crypto.SignMessage(...)\<close>: nil after an error.\<close>

definition sign_or_nil :: "'db env \<Rightarrow> bytes \<Rightarrow> char slice" where
  "sign_or_nil env m = (case sign env m of Inl _ \<Rightarrow> None | Inr s \<Rightarrow> Some s)"

abbreviation "ns_active_nodes \<equiv> ''active_nodes''"
abbreviation "ns_manifests \<equiv> ''manifests''"
abbreviation "ns_chunks \<equiv> ''chunks''"
abbreviation "ns_upload_status \<equiv> ''upload_status''"

lemma ns_colon_free [simp]:
  "colon_free ns_active_nodes" "colon_free ns_manifests" "colon_free ns_chunks" "colon_free ns_upload_status"
  by (simp_all add: colon_free_def)

subsection \<open>A process of the examples\<close>

text \<open>The stand-ins of \<open>Crypto\<close> and \<open>Database\<close> in one process, at the given host and port 8080.\<close>

definition ref_env :: "bytes \<Rightarrow> bytes list \<Rightarrow> (bytes, bytes) RBT.rbt env" where
  "ref_env host servers = \<lparr>env_bg = mem_badger, env_C = ref_crypto,
     env_cfg = (fst ref_identity)\<lparr>cfg_AdvertisedAddress := host, cfg_BootStrapServers := servers\<rparr>,
     env_disk = snd ref_identity\<rparr>"

lemma ref_identity_port: "cfg_Port (fst ref_identity) = 8080"
  by (simp add: ref_identity_def GenerateKeyPair_def ref_crypto_def empty_disk_def WriteFile_def
      GetPublicKey_def GetPrivateKey_def ReadFile_def ref_config_def bootstrap_config_def config_of_env_def default_config_def)

lemma ref_env_simps [simp]:
  "env_bg (ref_env host servers) = mem_badger" "env_C (ref_env host servers) = ref_crypto"
  "cfg_BootStrapServers (env_cfg (ref_env host servers)) = servers"
  "self_address (env_cfg (ref_env host servers)) = host @ '':8080''"
  by (simp_all add: ref_env_def self_address_def ref_identity_port show_int_def show_nat.simps char_of_eq_iff)

lemma ref_env_signer:
  "signer (env_C (ref_env host servers)) (env_cfg (ref_env host servers)) (env_disk (ref_env host servers))"
  using ref.sign_ok ref.sign_verifies by unfold_locales (auto simp: ref_env_def SignMessage_def)

lemma ref_env_sign:
  "\<exists>s. sign (ref_env host servers) m = Inr s
     \<and> check (ref_env host servers) m (Some s) (cfg_PublicKey (env_cfg (ref_env host servers)))"
  using signer.sign_ok[OF ref_env_signer] signer.check_own_signature[OF ref_env_signer]
  by (metis sign_def check_def)

end
