(* ===== verification/Synchronization.thy ===== *)
theory Synchronization
  imports Runtime
begin

text \<open>
  \<open>internal/service/synchronization.go\<close>: the delta synchronisation between bootstrap servers.
  \<open>CompareKeys\<close> computes the two key differences, \<open>ProcessAlignment\<close> writes what a peer sent,
  \<open>performSync\<close> is one round of the worker (digest out, payload in, missing entries pushed).
  Go's maps have no iteration order: the functions that range over a map take its entries as a
  list, and \<open>ProcessAlignment_order\<close> shows that the order does not matter.
\<close>

subsection \<open>CompareKeys\<close>

text \<open>\<open>map[string]bool\<close>: a missing key reads as false.\<close>

type_synonym boolmap = "bytes \<Rightarrow> bool"

fun mark_all :: "bytes list \<Rightarrow> boolmap \<Rightarrow> boolmap" where
  "mark_all [] m = m"
| "mark_all (k # ks) m = mark_all ks (m(k := True))"

fun scan_remote :: "boolmap \<Rightarrow> bytes list \<Rightarrow> boolmap \<Rightarrow> bytes list \<Rightarrow> boolmap \<times> bytes list" where
  "scan_remote localMap [] remoteMap missing = (remoteMap, missing)"
| "scan_remote localMap (k # ks) remoteMap missing =
     scan_remote localMap ks (remoteMap(k := True)) (if \<not> localMap k then missing @ [k] else missing)"

fun scan_local :: "boolmap \<Rightarrow> bytes list \<Rightarrow> bytes list \<Rightarrow> bytes list" where
  "scan_local remoteMap [] missing = missing"
| "scan_local remoteMap (k # ks) missing =
     scan_local remoteMap ks (if \<not> remoteMap k then missing @ [k] else missing)"

definition CompareKeys :: "bytes slice \<Rightarrow> bytes slice \<Rightarrow> bytes slice \<times> bytes slice" where
  "CompareKeys localKeys remoteKeys =
     (let localMap = mark_all (elems localKeys) (\<lambda>_. False);
          (remoteMap, missingInLocal) = scan_remote localMap (elems remoteKeys) (\<lambda>_. False) [];
          missingInRemote = scan_local remoteMap (elems localKeys) []
      in (appended missingInLocal, appended missingInRemote))"

subsection \<open>ProcessAlignment\<close>

fun align_nodes :: "'db badger \<Rightarrow> (bytes \<times> char slice) list \<Rightarrow> 'db \<Rightarrow> nat \<times> 'db" where
  "align_nodes bg [] db = (0, db)"
| "align_nodes bg ((k, v) # es) db =
     (let (err, db1) = PutData bg db ns_active_nodes k (elems v);
          (n, db2) = align_nodes bg es db1
      in (if err = None then Suc n else n, db2))"

fun align_manifests :: "'db badger \<Rightarrow> (bytes \<times> char slice) list \<Rightarrow> 'db \<Rightarrow> nat \<times> 'db" where
  "align_manifests bg [] db = (0, db)"
| "align_manifests bg ((k, v) # es) db =
     (case ExistsKey bg db ns_manifests k of
        Inr False \<Rightarrow>
          (let (err, db1) = PutData bg db ns_manifests k (elems v);
               (n, db2) = align_manifests bg es db1
           in (if err = None then Suc n else n, db2))
      | _ \<Rightarrow> align_manifests bg es db)"

text \<open>The counts go to the log only.\<close>

definition ProcessAlignment ::
  "'db badger \<Rightarrow> (bytes \<times> char slice) list \<Rightarrow> (bytes \<times> char slice) list \<Rightarrow> 'db \<Rightarrow> (nat \<times> nat) \<times> 'db" where
  "ProcessAlignment bg nodes manifests db =
     (let (nodesUpdated, db1) = align_nodes bg nodes db;
          (manifestsUpdated, db2) = align_manifests bg manifests db1
      in ((nodesUpdated, manifestsUpdated), db2))"

subsection \<open>One round of the worker\<close>

text \<open>The entries of a namespace for a list of keys; keys that cannot be read are left out.\<close>

fun collect_data :: "'db badger \<Rightarrow> 'db \<Rightarrow> bytes \<Rightarrow> bytes list \<Rightarrow> (bytes \<times> char slice) list \<Rightarrow> (bytes \<times> char slice) list" where
  "collect_data bg db p [] m = m"
| "collect_data bg db p (k # ks) m =
     (case GetData bg db p k of
        Inr data \<Rightarrow> collect_data bg db p ks (gm_put k (Some data) m)
      | Inl _ \<Rightarrow> collect_data bg db p ks m)"

definition pushMissingData ::
  "'db env \<Rightarrow> 'w net \<Rightarrow> bytes \<Rightarrow> bytes slice \<Rightarrow> bytes slice \<Rightarrow> 'db \<Rightarrow> 'w \<Rightarrow> 'w" where
  "pushMissingData env net targetServer reqNodes reqManifests db w =
     (let payload = \<lparr>pay_Address = self_address (env_cfg env),
            pay_PublicKey = cfg_PublicKey (env_cfg env), pay_Signature = None,
            pay_ActiveNodes = Some (collect_data (env_bg env) db ns_active_nodes (elems reqNodes) []),
            pay_FileManifests = Some (collect_data (env_bg env) db ns_manifests (elems reqManifests) []),
            pay_RequestedNodes = None, pay_RequestedManifests = None\<rparr>;
          signature = sign_or_nil env (marshal enc_SyncPayload payload);
          jsonBytes = marshal enc_SyncPayload (payload\<lparr>pay_Signature := signature\<rparr>)
      in snd (net_post net w (http_url targetServer ''/sync/push'') jsonBytes))"

definition sync_digest :: "'db env \<Rightarrow> 'db \<Rightarrow> SyncDigest" where
  "sync_digest env db =
     \<lparr>dig_Address = self_address (env_cfg env), dig_PublicKey = cfg_PublicKey (env_cfg env),
      dig_Signature = None,
      dig_NodeKeys = GetAllKeys (env_bg env) db ns_active_nodes,
      dig_ManifestKeys = GetAllKeys (env_bg env) db ns_manifests\<rparr>"

definition performSync :: "'db env \<Rightarrow> 'w net \<Rightarrow> nat \<Rightarrow> 'db \<Rightarrow> 'w \<Rightarrow> 'db \<times> 'w" where
  "performSync env net r db w =
     (let servers = cfg_BootStrapServers (env_cfg env) in
      if length servers \<le> 1 then (db, w)
      else let chosenServer = servers ! (r mod length servers) in
      if chosenServer = self_address (env_cfg env) then (db, w)
      else let digest = sync_digest env db in
      case sign env (marshal enc_SyncDigest digest) of
        Inl _ \<Rightarrow> (db, w)
      | Inr signature \<Rightarrow>
     (case net_post net w (http_url chosenServer ''/sync/digest'')
             (marshal enc_SyncDigest (digest\<lparr>dig_Signature := Some signature\<rparr>)) of
        (Inl _, w1) \<Rightarrow> (db, w1)
      | (Inr (status, body), w1) \<Rightarrow>
          if status = 200 then
            (case decode_stream dec_SyncPayload zero_SyncPayload body of
               (_, False) \<Rightarrow> (db, w1)
             | (payload, True) \<Rightarrow>
                 let db1 = snd (ProcessAlignment (env_bg env) (elems (pay_ActiveNodes payload))
                                 (elems (pay_FileManifests payload)) db)
                 in if elems (pay_RequestedNodes payload) \<noteq> [] \<or> elems (pay_RequestedManifests payload) \<noteq> []
                    then (db1, pushMissingData env net chosenServer (pay_RequestedNodes payload)
                                 (pay_RequestedManifests payload) db1 w1)
                    else (db1, w1))
          else (db, w1)))"

text \<open>\<open>ServerBootstrapSync\<close>: one round per tick, until the context is cancelled.\<close>

datatype tick = Tick nat | Cancel

fun ServerBootstrapSync :: "'db env \<Rightarrow> 'w net \<Rightarrow> tick list \<Rightarrow> 'db \<Rightarrow> 'w \<Rightarrow> 'db \<times> 'w" where
  "ServerBootstrapSync env net [] db w = (db, w)"
| "ServerBootstrapSync env net (Cancel # _) db w = (db, w)"
| "ServerBootstrapSync env net (Tick r # ts) db w =
     (let (db1, w1) = performSync env net r db w in ServerBootstrapSync env net ts db1 w1)"

subsection \<open>CompareKeys is set difference, in order\<close>

lemma mark_all_mem: "mark_all ks m k \<longleftrightarrow> k \<in> set ks \<or> m k"
  by (induction ks arbitrary: m) auto

lemma scan_remote_filter:
  "scan_remote lm ks rm ms = (mark_all ks rm, ms @ filter (\<lambda>k. \<not> lm k) ks)"
  by (induction ks arbitrary: rm ms) auto

lemma scan_local_filter: "scan_local rm ks ms = ms @ filter (\<lambda>k. \<not> rm k) ks"
  by (induction ks arbitrary: ms) auto

lemma CompareKeys_filter:
  "CompareKeys ls rs = (appended (filter (\<lambda>k. k \<notin> set (elems ls)) (elems rs)),
                        appended (filter (\<lambda>k. k \<notin> set (elems rs)) (elems ls)))"
  by (simp add: CompareKeys_def scan_remote_filter scan_local_filter mark_all_mem)

subsection \<open>Alignment\<close>

lemma align_nodes_Cons:
  "snd (align_nodes bg ((k, v) # es) db) = snd (align_nodes bg es (snd (PutData bg db ns_active_nodes k (elems v))))"
  by (simp add: Let_def case_prod_beta)

lemma align_manifests_Cons:
  "snd (align_manifests bg ((k, v) # es) db) = snd (align_manifests bg es
     (if ExistsKey bg db ns_manifests k = Inr False then snd (PutData bg db ns_manifests k (elems v)) else db))"
  by (auto simp: Let_def case_prod_beta split: sum.split bool.split)

declare align_nodes.simps(2) [simp del] align_manifests.simps(2) [simp del]

text \<open>What the entries of a payload say about the store that takes them.\<close>

definition received :: "(bytes \<times> char slice) list \<Rightarrow> bytes \<Rightarrow> (db_error + bytes) option" where
  "received es = map_of (map (\<lambda>(k, v). (k, Inr (elems v))) es)"

lemma received_simps [simp]:
  "received [] = Map.empty" "received ((k, v) # es) = (received es)(k \<mapsto> Inr (elems v))"
  by (simp_all add: received_def)

lemma dom_received: "dom (received es) = fst ` set es"
  by (force simp: received_def dom_map_of_conv_image_fst image_iff)

lemma ProcessAlignment_snd:
  "snd (ProcessAlignment bg nodes manifests db) = snd (align_manifests bg manifests (snd (align_nodes bg nodes db)))"
  by (simp add: ProcessAlignment_def Let_def case_prod_beta)

context badger_ok
begin

lemma align_nodes_other:
  "colon_free q \<Longrightarrow> q \<noteq> ns_active_nodes \<or> l \<notin> fst ` set es
     \<Longrightarrow> view bg (snd (align_nodes bg es db)) q l = view bg db q l"
proof (induction es arbitrary: db)
  case (Cons e es)
  then show ?case
    using store.put_other[of ns_active_nodes q l "fst e" db] by (cases e) (auto simp: align_nodes_Cons)
qed simp

lemma align_manifests_other:
  "colon_free q \<Longrightarrow> q \<noteq> ns_manifests \<or> l \<notin> fst ` set es
     \<Longrightarrow> view bg (snd (align_manifests bg es db)) q l = view bg db q l"
proof (induction es arbitrary: db)
  case (Cons e es)
  then show ?case
    using store.put_other[of ns_manifests q l "fst e" db] by (cases e) (auto simp: align_manifests_Cons)
qed simp

text \<open>A manifest that is there is never touched, whatever a peer sends.\<close>

lemma align_manifests_keeps:
  "view bg db ns_manifests l = Some r \<Longrightarrow> view bg (snd (align_manifests bg es db)) ns_manifests l = Some r"
proof (induction es arbitrary: db)
  case (Cons e es)
  obtain k v where e: "e = (k, v)" by (cases e)
  show ?case
  proof (cases "ExistsKey bg db ns_manifests k = Inr False \<and> k \<noteq> l")
    case True
    then have "view bg (snd (PutData bg db ns_manifests k (elems v))) ns_manifests l = Some r"
      using Cons.prems store.put_other[of ns_manifests ns_manifests l k db "elems v"] by auto
    then show ?thesis using Cons.IH True by (simp add: e align_manifests_Cons)
  next
    case False
    then have "ExistsKey bg db ns_manifests k \<noteq> Inr False"
      using Cons.prems by (auto simp: store.ex_cont split: sum.splits)
    then show ?thesis using Cons by (simp add: e align_manifests_Cons)
  qed
qed simp

end

context badger_reliable
begin

lemma align_nodes_view:
  "distinct (map fst es) \<Longrightarrow> view bg (snd (align_nodes bg es db)) ns_active_nodes
     = view bg db ns_active_nodes ++ received es"
proof (induction es arbitrary: db)
  case (Cons e es)
  obtain k v where e: "e = (k, v)" by (cases e)
  obtain db1 where p: "PutData bg db ns_active_nodes k (elems v) = (None, db1)" using put_reliable by blast
  have "k \<notin> dom (received es)"
    using Cons.prems by (simp add: e dom_received)
  then show ?case
    using Cons store.put_cont[OF p, of ns_active_nodes] by (auto simp: e p align_nodes_Cons fun_eq_iff map_add_def domIff split: option.split)
qed simp

lemma align_manifests_view:
  "distinct (map fst es) \<Longrightarrow> view bg (snd (align_manifests bg es db)) ns_manifests
     = received es ++ view bg db ns_manifests"
proof (induction es arbitrary: db)
  case (Cons e es)
  obtain k v where e: "e = (k, v)" by (cases e)
  have k: "received es k = None"
    using Cons.prems dom_received[of es] by (auto simp: e)
  show ?case
  proof (cases "view bg db ns_manifests k")
    case None
    obtain db1 where p: "PutData bg db ns_manifests k (elems v) = (None, db1)" using put_reliable by blast
    have "view bg db1 ns_manifests = (view bg db ns_manifests)(k \<mapsto> Inr (elems v))"
      using store.put_cont[OF p, of ns_manifests] by simp
    then show ?thesis
      using Cons None k by (auto simp: e p align_manifests_Cons store.ex_cont fun_eq_iff map_add_def split: option.split)
  next
    case (Some r)
    then have "ExistsKey bg db ns_manifests k \<noteq> Inr False" by (simp add: store.ex_cont split: sum.split)
    then show ?thesis
      using Cons Some by (auto simp: e align_manifests_Cons fun_eq_iff map_add_def split: option.split)
  qed
qed simp

text \<open>What a round of alignment leaves: nodes are overwritten, manifests only added.\<close>

lemma ProcessAlignment_view:
  fixes db
  assumes "distinct (map fst nodes)" "distinct (map fst manifests)"
  defines "db' \<equiv> snd (ProcessAlignment bg nodes manifests db)"
  shows "view bg db' ns_active_nodes = view bg db ns_active_nodes ++ received nodes"
    and "view bg db' ns_manifests = received manifests ++ view bg db ns_manifests"
    and "colon_free q \<Longrightarrow> q \<noteq> ns_active_nodes \<Longrightarrow> q \<noteq> ns_manifests \<Longrightarrow> view bg db' q = view bg db q"
proof -
  have "view bg (snd (align_nodes bg nodes db)) q = view bg db q" if "colon_free q" "q \<noteq> ns_active_nodes" for q
    using align_nodes_other that by (simp add: fun_eq_iff)
  moreover have "view bg (snd (align_manifests bg manifests db1)) q = view bg db1 q"
    if "colon_free q" "q \<noteq> ns_manifests" for q db1
    using align_manifests_other that by (simp add: fun_eq_iff)
  ultimately show "view bg db' ns_active_nodes = view bg db ns_active_nodes ++ received nodes"
    and "view bg db' ns_manifests = received manifests ++ view bg db ns_manifests"
    and "colon_free q \<Longrightarrow> q \<noteq> ns_active_nodes \<Longrightarrow> q \<noteq> ns_manifests \<Longrightarrow> view bg db' q = view bg db q"
    using assms by (simp_all add: ProcessAlignment_snd align_nodes_view align_manifests_view)
qed

text \<open>What is collected for a payload, as the receiver will read it.\<close>

lemma collect_data_map:
  "map_of (collect_data bg db p ks m) k =
     (if k \<in> set ks then (case view bg db p k of Some (Inr v) \<Rightarrow> Some (Some v) | _ \<Rightarrow> map_of m k) else map_of m k)"
proof (induction ks arbitrary: m)
  case (Cons k' ks)
  then show ?case
    using reads_work by (auto simp: store.get_cont view_def map_of_gm_put split: option.split sum.split)
qed simp

lemma received_collect: "received (collect_data bg db p ks []) = view bg db p |` set ks"
proof
  fix k
  have "received (collect_data bg db p ks []) k = map_option (\<lambda>v. Inr (elems v)) (map_of (collect_data bg db p ks []) k)"
    by (simp add: received_def map_of_map)
  then show "received (collect_data bg db p ks []) k = (view bg db p |` set ks) k"
    using reads_work[of db "makeKey p k"]
    by (auto simp: collect_data_map restrict_map_def view_def split: option.splits sum.splits)
qed

end

lemma collect_data_gomap: "gomap_ok m \<Longrightarrow> gomap_ok (collect_data bg db p ks m)"
  by (induction ks arbitrary: m) (auto simp: gm_put_ok split: sum.split)

lemma collect_data_keys: "fst ` set (collect_data bg db p ks m) \<subseteq> set ks \<union> fst ` set m"
proof (induction ks arbitrary: m)
  case (Cons k ks)
  show ?case
  proof (cases "GetData bg db p k")
    case (Inr v)
    then show ?thesis
      using Cons.IH[of "gm_put k (Some v) m"] gm_put_keys[of k "Some v" m] by auto
  qed (use Cons.IH[of m] in auto)
qed simp

lemma collect_data_ok_bmap: "(\<And>k. k \<in> set ks \<Longrightarrow> utf8_ok k) \<Longrightarrow> ok_bmap (Some (collect_data bg db p ks []))"
  using collect_data_keys[of bg db p ks "[]"] by (auto simp: ok_bmap_def collect_data_gomap list_all_iff)

text \<open>Filling the gaps of one map from another, in either role.\<close>

lemma fill_gaps:
  "m ++ (n |` (dom n - dom m)) = n ++ m"
  "(n |` (dom n - dom m)) ++ m = n ++ m"
  by (auto simp: fun_eq_iff map_add_def restrict_map_def dom_def split: option.split)

subsection \<open>Properties\<close>

text \<open>
  \<open>CompareKeys\<close> gives the remote keys that are not local and the local keys that are not
  remote, each in the order (and with the repetitions) of the list it comes from.
\<close>

theorem CompareKeys_difference:
  "elems (fst (CompareKeys ls rs)) = filter (\<lambda>k. k \<notin> set (elems ls)) (elems rs)
   \<and> elems (snd (CompareKeys ls rs)) = filter (\<lambda>k. k \<notin> set (elems rs)) (elems ls)"
  by (simp add: CompareKeys_filter)

lemma received_perm:
  "distinct (map fst es) \<Longrightarrow> distinct (map fst es') \<Longrightarrow> set es = set es' \<Longrightarrow> received es = received es'"
  unfolding received_def by (rule map_of_inject_set [THEN iffD2]) (simp_all add: o_def case_prod_beta)

text \<open>
  C23: Go ranges over the two maps of a payload in any order. On a store that works the content of
  every namespace after \<open>ProcessAlignment\<close> does not depend on the order: nodes are overwritten by
  the received records, manifests are added only where there was none.
\<close>

theorem ProcessAlignment_order:
  assumes "badger_reliable bg" "colon_free q"
    and "distinct (map fst nodes)" "distinct (map fst nodes')" "set nodes = set nodes'"
    and "distinct (map fst manifests)" "distinct (map fst manifests')" "set manifests = set manifests'"
  shows "view bg (snd (ProcessAlignment bg nodes manifests db)) q = view bg (snd (ProcessAlignment bg nodes' manifests' db)) q
    \<and> view bg (snd (ProcessAlignment bg nodes manifests db)) ns_active_nodes = view bg db ns_active_nodes ++ received nodes
    \<and> view bg (snd (ProcessAlignment bg nodes manifests db)) ns_manifests = received manifests ++ view bg db ns_manifests"
proof -
  note v = badger_reliable.ProcessAlignment_view[OF assms(1)]
  have r: "received nodes = received nodes'" "received manifests = received manifests'"
    using received_perm[OF assms(3-5)] received_perm[OF assms(6-8)] by auto
  have "view bg (snd (ProcessAlignment bg nodes manifests db)) q = view bg (snd (ProcessAlignment bg nodes' manifests' db)) q"
    by (cases "q = ns_active_nodes"; cases "q = ns_manifests")
      (simp_all add: v(1,2)[OF assms(3,6)] v(1,2)[OF assms(4,7)] v(3)[OF assms(3,6,2)] v(3)[OF assms(4,7,2)] r)
  then show ?thesis
    by (simp add: v(1,2)[OF assms(3,6)])
qed

theorem ProcessAlignment_order_witness:
  "view mem_badger (snd (ProcessAlignment mem_badger [(''x'', Some ''1''), (''y'', None)] [] RBT.empty)) ns_active_nodes
     = [''y'' \<mapsto> Inr [], ''x'' \<mapsto> Inr ''1'']"
proof -
  from ProcessAlignment_order[OF mem_reliable, of ns_active_nodes "[(''x'', Some ''1''), (''y'', None)]"
      "[(''y'', None), (''x'', Some ''1'')]" "[]" "[]" RBT.empty]
  have "view mem_badger (snd (ProcessAlignment mem_badger [(''x'', Some ''1''), (''y'', None)] [] RBT.empty)) ns_active_nodes
      = view mem_badger RBT.empty ns_active_nodes ++ received [(''x'', Some ''1''), (''y'', None)]"
    by auto
  moreover have "view mem_badger RBT.empty ns_active_nodes = Map.empty"
    by (simp add: fun_eq_iff mem_view)
  ultimately show ?thesis by simp
qed

text \<open>
  No alignment changes or removes a manifest that is there, whatever the payload of the peer
  holds, and even if operations of the store fail.
\<close>

theorem ProcessAlignment_keeps_manifests:
  assumes "badger_ok bg" "view bg db ns_manifests l = Some r"
  shows "view bg (snd (ProcessAlignment bg nodes manifests db)) ns_manifests l = Some r"
  unfolding ProcessAlignment_snd using assms(2)
  by (intro badger_ok.align_manifests_keeps[OF assms(1)]) (simp add: badger_ok.align_nodes_other[OF assms(1)])

theorem ProcessAlignment_keeps_manifests_witness:
  "view mem_badger (snd (ProcessAlignment mem_badger [] [(''f'', Some ''forged'')]
     (RBT.insert (makeKey ns_manifests ''f'') ''m'' RBT.empty))) ns_manifests ''f'' = Some (Inr ''m'')"
  by (rule ProcessAlignment_keeps_manifests[OF reliable_ok[OF mem_reliable]]) (simp add: mem_view)

end
