(* ===== verification/Go_Float.thy ===== *)
theory Go_Float
  imports Prelude
begin

text \<open>
  \<open>int(math.Ceil(float64(a) / float64(b)))\<close> as the hardware computes it: both integers are rounded
  to 53 significant bits, the quotient is rounded again (to nearest, ties to even), then the
  ceiling is taken and converted back. A division by zero and a result outside the range of
  \<open>int\<close> convert to a value that depends on the machine: the argument \<open>conv\<close>.
  Up to 2 to the 53 the result is the exact ceiling (\<open>ceil_div_exact\<close>).
\<close>

fun bits :: "nat \<Rightarrow> nat" where
  "bits n = (if n = 0 then 0 else Suc (bits (n div 2)))"

declare bits.simps [simp del]

definition round_quot :: "nat \<Rightarrow> nat \<Rightarrow> nat" where
  "round_quot p q = (let n = p div q; r = p mod q
     in if 2 * r < q \<or> (2 * r = q \<and> even n) then n else n + 1)"

definition to_float :: "nat \<Rightarrow> nat" where
  "to_float n = (if bits n \<le> 53 then n
     else (let s = bits n - 53 in round_quot n (2 ^ s) * 2 ^ s))"

text \<open>The rounded quotient of two positive floats, as \<open>m / 2 ^ s\<close>, for quotients of at least one.\<close>

definition quot_mantissa :: "nat \<Rightarrow> nat \<Rightarrow> nat \<times> nat" where
  "quot_mantissa p q = (let l = bits (p div q)
     in if l < 53 then (round_quot (p * 2 ^ (53 - l)) q, 53 - l)
        else (round_quot p (q * 2 ^ (l - 53)) * 2 ^ (l - 53), 0))"

definition ceil_quot :: "nat \<Rightarrow> nat \<Rightarrow> nat" where
  "ceil_quot p q = (if p = 0 then 0 else if p < q then 1
     else (case quot_mantissa p q of (m, s) \<Rightarrow> (m + 2 ^ s - 1) div 2 ^ s))"

definition floor_quot :: "nat \<Rightarrow> nat \<Rightarrow> nat" where
  "floor_quot p q = (if p < q then 0 else (case quot_mantissa p q of (m, s) \<Rightarrow> m div 2 ^ s))"

definition float_ceil_div :: "(int \<Rightarrow> int \<Rightarrow> int) \<Rightarrow> int \<Rightarrow> int \<Rightarrow> int" where
  "float_ceil_div conv a b =
     (let p = to_float (nat \<bar>a\<bar>); q = to_float (nat \<bar>b\<bar>);
          v = (if (a < 0) \<noteq> (b < 0) then - int (floor_quot p q) else int (ceil_quot p q))
      in if b = 0 then conv a b else if in_int64 v then v else conv a b)"

lemma bits_bounds: "0 < n \<Longrightarrow> 2 ^ (bits n - 1) \<le> n \<and> n < 2 ^ bits n"
proof (induction n rule: bits.induct)
  case (1 n)
  show ?case
  proof (cases "n div 2 = 0")
    case True
    then have "n = 1" using 1 by simp
    then show ?thesis by (simp add: bits.simps)
  next
    case False
    then have "2 ^ (bits (n div 2) - 1) \<le> n div 2" "n div 2 < 2 ^ bits (n div 2)" "bits (n div 2) \<noteq> 0"
      using 1 by (auto simp: bits.simps[of "n div 2"])
    moreover from this obtain k where "bits (n div 2) = Suc k" by (cases "bits (n div 2)") auto
    ultimately show ?thesis
      using 1 by (auto simp: bits.simps[of n])
  qed
qed

lemma bits_le: "n < 2 ^ k \<Longrightarrow> bits n \<le> k"
proof (rule ccontr)
  assume n: "n < 2 ^ k" and "\<not> bits n \<le> k"
  then have "0 < n" by (cases "n = 0") (auto simp: bits.simps)
  then have "2 ^ (bits n - 1) \<le> n" using bits_bounds by blast
  moreover have "(2 :: nat) ^ k \<le> 2 ^ (bits n - 1)"
    using \<open>\<not> bits n \<le> k\<close> by (intro power_increasing) auto
  ultimately show False using n by (meson leD order.trans)
qed

lemma round_quot_exact: "0 < q \<Longrightarrow> round_quot (k * q) q = k"
  by (simp add: round_quot_def)

lemma to_float_id: "n \<le> 2 ^ 53 \<Longrightarrow> to_float n = n"
proof (cases "n = 2 ^ 53")
  case True
  have "to_float (2 ^ 53) = 2 ^ 53" by (simp add: to_float_def bits.simps round_quot_def)
  with True show ?thesis by simp
next
  case False
  assume "n \<le> 2 ^ 53"
  with False have "bits n \<le> 53" by (intro bits_le) simp
  then show ?thesis by (simp add: to_float_def)
qed

text \<open>The rounded mantissa stays between the floor and the next integer, and is the floor only when that is exact.\<close>

lemma round_quot_between:
  fixes p q t :: nat
  assumes q: "0 < q" and t: "0 < t" and fine: "p mod q \<noteq> 0 \<Longrightarrow> q < 2 * t"
  shows "round_quot (p * t) q \<le> (p div q + 1) * t"
    and "p mod q = 0 \<Longrightarrow> round_quot (p * t) q = p div q * t"
    and "p mod q \<noteq> 0 \<Longrightarrow> p div q * t < round_quot (p * t) q"
proof -
  define n r where "n = p div q" and "r = p mod q"
  have pt: "p * t = r * t + (n * t) * q"
  proof -
    have "p = r + n * q" by (simp add: n_def r_def)
    then have "p * t = (r + n * q) * t" by (rule arg_cong)
    then show ?thesis by (simp add: algebra_simps)
  qed
  have dm: "(p * t) div q = n * t + r * t div q" "(p * t) mod q = r * t mod q"
    unfolding pt using q by simp_all
  have "r * t < q * t" using q t by (simp add: r_def)
  then have lt: "r * t div q < t" using q by (simp add: div_less_iff_less_mult mult.commute)
  show "round_quot (p * t) q \<le> (p div q + 1) * t"
    using lt unfolding n_def[symmetric] by (simp add: round_quot_def Let_def dm)
  show "p mod q = 0 \<Longrightarrow> round_quot (p * t) q = p div q * t"
    using q unfolding n_def[symmetric] r_def[symmetric] by (simp add: round_quot_def Let_def dm)
  show "p div q * t < round_quot (p * t) q" if "p mod q \<noteq> 0"
  proof (cases "r * t div q = 0")
    case True
    then have "r * t mod q = r * t" using q by (simp add: div_eq_0_iff)
    moreover have "q < 2 * (r * t)"
      using fine that r_def by (cases r) (auto intro: less_le_trans)
    ultimately show ?thesis unfolding n_def[symmetric] by (simp add: round_quot_def Let_def dm True)
  next
    case False
    then show ?thesis unfolding n_def[symmetric] by (simp add: round_quot_def Let_def dm)
  qed
qed

lemma ceil_div_between:
  fixes m n t :: nat
  assumes "0 < t" "n * t < m" "m \<le> (n + 1) * t"
  shows "(m + t - 1) div t = n + 1"
proof (rule div_nat_eqI)
  show "t * (n + 1) \<le> m + t - 1" using assms by (simp add: algebra_simps)
  show "m + t - 1 < t * Suc (n + 1)" using assms by (simp add: algebra_simps)
qed

lemma ceil_nat: "0 < (q :: nat) \<Longrightarrow> (p + q - 1) div q = p div q + (if p mod q = 0 then 0 else 1)"
proof (cases "p mod q = 0")
  case True
  assume "0 < q"
  obtain k where p: "p = q * k" using True by (auto simp: mod_eq_0_iff_dvd)
  have "(p + q - 1) div q = k"
    by (rule div_nat_eqI) (use \<open>0 < q\<close> in \<open>simp_all add: p\<close>)
  with p \<open>0 < q\<close> show ?thesis by simp
next
  case False
  assume q: "0 < q"
  have "p div q * q < p" using False div_mult_mod_eq[of p q] by (metis add_cancel_left_right le_neq_implies_less le_add1)
  moreover have "p \<le> (p div q + 1) * q" using q dividend_less_times_div[of q p] by (simp add: mult.commute)
  ultimately show ?thesis using ceil_div_between[OF q] False by simp
qed

lemma quotient_coarse:
  assumes "p \<le> 2 ^ 53" "p mod q \<noteq> 0" "q \<le> p" "bits (p div q) \<le> 53" "0 < q"
  shows "q < 2 * 2 ^ (53 - bits (p div q))"
proof -
  let ?l = "bits (p div q)"
  have n: "0 < p div q" using assms(3,5) by (simp add: div_greater_zero_iff)
  then have l: "2 ^ (?l - 1) \<le> p div q" "0 < ?l"
    using bits_bounds[of "p div q"] bits.simps[of "p div q"] by (blast, simp)
  have "p div q * q < p" using assms(2) div_mult_mod_eq[of p q] by (metis add_cancel_left_right le_neq_implies_less le_add1)
  then have "2 ^ (?l - 1) * q < 2 ^ 53" using l assms(1) by (meson le_less_trans less_le_trans mult_le_mono1)
  also have "(2 :: nat) ^ 53 = 2 ^ (?l - 1) * (2 * 2 ^ (53 - ?l))"
    using l assms(4) by (simp flip: power_Suc power_add)
  finally show ?thesis by simp
qed

lemma ceil_quot_exact:
  assumes "p \<le> 2 ^ 53" "0 < q" "q \<le> 2 ^ 53"
  shows "ceil_quot p q = (p + q - 1) div q"
proof (cases "p = 0 \<or> p < q")
  case True
  then show ?thesis using assms(2) ceil_nat[OF assms(2), of p] by (auto simp: ceil_quot_def)
next
  case False
  let ?l = "bits (p div q)"
  show ?thesis
  proof (cases "?l \<le> 53")
    case True
    let ?t = "2 ^ (53 - ?l) :: nat"
    have m: "quot_mantissa p q = (round_quot (p * ?t) q, 53 - ?l)"
      using True by (cases "?l = 53") (simp_all add: quot_mantissa_def Let_def)
    note b = round_quot_between[of q ?t p, OF assms(2)]
    have fine: "p mod q \<noteq> 0 \<Longrightarrow> q < 2 * ?t" using quotient_coarse[of p q] assms False True by simp
    show ?thesis
    proof (cases "p mod q = 0")
      case True
      then show ?thesis using b(2)[OF _ fine] False m ceil_nat[OF assms(2), of p] ceil_nat[of ?t "p div q * ?t"]
        by (simp add: ceil_quot_def)
    next
      case nz: False
      have "(round_quot (p * ?t) q + ?t - 1) div ?t = p div q + 1"
        by (rule ceil_div_between) (use b(1,3) fine nz in simp_all)
      then show ?thesis using False m nz ceil_nat[OF assms(2), of p] by (simp add: ceil_quot_def)
    qed
  next
    case False': False
    have "2 ^ 53 \<le> p div q"
      using False' bits_le[of "p div q" 53] by (meson not_le)
    moreover have "p div q \<le> p" by (rule div_le_dividend)
    ultimately have p: "p = 2 ^ 53" "p div q = p" using assms(1) by linarith+
    then have "q = 1" using assms(2) False div_less_dividend[of q p] by (cases "q = 1") auto
    with p show ?thesis
      by (simp add: ceil_quot_def quot_mantissa_def Let_def bits.simps round_quot_def)
  qed
qed

theorem ceil_div_exact:
  assumes "0 \<le> a" "a \<le> 2 ^ 53" "0 < b" "b \<le> 2 ^ 53"
  shows "float_ceil_div conv a b = (a + b - 1) div b"
proof -
  have n: "nat a \<le> 2 ^ 53" "nat b \<le> 2 ^ 53" "0 < nat b"
    using assms by (simp_all add: nat_le_iff)
  have "int (ceil_quot (nat a) (nat b)) = (a + b - 1) div b"
    using assms by (simp add: ceil_quot_exact[OF n(1,3,2)] zdiv_int nat_diff_distrib of_nat_diff)
  moreover from this have "in_int64 (int (ceil_quot (nat a) (nat b)))"
  proof -
    have "(a + b - 1) div b \<le> a + b - 1" using assms zdiv_mono2[of "a + b - 1" 1 b] by simp
    then show ?thesis using assms \<open>int (ceil_quot (nat a) (nat b)) = (a + b - 1) div b\<close> by (simp add: in_int64_def)
  qed
  ultimately show ?thesis
    using assms n by (simp add: float_ceil_div_def Let_def to_float_id)
qed

text \<open>A divisor of minus one negates.\<close>

lemma round_quot_one [simp]: "round_quot n 1 = n" "round_quot n (Suc 0) = n"
  by (simp_all add: round_quot_def)

lemma floor_quot_one:
  assumes "0 < p" "p \<le> 2 ^ 53"
  shows "floor_quot p 1 = p"
proof (cases "p = 2 ^ 53")
  case True
  have "bits (2 ^ 53) = 54" by (simp add: bits.simps)
  then show ?thesis using True by (simp add: floor_quot_def quot_mantissa_def Let_def round_quot_def)
next
  case False
  then have "bits p \<le> 53" using assms(2) by (intro bits_le) simp
  then show ?thesis using assms(1) by (simp add: floor_quot_def quot_mantissa_def Let_def)
qed

lemma ceil_div_minus_one:
  assumes "0 < a" "a \<le> 2 ^ 53"
  shows "float_ceil_div conv a (- 1) = - a"
proof -
  have "to_float (nat a) = nat a" using to_float_id[of "nat a"] assms by simp
  moreover have "to_float 1 = 1" using to_float_id[of 1] by simp
  ultimately show ?thesis
    using floor_quot_one[of "nat a"] assms by (auto simp: float_ceil_div_def Let_def in_int64_def)
qed

end
