(* ===== verification/Bootstrap_Api.thy ===== *)
theory Bootstrap_Api
  imports Synchronization Go_Float
begin

text \<open>
  \<open>internal/api/bootstrap_api.go\<close> and the routes of \<open>cmd/k-bootstrap/main.go\<close>: the registry of
  active nodes, the manifests and the two synchronisation endpoints. A handler takes the request
  and the store and returns the response with the new store; a panic (which \<open>net/http\<close> turns into
  a dropped connection) is \<open>Inl\<close>. Every handler decodes the body and ignores the decoding error,
  re-encodes the request without its signature and checks the signature under the public key that
  came with the request.
\<close>

definition body_of :: "'a dec \<Rightarrow> 'a \<Rightarrow> request \<Rightarrow> 'a" where
  "body_of d z req = fst (decode_stream d z (req_Body req))"

abbreviation unauthorized :: response where
  "unauthorized \<equiv> http_Error ''Unauthorized'' 401"

subsection \<open>Registry\<close>

definition SubsribeNode :: "'db env \<Rightarrow> int \<Rightarrow> request \<Rightarrow> 'db \<Rightarrow> response \<times> 'db" where
  "SubsribeNode env now req db =
     (let subscription = body_of dec_SubscriptionRequest zero_SubscriptionRequest req;
          message = marshal enc_SubscriptionRequest (subscription\<lparr>sub_Signature := None\<rparr>)
      in if check env message (sub_Signature subscription) (sub_PublicKey subscription) then
           (let payload = marshal enc_ActiveNodeRecord
                  \<lparr>anr_PublicKey = sub_PublicKey subscription, anr_Timestamp = now\<rparr>;
                db1 = snd (PutData (env_bg env) db ns_active_nodes (sub_Address subscription) payload)
            in (respond [] [], db1))
         else (unauthorized, db))"

text \<open>The slice expression \<open>allDBNodes[:n]\<close> panics for a negative bound.\<close>

definition RequestNodesForFileUploadAPI ::
  "'db env \<Rightarrow> (int \<Rightarrow> int \<Rightarrow> int) \<Rightarrow> request \<Rightarrow> 'db \<Rightarrow> response res" where
  "RequestNodesForFileUploadAPI env conv req db =
     (let request = body_of dec_NodesForFileUploadRequest zero_NodesForFileUploadRequest req;
          message = marshal enc_NodesForFileUploadRequest (request\<lparr>nfu_Signature := None\<rparr>)
      in if check env message (nfu_Signature request) (nfu_PublicKey request) then
           (let allDBNodes = GetAllKeys (env_bg env) db ns_active_nodes;
                nodesToPickup = float_ceil_div conv (nfu_TotalChunks request) (nfu_NodesPerChunk request)
            in if int (length (elems allDBNodes)) \<le> nodesToPickup
               then Inr (respond [] (marshal (enc_slice JStr) allDBNodes))
               else if nodesToPickup < 0 then Inl (Panic ''slice bounds out of range'')
               else Inr (respond [] (marshal (enc_slice JStr)
                      (Some (take (nat nodesToPickup) (elems allDBNodes))))))
         else Inr unauthorized)"

subsection \<open>Manifests\<close>

definition InsertFileManifest :: "'db env \<Rightarrow> request \<Rightarrow> 'db \<Rightarrow> response \<times> 'db" where
  "InsertFileManifest env req db =
     (let request = body_of dec_FileManifestRequest zero_FileManifestRequest req;
          manifestBytes = marshal enc_FileManifest (fmr_Manifest request);
          hashToVerify = sha256 (env_C env) manifestBytes
      in if check env hashToVerify (fmr_Signature request) (fmr_PublicKey request) then
           (let db1 = snd (PutData (env_bg env) db ns_manifests (man_FileId (fmr_Manifest request)) manifestBytes)
            in (respond [] [], db1))
         else (unauthorized, db))"

text \<open>A manifest that is missing gives the empty body, with status 200.\<close>

definition DownloadFileManifest :: "'db env \<Rightarrow> request \<Rightarrow> 'db \<Rightarrow> response" where
  "DownloadFileManifest env req db =
     (let request = body_of dec_GetFileManifestRequest zero_GetFileManifestRequest req;
          message = marshal enc_GetFileManifestRequest (request\<lparr>gfm_Signature := None\<rparr>)
      in if check env message (gfm_Signature request) (gfm_PublicKey request) then
           (case GetData (env_bg env) db ns_manifests (gfm_FileId request) of
              Inl _ \<Rightarrow> respond [] []
            | Inr dbData \<Rightarrow> respond [] dbData)
         else unauthorized)"

definition DeleteFileManifest :: "'db env \<Rightarrow> request \<Rightarrow> 'db \<Rightarrow> response \<times> 'db" where
  "DeleteFileManifest env req db =
     (let request = body_of dec_GetFileManifestRequest zero_GetFileManifestRequest req;
          message = marshal enc_GetFileManifestRequest (request\<lparr>gfm_Signature := None\<rparr>)
      in if check env message (gfm_Signature request) (gfm_PublicKey request) then
           (let db1 = snd (DeleteKey (env_bg env) db ns_manifests (gfm_FileId request))
            in (respond [] [], db1))
         else (unauthorized, db))"

subsection \<open>Synchronisation\<close>

definition SyncDigestHandler :: "'db env \<Rightarrow> request \<Rightarrow> 'db \<Rightarrow> response" where
  "SyncDigestHandler env req db =
     (let digest = body_of dec_SyncDigest zero_SyncDigest req;
          message = marshal enc_SyncDigest (digest\<lparr>dig_Signature := None\<rparr>)
      in if \<not> check env message (dig_Signature digest) (dig_PublicKey digest) then unauthorized
         else
           (let localNodeKeys = GetAllKeys (env_bg env) db ns_active_nodes;
                localManifestKeys = GetAllKeys (env_bg env) db ns_manifests;
                (missingNodesInLocal, missingNodesInRemote) = CompareKeys localNodeKeys (dig_NodeKeys digest);
                (missingManifestsInLocal, missingManifestsInRemote) = CompareKeys localManifestKeys (dig_ManifestKeys digest);
                payload = \<lparr>pay_Address = self_address (env_cfg env),
                  pay_PublicKey = cfg_PublicKey (env_cfg env), pay_Signature = None,
                  pay_ActiveNodes = Some (collect_data (env_bg env) db ns_active_nodes (elems missingNodesInRemote) []),
                  pay_FileManifests = Some (collect_data (env_bg env) db ns_manifests (elems missingManifestsInRemote) []),
                  pay_RequestedNodes = missingNodesInLocal,
                  pay_RequestedManifests = missingManifestsInLocal\<rparr>;
                signature = sign_or_nil env (marshal enc_SyncPayload payload)
            in respond [(''Content-Type'', ''application/json'')]
                 (marshal enc_SyncPayload (payload\<lparr>pay_Signature := signature\<rparr>))))"

text \<open>
  \<open>go service.ProcessAlignment(...)\<close>: the handler answers at once and leaves the alignment to a
  goroutine, here a task with the two maps; \<open>run_task\<close> is what the goroutine does when it runs.
\<close>

datatype task = Align "(bytes \<times> char slice) list" "(bytes \<times> char slice) list"

fun run_task :: "'db env \<Rightarrow> task \<Rightarrow> 'db \<Rightarrow> 'db" where
  "run_task env (Align nodes manifests) db = snd (ProcessAlignment (env_bg env) nodes manifests db)"

definition SyncPushHandler :: "'db env \<Rightarrow> request \<Rightarrow> response \<times> task list" where
  "SyncPushHandler env req =
     (let payload = body_of dec_SyncPayload zero_SyncPayload req;
          message = marshal enc_SyncPayload (payload\<lparr>pay_Signature := None\<rparr>)
      in if check env message (pay_Signature payload) (pay_PublicKey payload)
         then (respond [] [], [Align (elems (pay_ActiveNodes payload)) (elems (pay_FileManifests payload))])
         else (unauthorized, []))"

subsection \<open>Metrics\<close>

text \<open>
  What the handler asks of the machine: the sizes Badger reports, and block counts of the file
  system if \<open>Statfs\<close> works. The byte counts are \<open>uint64\<close>.
\<close>

record machine =
  mch_db_size :: "int \<times> int"
  mch_statfs :: "(int \<times> int \<times> int) option"

definition wrap_u64 :: "int \<Rightarrow> int" where
  "wrap_u64 i = i mod 2 ^ 64"

definition disk_bytes :: "machine \<Rightarrow> int \<times> int \<times> int" where
  "disk_bytes m = (case mch_statfs m of None \<Rightarrow> (0, 0, 0)
     | Some (blocks, bavail, bsize) \<Rightarrow>
         (let totalSpace = wrap_u64 (blocks * bsize); availableSpace = wrap_u64 (bavail * bsize)
          in (totalSpace, availableSpace, wrap_u64 (totalSpace - availableSpace))))"

definition storage_json :: "machine \<Rightarrow> json" where
  "storage_json m = (let (total, avail, used) = disk_bytes m in JObj
     [(''database_used_bytes'', enc_int (wrap64 (fst (mch_db_size m) + snd (mch_db_size m)))),
      (''disk_free_bytes'', enc_int avail), (''disk_total_bytes'', enc_int total),
      (''disk_used_bytes'', enc_int used)])"

definition trim_prefix :: "bytes \<Rightarrow> bytes \<Rightarrow> bytes" where
  "trim_prefix p s = (if take (length p) s = p then drop (length p) s else s)"

definition GetBootstrapMetrics :: "'db env \<Rightarrow> machine \<Rightarrow> request \<Rightarrow> 'db \<Rightarrow> response" where
  "GetBootstrapMetrics env m req db =
     (if req_Method req \<noteq> ''GET'' then http_Error ''Only GET method allowed!'' 405
      else
        (let nodes = elems (GetAllKeys (env_bg env) db ns_active_nodes);
             nodeAddresses = appended (map (trim_prefix ''active_nodes_'') nodes);
             totalFiles = length (elems (GetAllKeys (env_bg env) db ns_manifests))
         in respond [(''Content-Type'', ''application/json'')] (render (JObj
              [(''network'', JObj [(''active_nodes'', enc_int (int (length nodes))),
                  (''node_addresses'', enc_slice JStr nodeAddresses),
                  (''total_files'', enc_int (int totalFiles))]),
               (''status'', JStr ''online''),
               (''storage'', storage_json m)]))))"

subsection \<open>Routes\<close>

text \<open>What the handlers take from outside: the clock in nanoseconds, the conversion of \<open>Go_Float\<close>, the machine.\<close>

record outside =
  out_now :: int
  out_conv :: "int \<Rightarrow> int \<Rightarrow> int"
  out_machine :: machine

definition ref_out :: outside where
  "ref_out = \<lparr>out_now = 0, out_conv = (\<lambda>_ _. 0), out_machine = \<lparr>mch_db_size = (0, 0), mch_statfs = None\<rparr>\<rparr>"

text \<open>
  The routes, matched exactly, with the tasks a request leaves to goroutines. That \<open>ServeMux\<close> cleans a
  path with empty or dotted elements and answers with a redirect, which calls no handler, is not
  modelled: here such a path is unknown.
\<close>

definition bootstrap_mux ::
  "'db env \<Rightarrow> outside \<Rightarrow> request \<Rightarrow> 'db \<Rightarrow> response res \<times> 'db \<times> task list" where
  "bootstrap_mux env out req db =
     (let path = req_Path req; method = req_Method req in
      if path = ''/subscribe'' then (case SubsribeNode env (out_now out) req db of (r, db1) \<Rightarrow> (Inr r, db1, []))
      else if path = ''/sync/digest'' then (Inr (SyncDigestHandler env req db), db, [])
      else if path = ''/sync/push'' then (case SyncPushHandler env req of (r, ts) \<Rightarrow> (Inr r, db, ts))
      else if path = ''/file/nodes'' then (RequestNodesForFileUploadAPI env (out_conv out) req db, db, [])
      else if path = ''/file/manifest'' then (case InsertFileManifest env req db of (r, db1) \<Rightarrow> (Inr r, db1, []))
      else if path = ''/manifests'' then
        (if method = ''POST'' then (Inr (DownloadFileManifest env req db), db, [])
         else if method = ''DELETE'' then (case DeleteFileManifest env req db of (r, db1) \<Rightarrow> (Inr r, db1, []))
         else (Inr (respond [] []), db, []))
      else if path = ''/metrics'' then (Inr (GetBootstrapMetrics env (out_machine out) req db), db, [])
      else (Inr (http_Error ''404 page not found'' 404), db, []))"

subsection \<open>Signatures decide\<close>

text \<open>
  What each route demands: the request without its signature, or the hash of the manifest, is
  signed under the public key in the request. The metrics and unknown paths demand nothing.
\<close>

definition auth_subscribe :: "'db env \<Rightarrow> request \<Rightarrow> bool" where
  "auth_subscribe env req = (let x = body_of dec_SubscriptionRequest zero_SubscriptionRequest req in
     check env (marshal enc_SubscriptionRequest (x\<lparr>sub_Signature := None\<rparr>)) (sub_Signature x) (sub_PublicKey x))"

definition auth_digest :: "'db env \<Rightarrow> request \<Rightarrow> bool" where
  "auth_digest env req = (let x = body_of dec_SyncDigest zero_SyncDigest req in
     check env (marshal enc_SyncDigest (x\<lparr>dig_Signature := None\<rparr>)) (dig_Signature x) (dig_PublicKey x))"

definition auth_push :: "'db env \<Rightarrow> request \<Rightarrow> bool" where
  "auth_push env req = (let x = body_of dec_SyncPayload zero_SyncPayload req in
     check env (marshal enc_SyncPayload (x\<lparr>pay_Signature := None\<rparr>)) (pay_Signature x) (pay_PublicKey x))"

definition auth_nodes :: "'db env \<Rightarrow> request \<Rightarrow> bool" where
  "auth_nodes env req = (let x = body_of dec_NodesForFileUploadRequest zero_NodesForFileUploadRequest req in
     check env (marshal enc_NodesForFileUploadRequest (x\<lparr>nfu_Signature := None\<rparr>)) (nfu_Signature x) (nfu_PublicKey x))"

definition auth_manifest :: "'db env \<Rightarrow> request \<Rightarrow> bool" where
  "auth_manifest env req = (let x = body_of dec_FileManifestRequest zero_FileManifestRequest req in
     check env (sha256 (env_C env) (marshal enc_FileManifest (fmr_Manifest x))) (fmr_Signature x) (fmr_PublicKey x))"

definition auth_file :: "'db env \<Rightarrow> request \<Rightarrow> bool" where
  "auth_file env req = (let x = body_of dec_GetFileManifestRequest zero_GetFileManifestRequest req in
     check env (marshal enc_GetFileManifestRequest (x\<lparr>gfm_Signature := None\<rparr>)) (gfm_Signature x) (gfm_PublicKey x))"

definition authorised :: "'db env \<Rightarrow> request \<Rightarrow> bool" where
  "authorised env req =
     (let path = req_Path req in
      if path = ''/subscribe'' then auth_subscribe env req
      else if path = ''/sync/digest'' then auth_digest env req
      else if path = ''/sync/push'' then auth_push env req
      else if path = ''/file/nodes'' then auth_nodes env req
      else if path = ''/file/manifest'' then auth_manifest env req
      else if path = ''/manifests'' \<and> (req_Method req = ''POST'' \<or> req_Method req = ''DELETE'')
        then auth_file env req
      else True)"

lemma handlers_unauthorised:
  "\<not> auth_subscribe env req \<Longrightarrow> SubsribeNode env now req db = (unauthorized, db)"
  "\<not> auth_digest env req \<Longrightarrow> SyncDigestHandler env req db = unauthorized"
  "\<not> auth_push env req \<Longrightarrow> SyncPushHandler env req = (unauthorized, [])"
  "\<not> auth_nodes env req \<Longrightarrow> RequestNodesForFileUploadAPI env conv req db = Inr unauthorized"
  "\<not> auth_manifest env req \<Longrightarrow> InsertFileManifest env req db = (unauthorized, db)"
  "\<not> auth_file env req \<Longrightarrow> DownloadFileManifest env req db = unauthorized"
  "\<not> auth_file env req \<Longrightarrow> DeleteFileManifest env req db = (unauthorized, db)"
  by (simp_all add: auth_subscribe_def auth_digest_def auth_push_def auth_nodes_def auth_manifest_def auth_file_def
      SubsribeNode_def SyncDigestHandler_def SyncPushHandler_def RequestNodesForFileUploadAPI_def
      InsertFileManifest_def DownloadFileManifest_def DeleteFileManifest_def Let_def)

text \<open>What the handlers do to the store.\<close>

lemma handlers_store:
  "snd (SubsribeNode env now req db) = db \<or> (\<exists>v. snd (SubsribeNode env now req db)
     = snd (PutData (env_bg env) db ns_active_nodes (sub_Address (body_of dec_SubscriptionRequest zero_SubscriptionRequest req)) v))"
  "snd (InsertFileManifest env req db) = db \<or> (\<exists>v. snd (InsertFileManifest env req db)
     = snd (PutData (env_bg env) db ns_manifests (man_FileId (fmr_Manifest (body_of dec_FileManifestRequest zero_FileManifestRequest req))) v))"
  "snd (DeleteFileManifest env req db) = db \<or> snd (DeleteFileManifest env req db)
     = snd (DeleteKey (env_bg env) db ns_manifests (gfm_FileId (body_of dec_GetFileManifestRequest zero_GetFileManifestRequest req)))"
  by (auto simp: SubsribeNode_def InsertFileManifest_def DeleteFileManifest_def Let_def)

lemma unauthorised_same: "\<not> authorised env req \<Longrightarrow> bootstrap_mux env out req db = (Inr unauthorized, db, [])"
  by (auto simp: authorised_def bootstrap_mux_def handlers_unauthorised Let_def split: if_splits)

text \<open>
  C16: a request to a signed route without a valid signature is answered 401, changes nothing in
  the store and starts no alignment task.
\<close>

theorem mux_unauthorised:
  assumes "\<not> authorised env req"
  shows "bootstrap_mux env out req db = (Inr unauthorized, db, [])"
  using assms by (rule unauthorised_same)

theorem mux_unauthorised_witness:
  "bootstrap_mux (ref_env ''a'' []) ref_out
     \<lparr>req_Method = ''POST'', req_Path = ''/subscribe'', req_Query = (\<lambda>_. []), req_Body = []\<rparr> RBT.empty
   = (Inr unauthorized, RBT.empty, [])"
  by (rule mux_unauthorised)
    (simp add: authorised_def auth_subscribe_def body_of_def decode_stream_empty zero_SubscriptionRequest_def
      check_def check_signature_def VerifySignature_def ref_crypto_def)

text \<open>The entries a request may touch.\<close>

definition touched :: "request \<Rightarrow> (bytes \<times> bytes) set" where
  "touched req =
     (if req_Path req = ''/subscribe''
      then {(ns_active_nodes, sub_Address (body_of dec_SubscriptionRequest zero_SubscriptionRequest req))}
      else if req_Path req = ''/file/manifest''
      then {(ns_manifests, man_FileId (fmr_Manifest (body_of dec_FileManifestRequest zero_FileManifestRequest req)))}
      else if req_Path req = ''/manifests'' \<and> req_Method req = ''DELETE''
      then {(ns_manifests, gfm_FileId (body_of dec_GetFileManifestRequest zero_GetFileManifestRequest req))}
      else {})"

lemma mux_store:
  "fst (snd (bootstrap_mux env out req db)) =
     (if req_Path req = ''/subscribe'' then snd (SubsribeNode env (out_now out) req db)
      else if req_Path req = ''/file/manifest'' then snd (InsertFileManifest env req db)
      else if req_Path req = ''/manifests'' \<and> req_Method req = ''DELETE'' then snd (DeleteFileManifest env req db)
      else db)"
  by (simp add: bootstrap_mux_def Let_def case_prod_beta)

lemma mux_frame_lemma:
  assumes "badger_ok (env_bg env)" "colon_free q" "(q, l) \<notin> touched req"
  shows "view (env_bg env) (fst (snd (bootstrap_mux env out req db))) q l = view (env_bg env) db q l"
proof -
  note put = badger_ok.view_put_other[OF assms(1)] and del = badger_ok.view_del_other[OF assms(1)]
  show ?thesis
    using assms(2,3) handlers_store(1)[of env "out_now out" req db] handlers_store(2,3)[of env req db]
    by (auto simp: touched_def mux_store put del split: if_splits)
qed

text \<open>The entries a pushed payload names; its alignment runs after the answer, on whatever the store is then.\<close>

definition pushed :: "request \<Rightarrow> (bytes \<times> bytes) set" where
  "pushed req = (if req_Path req = ''/sync/push''
     then (let payload = body_of dec_SyncPayload zero_SyncPayload req in
       Pair ns_active_nodes ` fst ` set (elems (pay_ActiveNodes payload))
       \<union> Pair ns_manifests ` fst ` set (elems (pay_FileManifests payload)))
     else {})"

lemma mux_starts:
  "t \<in> set (snd (snd (bootstrap_mux env out req db))) \<Longrightarrow> req_Path req = ''/sync/push'' \<and> authorised env req
     \<and> (let payload = body_of dec_SyncPayload zero_SyncPayload req
        in t = Align (elems (pay_ActiveNodes payload)) (elems (pay_FileManifests payload)))"
  by (auto simp: bootstrap_mux_def SyncPushHandler_def authorised_def auth_push_def Let_def case_prod_beta split: if_splits)

lemma alignment_frame:
  assumes "badger_ok (env_bg env)" "colon_free q"
    and "view (env_bg env) (run_task env (Align nodes manifests) db) q l \<noteq> view (env_bg env) db q l"
  shows "q = ns_active_nodes \<and> l \<in> fst ` set nodes
    \<or> q = ns_manifests \<and> l \<in> fst ` set manifests \<and> view (env_bg env) db q l = None"
proof -
  let ?n = "snd (align_nodes (env_bg env) nodes db)"
  note nodes = badger_ok.align_nodes_other[OF assms(1,2), of l nodes db]
  have ch: "view (env_bg env) (snd (align_manifests (env_bg env) manifests ?n)) q l \<noteq> view (env_bg env) db q l"
    using assms(3) by (simp add: ProcessAlignment_snd)
  show ?thesis
  proof (cases "q = ns_active_nodes \<and> l \<in> fst ` set nodes")
    case False
    then have n: "view (env_bg env) ?n q l = view (env_bg env) db q l" using nodes by blast
    then have q: "q = ns_manifests" "l \<in> fst ` set manifests"
      using ch badger_ok.align_manifests_other[OF assms(1,2), of l manifests ?n] by metis+
    moreover have "view (env_bg env) db q l = None"
      using ch n q(1) badger_ok.align_manifests_keeps[OF assms(1), of ?n l] by (metis not_None_eq)
    ultimately show ?thesis by blast
  qed blast
qed

text \<open>
  C22: what a request can change. Its handler changes at most the one entry the request names, the
  registry record of the subscriber or the manifest with the file id in the body, and only if the
  signature is valid. The alignment it may leave behind changes, on whatever store it runs later,
  at most the entries named in the payload of a validly signed push, and of the manifests only
  those that are missing.
\<close>

theorem mux_frame:
  assumes "badger_ok (env_bg env)" "colon_free q" "bootstrap_mux env out req db = (rsp, db1, tasks)"
  shows "(view (env_bg env) db1 q l \<noteq> view (env_bg env) db q l \<longrightarrow> authorised env req \<and> (q, l) \<in> touched req)
    \<and> (\<forall>task \<in> set tasks. \<forall>later. view (env_bg env) (run_task env task later) q l \<noteq> view (env_bg env) later q l
        \<longrightarrow> authorised env req \<and> (q, l) \<in> pushed req \<and> (q = ns_manifests \<longrightarrow> view (env_bg env) later q l = None))"
proof (intro conjI ballI allI impI)
  assume "view (env_bg env) db1 q l \<noteq> view (env_bg env) db q l"
  then show "authorised env req" "(q, l) \<in> touched req"
    using mux_frame_lemma[OF assms(1,2), of l req out db] unauthorised_same[of env req out db] assms(3) by auto
next
  fix task later assume t: "task \<in> set tasks"
    and ch: "view (env_bg env) (run_task env task later) q l \<noteq> view (env_bg env) later q l"
  let ?p = "body_of dec_SyncPayload zero_SyncPayload req"
  have p: "req_Path req = ''/sync/push''" "authorised env req" "task = Align (elems (pay_ActiveNodes ?p)) (elems (pay_FileManifests ?p))"
    using mux_starts[of task env out req db] t assms(3) by (simp_all add: Let_def)
  have "q = ns_active_nodes \<and> l \<in> fst ` set (elems (pay_ActiveNodes ?p))
      \<or> q = ns_manifests \<and> l \<in> fst ` set (elems (pay_FileManifests ?p)) \<and> view (env_bg env) later q l = None"
    by (rule alignment_frame[OF assms(1,2) ch[unfolded p(3)]])
  then show "authorised env req" "(q, l) \<in> pushed req" "q = ns_manifests \<Longrightarrow> view (env_bg env) later q l = None"
    using p(1,2) by (auto simp: pushed_def Let_def)
qed

text \<open>A push that anybody can sign: the key is in the body.\<close>

lemma ref_push:
  assumes "ok_SyncPayload p" "pay_Signature p = None" "pay_PublicKey p = cfg_PublicKey (env_cfg (ref_env host servers))"
  obtains req sg where "req_Path req = ''/sync/push''" "auth_push (ref_env host servers) req"
    "body_of dec_SyncPayload zero_SyncPayload req = p\<lparr>pay_Signature := sg\<rparr>"
proof -
  obtain s where s: "check (ref_env host servers) (marshal enc_SyncPayload p) (Some s) (pay_PublicKey p)"
    using ref_env_sign assms(3) by metis
  let ?p = "p\<lparr>pay_Signature := Some s\<rparr>"
  let ?req = "\<lparr>req_Method = ''POST'', req_Path = ''/sync/push'', req_Query = (\<lambda>_. []), req_Body = marshal enc_SyncPayload ?p\<rparr>"
  have "ok_SyncPayload ?p" using assms(1) by (simp add: ok_SyncPayload_def)
  then have "decode_stream dec_SyncPayload zero_SyncPayload (req_Body ?req) = (?p, True)"
    by (simp add: pay.stream_marshal_end)
  then have b: "body_of dec_SyncPayload zero_SyncPayload ?req = ?p" unfolding body_of_def by simp
  have "p\<lparr>pay_Signature := None\<rparr> = p" using assms(2) by simp
  then have "auth_push (ref_env host servers) ?req" unfolding auth_push_def b using s by (simp add: Let_def)
  then show thesis using that[of ?req "Some s"] b by simp
qed

text \<open>A validly signed push that names the stored manifest \<open>f\<close>: it stays as it is.\<close>

theorem mux_frame_witness:
  "\<exists>req rsp db1 task. authorised (ref_env ''a'' []) req \<and> (ns_manifests, ''f'') \<in> pushed req
    \<and> bootstrap_mux (ref_env ''a'' []) ref_out req (RBT.insert (makeKey ns_manifests ''f'') ''m'' RBT.empty) = (rsp, db1, [task])
    \<and> view mem_badger (run_task (ref_env ''a'' []) task db1) ns_manifests ''f'' = Some (Inr ''m'')"
proof -
  let ?e = "ref_env ''a'' []" and ?db = "RBT.insert (makeKey ns_manifests ''f'') ''m'' RBT.empty"
  let ?p = "zero_SyncPayload\<lparr>pay_PublicKey := cfg_PublicKey (env_cfg ?e), pay_FileManifests := Some [(''f'', Some ''forged'')]\<rparr>"
  have p: "ok_SyncPayload ?p" "pay_Signature ?p = None" "pay_PublicKey ?p = cfg_PublicKey (env_cfg ?e)"
    by (simp_all add: ok_SyncPayload_def zero_SyncPayload_def ok_bmap_def gomap_ok_Cons)
  obtain req sg where r: "req_Path req = ''/sync/push''" "auth_push ?e req"
      "body_of dec_SyncPayload zero_SyncPayload req = ?p\<lparr>pay_Signature := sg\<rparr>"
    by (rule ref_push[OF p])
  let ?task = "Align [] [(''f'', Some ''forged'')]"
  have auth: "authorised ?e req" using r(1,2) by (simp add: authorised_def)
  have push: "(ns_manifests, ''f'') \<in> pushed req" using r(1,3) by (simp add: pushed_def Let_def zero_SyncPayload_def)
  have mux: "bootstrap_mux ?e ref_out req ?db = (Inr (respond [] []), ?db, [?task])"
    using r by (simp add: bootstrap_mux_def SyncPushHandler_def auth_push_def Let_def zero_SyncPayload_def)
  have "view (env_bg ?e) ?db ns_manifests ''f'' = Some (Inr ''m'')" by (simp add: mem_view)
  moreover have "\<forall>later. view (env_bg ?e) (run_task ?e ?task later) ns_manifests ''f'' \<noteq> view (env_bg ?e) later ns_manifests ''f''
      \<longrightarrow> view (env_bg ?e) later ns_manifests ''f'' = None"
    using mux_frame[of ?e ns_manifests, OF _ _ mux, of "''f''"] by (simp add: reliable_ok mem_reliable del: run_task.simps)
  ultimately have "view (env_bg ?e) (run_task ?e ?task ?db) ns_manifests ''f'' = Some (Inr ''m'')"
    by (metis option.distinct(1))
  then show ?thesis using auth push mux by auto
qed

text \<open>
  An authorised request for nodes with a \<open>nodes_per_chunk\<close> of minus one makes the handler panic,
  whatever is registered: the count it computes is negative and is used as a slice bound.
\<close>

theorem negative_nodes_per_chunk_panics:
  assumes "auth_nodes env req"
    and "nfu_NodesPerChunk (body_of dec_NodesForFileUploadRequest zero_NodesForFileUploadRequest req) = - 1"
    and "0 < nfu_TotalChunks (body_of dec_NodesForFileUploadRequest zero_NodesForFileUploadRequest req)"
    and "nfu_TotalChunks (body_of dec_NodesForFileUploadRequest zero_NodesForFileUploadRequest req) \<le> 2 ^ 53"
  shows "RequestNodesForFileUploadAPI env conv req db = Inl (Panic ''slice bounds out of range'')"
proof -
  let ?x = "body_of dec_NodesForFileUploadRequest zero_NodesForFileUploadRequest req"
  have "float_ceil_div conv (nfu_TotalChunks ?x) (nfu_NodesPerChunk ?x) = - nfu_TotalChunks ?x"
    using ceil_div_minus_one[OF assms(3,4)] assms(2) by simp
  then show ?thesis
    using assms(1,3) by (simp add: RequestNodesForFileUploadAPI_def auth_nodes_def Let_def)
qed

theorem negative_nodes_per_chunk_panics_witness:
  "\<exists>req. RequestNodesForFileUploadAPI (ref_env ''a'' []) (\<lambda>_ _. 0) req RBT.empty = Inl (Panic ''slice bounds out of range'')"
proof -
  let ?e = "ref_env ''a'' []"
  let ?x = "\<lparr>nfu_Address = [], nfu_PublicKey = cfg_PublicKey (env_cfg ?e), nfu_Signature = None,
    nfu_TotalChunks = 15, nfu_NodesPerChunk = - 1\<rparr>"
  obtain s where s: "check ?e (marshal enc_NodesForFileUploadRequest ?x) (Some s) (cfg_PublicKey (env_cfg ?e))"
    using ref_env_sign by blast
  let ?req = "\<lparr>req_Method = ''POST'', req_Path = ''/file/nodes'', req_Query = (\<lambda>_. []),
    req_Body = marshal enc_NodesForFileUploadRequest (?x\<lparr>nfu_Signature := Some s\<rparr>)\<rparr>"
  have "decode_stream dec_NodesForFileUploadRequest zero_NodesForFileUploadRequest (req_Body ?req)
      = (?x\<lparr>nfu_Signature := Some s\<rparr>, True)"
    by (simp add: nfu.stream_marshal_end ok_NodesForFileUploadRequest_def in_int64_def)
  then have b: "body_of dec_NodesForFileUploadRequest zero_NodesForFileUploadRequest ?req = ?x\<lparr>nfu_Signature := Some s\<rparr>"
    unfolding body_of_def by simp
  have "auth_nodes ?e ?req" unfolding auth_nodes_def b using s by (simp add: Let_def)
  then show ?thesis using negative_nodes_per_chunk_panics[of ?e ?req "\<lambda>_ _. 0" RBT.empty] b by auto
qed

end
