(* ===== verification/Bootstrap_Client.thy ===== *)
theory Bootstrap_Client
  imports Runtime
begin

text \<open>
  The calls a storage node makes to a bootstrap server: \<open>SubscribeNode\<close> of
  \<open>internal/service/subscription.go\<close> and the four request functions of
  \<open>internal/service/file_management.go\<close>. Each picks a server at random, signs the request it
  encodes with an empty signature, encodes it again with the signature and posts it.
  \<open>json.Marshal\<close> cannot fail on these structs, so its error branches have no counterpart.
\<close>

definition error_body :: "'a res" where
  "error_body = Inl (Err ''error with message'')"

definition SubscribeNode :: "'db env \<Rightarrow> 'w net \<Rightarrow> nat \<Rightarrow> 'w \<Rightarrow> fault option \<times> 'w" where
  "SubscribeNode env net r w =
     (let servers = cfg_BootStrapServers (env_cfg env) in
      if servers = [] then (None, w)
      else let chosenServer = servers ! (r mod length servers);
               subscription = \<lparr>sub_Address = self_address (env_cfg env),
                 sub_PublicKey = cfg_PublicKey (env_cfg env), sub_Signature = None\<rparr> in
      case sign env (marshal enc_SubscriptionRequest subscription) of
        Inl e \<Rightarrow> (Some e, w)
      | Inr signature \<Rightarrow>
     (case net_post net w (http_url chosenServer ''/subscribe'')
             (marshal enc_SubscriptionRequest (subscription\<lparr>sub_Signature := Some signature\<rparr>)) of
        (Inl e, w1) \<Rightarrow> (Some (Err e), w1)
      | (Inr (status, _), w1) \<Rightarrow>
          if status = 200 then (None, w1) else (Some (Err ''subscription failed with status''), w1)))"

definition RequestNodesForFileUpload ::
  "'db env \<Rightarrow> 'w net \<Rightarrow> nat \<Rightarrow> int \<Rightarrow> 'w \<Rightarrow> bytes slice res \<times> 'w" where
  "RequestNodesForFileUpload env net r totalChunks w =
     (let servers = cfg_BootStrapServers (env_cfg env) in
      case Intn r (length servers) of Inl p \<Rightarrow> (Inl p, w)
      | Inr i \<Rightarrow>
     (let request = \<lparr>nfu_Address = self_address (env_cfg env),
            nfu_PublicKey = cfg_PublicKey (env_cfg env), nfu_Signature = None,
            nfu_TotalChunks = totalChunks, nfu_NodesPerChunk = ChunksTolerance\<rparr> in
      case sign env (marshal enc_NodesForFileUploadRequest request) of
        Inl e \<Rightarrow> (Inl e, w)
      | Inr signature \<Rightarrow>
     (case net_post net w (http_url (servers ! i) ''/file/nodes'')
             (marshal enc_NodesForFileUploadRequest (request\<lparr>nfu_Signature := Some signature\<rparr>)) of
        (Inl e, w1) \<Rightarrow> (Inl (Err e), w1)
      | (Inr (status, body), w1) \<Rightarrow>
          if status = 200 then (Inr (fst (decode_stream (dec_slice dec_str []) None body)), w1)
          else (error_body, w1))))"

definition UploadFileManifest :: "'db env \<Rightarrow> 'w net \<Rightarrow> nat \<Rightarrow> FileManifest \<Rightarrow> 'w \<Rightarrow> fault option \<times> 'w" where
  "UploadFileManifest env net r fileManifest w =
     (let servers = cfg_BootStrapServers (env_cfg env) in
      case Intn r (length servers) of Inl p \<Rightarrow> (Some p, w)
      | Inr i \<Rightarrow>
     (let manifestBytes = marshal enc_FileManifest fileManifest;
          hashToSign = sha256 (env_C env) manifestBytes in
      case sign env hashToSign of
        Inl e \<Rightarrow> (Some e, w)
      | Inr signature \<Rightarrow>
     (let fileManifestRequest = \<lparr>fmr_Address = self_address (env_cfg env),
            fmr_PublicKey = cfg_PublicKey (env_cfg env), fmr_Signature = Some signature,
            fmr_Manifest = fileManifest\<rparr> in
      case net_post net w (http_url (servers ! i) ''/file/manifest'')
             (marshal enc_FileManifestRequest fileManifestRequest) of
        (Inl e, w1) \<Rightarrow> (Some (Err e), w1)
      | (Inr (status, _), w1) \<Rightarrow>
          if status = 200 then (None, w1) else (Some (Err ''error with message''), w1))))"

text \<open>The request both manifest lookups and deletions send.\<close>

definition manifest_request :: "'db env \<Rightarrow> bytes \<Rightarrow> GetFileManifestRequest" where
  "manifest_request env fileId = \<lparr>gfm_Address = self_address (env_cfg env),
     gfm_PublicKey = cfg_PublicKey (env_cfg env), gfm_Signature = None, gfm_FileId = fileId\<rparr>"

text \<open>
  The decoding error of the response is ignored: an empty body leaves the pointer nil, and the
  function returns the nil pointer without an error.
\<close>

definition GetFileManifestFromServer ::
  "'db env \<Rightarrow> 'w net \<Rightarrow> nat \<Rightarrow> bytes \<Rightarrow> 'w \<Rightarrow> FileManifest option res \<times> 'w" where
  "GetFileManifestFromServer env net r fileId w =
     (let servers = cfg_BootStrapServers (env_cfg env) in
      case Intn r (length servers) of Inl p \<Rightarrow> (Inl p, w)
      | Inr i \<Rightarrow>
     (let request = manifest_request env fileId in
      case sign env (marshal enc_GetFileManifestRequest request) of
        Inl e \<Rightarrow> (Inl e, w)
      | Inr signature \<Rightarrow>
     (case net_post net w (http_url (servers ! i) ''/manifests'')
             (marshal enc_GetFileManifestRequest (request\<lparr>gfm_Signature := Some signature\<rparr>)) of
        (Inl e, w1) \<Rightarrow> (Inl (Err e), w1)
      | (Inr (status, body), w1) \<Rightarrow>
          if status = 200 then (Inr (fst (decode_stream_ptr dec_FileManifest zero_FileManifest body)), w1)
          else (error_body, w1))))"

definition DeleteManifestOnBootstrap :: "'db env \<Rightarrow> 'w net \<Rightarrow> nat \<Rightarrow> bytes \<Rightarrow> 'w \<Rightarrow> fault option \<times> 'w" where
  "DeleteManifestOnBootstrap env net r fileId w =
     (let servers = cfg_BootStrapServers (env_cfg env) in
      case Intn r (length servers) of Inl p \<Rightarrow> (Some p, w)
      | Inr i \<Rightarrow>
     (let request = manifest_request env fileId in
      case sign env (marshal enc_GetFileManifestRequest request) of
        Inl e \<Rightarrow> (Some e, w)
      | Inr signature \<Rightarrow>
     (case net_delete net w (http_url (servers ! i) ''/manifests'')
             (marshal enc_GetFileManifestRequest (request\<lparr>gfm_Signature := Some signature\<rparr>)) of
        (Inl e, w1) \<Rightarrow> (Some (Err e), w1)
      | (Inr (status, _), w1) \<Rightarrow>
          if status = 200 then (None, w1) else (Some (Err ''error deleting manifest''), w1))))"

end
