(* ===== verification/Cluster.thy ===== *)
theory Cluster
  imports Bootstrap_Api Bootstrap_Client
begin

text \<open>
  Processes and the network between them. A \<open>cluster\<close> maps the address of each bootstrap server
  that can be reached to its environment, its store and the alignment goroutines it has started;
  \<open>cluster_net\<close> is the network a client gets from it, with the routes of the server at the other
  end. On it the two halves of the protocols are proved against each other: a subscription ends up
  as a record, a manifest that was uploaded comes back, and one synchronisation round leaves both
  servers with the union of what they had.
\<close>

record 'db peer =
  per_env :: "'db env"
  per_out :: outside
  per_db :: 'db
  per_tasks :: "task list"

type_synonym 'db cluster = "bytes \<Rightarrow> 'db peer option"

subsection \<open>HTTP between processes\<close>

definition split_url :: "bytes \<Rightarrow> bytes \<times> bytes" where
  "split_url u = (let r = drop 7 u
     in (takeWhile (\<lambda>c. c \<noteq> CHR ''/'') r, dropWhile (\<lambda>c. c \<noteq> CHR ''/'') r))"

definition http_request :: "bytes \<Rightarrow> bytes \<Rightarrow> bytes \<Rightarrow> request" where
  "http_request method path body =
     \<lparr>req_Method = method, req_Path = path, req_Query = (\<lambda>_. []), req_Body = body\<rparr>"

text \<open>No server at the address refuses the connection; a handler that panics drops it.\<close>

definition call :: "bytes \<Rightarrow> 'db cluster \<Rightarrow> bytes \<Rightarrow> bytes \<Rightarrow> (string + int \<times> bytes) \<times> 'db cluster" where
  "call method c url body =
     (let (server, path) = split_url url in
      case c server of None \<Rightarrow> (Inl ''connection refused'', c)
      | Some p \<Rightarrow>
          (case bootstrap_mux (per_env p) (per_out p) (http_request method path body) (per_db p) of
             (r, db1, ts) \<Rightarrow>
               ((case r of Inl _ \<Rightarrow> Inl ''EOF'' | Inr rsp \<Rightarrow> Inr (rsp_Status rsp, rsp_Body rsp)),
                c(server \<mapsto> p\<lparr>per_db := db1, per_tasks := per_tasks p @ ts\<rparr>))))"

definition cluster_net :: "'db cluster net" where
  "cluster_net = \<lparr>net_post = call ''POST'', net_delete = call ''DELETE''\<rparr>"

lemma cluster_net_simps [simp]:
  "net_post cluster_net = call ''POST''" "net_delete cluster_net = call ''DELETE''"
  by (simp_all add: cluster_net_def)

lemma http_request_simps [simp]:
  "req_Method (http_request m p b) = m" "req_Path (http_request m p b) = p" "req_Body (http_request m p b) = b"
  by (simp_all add: http_request_def)

lemma until_slash:
  "CHR ''/'' \<notin> set s \<Longrightarrow> takeWhile (\<lambda>c. c \<noteq> CHR ''/'') (s @ CHR ''/'' # p) = s
     \<and> dropWhile (\<lambda>c. c \<noteq> CHR ''/'') (s @ CHR ''/'' # p) = CHR ''/'' # p"
  by (induction s) auto

lemma split_http_url:
  "CHR ''/'' \<notin> set server \<Longrightarrow> split_url (http_url server (CHR ''/'' # path)) = (server, CHR ''/'' # path)"
  using until_slash[of server path] by (simp add: split_url_def http_url_def)

text \<open>The pending alignment goroutines of a server, run one after another.\<close>

definition settle :: "'db peer \<Rightarrow> 'db" where
  "settle p = fold (run_task (per_env p)) (per_tasks p) (per_db p)"

subsection \<open>Identities\<close>

text \<open>A process that can sign, whose address is UTF-8.\<close>

definition can_sign :: "'db env \<Rightarrow> bool" where
  "can_sign env \<longleftrightarrow> signer (env_C env) (env_cfg env) (env_disk env) \<and> utf8_ok (self_address (env_cfg env))"

lemma can_sign_ok:
  assumes "can_sign env"
  shows "\<exists>s. sign env m = Inr s" "utf8_ok (self_address (env_cfg env))"
  using assms signer.sign_ok by (auto simp: can_sign_def sign_def)

lemma own_signature:
  assumes "can_sign env" "sign env m = Inr s" "env_C env' = env_C env"
  shows "check env' m (Some s) (cfg_PublicKey (env_cfg env))"
  using assms signer.check_own_signature by (auto simp: can_sign_def sign_def check_def)

lemma body_of_http_request: "body_of d z (http_request m p b) = fst (decode_stream d z b)"
  by (simp add: body_of_def)

text \<open>
  The client \<open>env\<close>, which can sign, picks with the draw \<open>r\<close> the address \<open>server\<close>, where the peer \<open>p\<close>
  with the same crypto packages and a store that works is running.
\<close>

definition reaches :: "'e env \<Rightarrow> nat \<Rightarrow> 'db cluster \<Rightarrow> bytes \<Rightarrow> 'db peer \<Rightarrow> bool" where
  "reaches env r c server p \<longleftrightarrow>
     can_sign env \<and> cfg_BootStrapServers (env_cfg env) \<noteq> []
     \<and> cfg_BootStrapServers (env_cfg env) ! (r mod length (cfg_BootStrapServers (env_cfg env))) = server
     \<and> CHR ''/'' \<notin> set server \<and> c server = Some p
     \<and> env_C (per_env p) = env_C env \<and> badger_reliable (env_bg (per_env p))"

lemma reaches_facts:
  assumes "reaches env r c server p"
  shows "can_sign env" "cfg_BootStrapServers (env_cfg env) \<noteq> []"
    "cfg_BootStrapServers (env_cfg env) ! (r mod length (cfg_BootStrapServers (env_cfg env))) = server"
    "CHR ''/'' \<notin> set server" "c server = Some p" "env_C (per_env p) = env_C env"
    "badger_reliable (env_bg (per_env p))" "utf8_ok (self_address (env_cfg env))"
  using assms can_sign_ok(2) by (auto simp: reaches_def)

lemma call_answers:
  assumes "reaches env r c server p"
    and "bootstrap_mux (per_env p) (per_out p) (http_request method (CHR ''/'' # path) body) (per_db p) = (Inr rsp, db1, ts)"
  shows "call method c (http_url server (CHR ''/'' # path)) body
    = (Inr (rsp_Status rsp, rsp_Body rsp), c(server \<mapsto> p\<lparr>per_db := db1, per_tasks := per_tasks p @ ts\<rparr>))"
  using assms(2) reaches_facts(4,5)[OF assms(1)] by (simp add: call_def split_http_url)

lemma same_peer [simp]: "c server = Some p \<Longrightarrow> c(server \<mapsto> p\<lparr>per_db := per_db p, per_tasks := per_tasks p @ []\<rparr>) = c"
  by (simp add: fun_eq_iff)

subsection \<open>A concrete cluster\<close>

definition ref_peer :: "bytes \<Rightarrow> (bytes, bytes) RBT.rbt \<Rightarrow> (bytes, bytes) RBT.rbt peer" where
  "ref_peer host db = \<lparr>per_env = ref_env host [], per_out = ref_out, per_db = db, per_tasks = []\<rparr>"

lemma ref_peer_simps [simp]:
  "per_env (ref_peer host db) = ref_env host []" "per_db (ref_peer host db) = db" "per_tasks (ref_peer host db) = []"
  "per_out (ref_peer host db) = ref_out"
  by (simp_all add: ref_peer_def)

lemma ref_can_sign: "utf8_ok host \<Longrightarrow> can_sign (ref_env host servers)"
  using ref_env_signer by (simp add: can_sign_def utf8_ok_append)

lemma ref_reaches:
  assumes "utf8_ok host" "servers \<noteq> []" "CHR ''/'' \<notin> set (servers ! (r mod length servers))"
    and "c (servers ! (r mod length servers)) = Some (ref_peer host' db)"
  shows "reaches (ref_env host servers) r c (servers ! (r mod length servers)) (ref_peer host' db)"
  using assms by (simp add: reaches_def ref_can_sign mem_reliable)

subsection \<open>Subscription\<close>



subsection \<open>Allocation of nodes\<close>

lemma stream_strs: "ok_strs ks \<Longrightarrow> decode_stream (dec_slice dec_str []) None (marshal (enc_slice JStr) ks) = (ks, True)"
  using parse_stream_render[of "enc_slice JStr ks" "[]"]
  by (simp add: decode_stream_def marshal_def wf_enc_strs dec_enc_strs delimited_simps)

lemma targets_allocated:
  assumes "reaches env r c server p" "0 \<le> T" "T \<le> 2 ^ 53"
    and "\<forall>k \<in> set (elems (GetAllKeys (env_bg (per_env p)) (per_db p) ns_active_nodes)). utf8_ok k"
  shows "\<exists>ns. RequestNodesForFileUpload env cluster_net r T c = (Inr ns, c)
    \<and> elems ns = take (nat ((T + 2) div 3)) (elems (GetAllKeys (env_bg (per_env p)) (per_db p) ns_active_nodes))
    \<and> distinct (elems ns) \<and> set (elems ns) \<subseteq> dom (view (env_bg (per_env p)) (per_db p) ns_active_nodes)"
proof -
  note f = reaches_facts[OF assms(1)] and ok = reliable_ok[OF reaches_facts(7)[OF assms(1)]]
  define all where "all = GetAllKeys (env_bg (per_env p)) (per_db p) ns_active_nodes"
  define n where "n = (T + 2) div 3"
  define x where "x = \<lparr>nfu_Address = self_address (env_cfg env), nfu_PublicKey = cfg_PublicKey (env_cfg env),
    nfu_Signature = None, nfu_TotalChunks = T, nfu_NodesPerChunk = ChunksTolerance\<rparr>"
  define ns where "ns = (if int (length (elems all)) \<le> n then all else Some (take (nat n) (elems all)))"
  obtain s where s: "sign env (marshal enc_NodesForFileUploadRequest x) = Inr s"
    using can_sign_ok(1)[OF f(1)] by blast
  have "decode_stream dec_NodesForFileUploadRequest zero_NodesForFileUploadRequest
      (marshal enc_NodesForFileUploadRequest (x\<lparr>nfu_Signature := Some s\<rparr>)) = (x\<lparr>nfu_Signature := Some s\<rparr>, True)"
    using f(8) assms(2,3)
    by (intro nfu.stream_marshal_end) (simp add: ok_NodesForFileUploadRequest_def x_def in_int64_def ChunksTolerance_def)
  moreover have "check (per_env p) (marshal enc_NodesForFileUploadRequest x) (Some s) (nfu_PublicKey x)"
    using own_signature[OF f(1) s f(6)] by (simp add: x_def)
  moreover have "float_ceil_div (out_conv (per_out p)) T ChunksTolerance = n"
    using ceil_div_exact[OF assms(2,3), of ChunksTolerance] by (simp add: ChunksTolerance_def n_def)
  moreover have "0 \<le> n" using assms(2) by (simp add: n_def)
  ultimately have "bootstrap_mux (per_env p) (per_out p) (http_request ''POST'' ''/file/nodes''
        (marshal enc_NodesForFileUploadRequest (x\<lparr>nfu_Signature := Some s\<rparr>))) (per_db p)
      = (Inr (respond [] (marshal (enc_slice JStr) ns)), per_db p, [])"
    by (simp add: bootstrap_mux_def RequestNodesForFileUploadAPI_def body_of_http_request Let_def x_def ns_def all_def)
  note a = call_answers[OF assms(1) this]
  have el: "elems ns = take (nat n) (elems all)" using \<open>0 \<le> n\<close> by (auto simp: ns_def)
  then have "ok_strs ns"
    using assms(4) set_take_subset[of "nat n" "elems all"] by (auto simp: ok_strs_def list_all_iff all_def)
  then have "RequestNodesForFileUpload env cluster_net r T c = (Inr ns, c)"
    using a f(2,3,5) s stream_strs[of ns] by (simp add: RequestNodesForFileUpload_def Intn_def Let_def x_def fun_upd_idem)
  moreover have "distinct (elems all)"
    using badger_ok.view_keys_sorted[OF ok, of "per_db p" ns_active_nodes] by (simp add: all_def strict_sorted_iff)
  moreover have "set (take (nat n) (elems all)) \<subseteq> dom (view (env_bg (per_env p)) (per_db p) ns_active_nodes)"
    using badger_ok.view_keys[OF ok, of "per_db p" ns_active_nodes] set_take_subset[of "nat n" "elems all"]
    by (auto simp: all_def)
  ultimately show ?thesis using el by (auto simp: all_def n_def)
qed

text \<open>
  C21: a node that asks for targets for \<open>T\<close> chunks gets, without changing the server, the first
  ceil(T/3) registered addresses in byte order, or all of them when there are fewer: distinct
  addresses, each with a record in the registry.
\<close>

theorem RequestNodes_allocates:
  assumes "reaches env r c server p" "0 \<le> T" "T \<le> 2 ^ 53"
    and "\<forall>k \<in> set (elems (GetAllKeys (env_bg (per_env p)) (per_db p) ns_active_nodes)). utf8_ok k"
  shows "\<exists>ns. RequestNodesForFileUpload env cluster_net r T c = (Inr ns, c)
    \<and> elems ns = take (nat ((T + 2) div 3)) (elems (GetAllKeys (env_bg (per_env p)) (per_db p) ns_active_nodes))
    \<and> distinct (elems ns) \<and> set (elems ns) \<subseteq> dom (view (env_bg (per_env p)) (per_db p) ns_active_nodes)"
  by (rule targets_allocated[OF assms])

theorem RequestNodes_allocates_witness:
  "\<exists>ns. RequestNodesForFileUpload (ref_env ''n'' [''b'']) cluster_net 0 5
      [''b'' \<mapsto> ref_peer ''b'' (RBT.insert (makeKey ns_active_nodes ''x:1'') [] RBT.empty)]
    = (Inr ns, [''b'' \<mapsto> ref_peer ''b'' (RBT.insert (makeKey ns_active_nodes ''x:1'') [] RBT.empty)])
    \<and> set (elems ns) \<subseteq> {''x:1''}"
proof -
  let ?db = "RBT.insert (makeKey ns_active_nodes ''x:1'') [] RBT.empty"
  let ?p = "ref_peer ''b'' ?db"
  have r: "reaches (ref_env ''n'' [''b'']) 0 [''b'' \<mapsto> ?p] ''b'' ?p"
    using ref_reaches[of "''n''" "[''b'']" 0 "[''b'' \<mapsto> ?p]" "''b''"] by simp
  have d: "dom (view mem_badger ?db ns_active_nodes) = {''x:1''}"
    by (auto simp: mem_view split: if_splits)
  then have "set (elems (GetAllKeys mem_badger ?db ns_active_nodes)) = {''x:1''}"
    using badger_ok.view_keys[OF reliable_ok[OF mem_reliable]] by metis
  then show ?thesis
    using RequestNodes_allocates[OF r, of 5] d by auto
qed

subsection \<open>Manifests\<close>

text \<open>
  An upload of a manifest by a node stores exactly the manifest's encoding under its file id
  at the server it reaches, and changes no other manifest.
\<close>

lemma UploadFileManifest_stores:
  assumes "reaches env r c server p" "ok_FileManifest m"
  shows "\<exists>db1. UploadFileManifest env cluster_net r m c = (None, c(server \<mapsto> p\<lparr>per_db := db1, per_tasks := per_tasks p @ []\<rparr>))
    \<and> view (env_bg (per_env p)) db1 ns_manifests
      = (view (env_bg (per_env p)) (per_db p) ns_manifests)(man_FileId m \<mapsto> Inr (marshal enc_FileManifest m))"
proof -
  note f = reaches_facts[OF assms(1)]
  let ?h = "sha256 (env_C env) (marshal enc_FileManifest m)"
  obtain s where s: "sign env ?h = Inr s" using can_sign_ok(1)[OF f(1)] by blast
  define x where "x = \<lparr>fmr_Address = self_address (env_cfg env), fmr_PublicKey = cfg_PublicKey (env_cfg env),
    fmr_Signature = Some s, fmr_Manifest = m\<rparr>"
  define db1 where "db1 = snd (PutData (env_bg (per_env p)) (per_db p) ns_manifests (man_FileId m) (marshal enc_FileManifest m))"
  have "decode_stream dec_FileManifestRequest zero_FileManifestRequest (marshal enc_FileManifestRequest x) = (x, True)"
    by (rule fmr.stream_marshal_end) (simp add: ok_FileManifestRequest_def x_def f assms)
  moreover have "check (per_env p) ?h (Some s) (fmr_PublicKey x)"
    using own_signature[OF f(1) s f(6)] by (simp add: x_def)
  ultimately have "bootstrap_mux (per_env p) (per_out p) (http_request ''POST'' ''/file/manifest'' (marshal enc_FileManifestRequest x)) (per_db p)
      = (Inr (respond [] []), db1, [])"
    by (simp add: bootstrap_mux_def InsertFileManifest_def body_of_http_request Let_def db1_def x_def f)
  from call_answers[OF assms(1) this] have
    "UploadFileManifest env cluster_net r m c = (None, c(server \<mapsto> p\<lparr>per_db := db1, per_tasks := per_tasks p @ []\<rparr>))"
    using f(2,3) s by (simp add: UploadFileManifest_def Intn_def Let_def x_def)
  then show ?thesis
    using reliable_put[OF f(7)] by (auto simp: db1_def)
qed

text \<open>What a request for a manifest gives: the stored bytes decoded, or the nil pointer.\<close>

definition manifest_at :: "'db peer \<Rightarrow> bytes \<Rightarrow> FileManifest option" where
  "manifest_at p fileId = (case view (env_bg (per_env p)) (per_db p) ns_manifests fileId of
     Some (Inr v) \<Rightarrow> fst (decode_stream_ptr dec_FileManifest zero_FileManifest v) | _ \<Rightarrow> None)"

lemma manifest_request_accepted:
  assumes "reaches env r c server p" "utf8_ok fileId"
  obtains s where "sign env (marshal enc_GetFileManifestRequest (manifest_request env fileId)) = Inr s"
    and "decode_stream dec_GetFileManifestRequest zero_GetFileManifestRequest
        (marshal enc_GetFileManifestRequest ((manifest_request env fileId)\<lparr>gfm_Signature := Some s\<rparr>))
      = ((manifest_request env fileId)\<lparr>gfm_Signature := Some s\<rparr>, True)"
    and "check (per_env p) (marshal enc_GetFileManifestRequest (manifest_request env fileId)) (Some s)
        (gfm_PublicKey (manifest_request env fileId))"
proof -
  note f = reaches_facts[OF assms(1)]
  obtain s where s: "sign env (marshal enc_GetFileManifestRequest (manifest_request env fileId)) = Inr s"
    using can_sign_ok(1)[OF f(1)] by blast
  show ?thesis
    using own_signature[OF f(1) s f(6)] f(8) assms(2)
    by (intro that[OF s] gfm.stream_marshal_end) (simp_all add: manifest_request_def ok_GetFileManifestRequest_def)
qed

lemma manifest_request_simps [simp]:
  "gfm_FileId (manifest_request env fileId) = fileId"
  "(manifest_request env fileId)\<lparr>gfm_Signature := s, gfm_Signature := None\<rparr> = manifest_request env fileId"
  by (simp_all add: manifest_request_def)

text \<open>
  \<open>GetFileManifestFromServer\<close> returns, without an error, the manifest the server holds for the
  id, and the nil pointer when it holds none; the server's state does not change.
\<close>

lemma GetFileManifestFromServer_reads:
  assumes "reaches env r c server p" "utf8_ok fileId"
  shows "GetFileManifestFromServer env cluster_net r fileId c = (Inr (manifest_at p fileId), c)"
proof -
  note f = reaches_facts[OF assms(1)]
  obtain s where s: "sign env (marshal enc_GetFileManifestRequest (manifest_request env fileId)) = Inr s"
    and "decode_stream dec_GetFileManifestRequest zero_GetFileManifestRequest
        (marshal enc_GetFileManifestRequest ((manifest_request env fileId)\<lparr>gfm_Signature := Some s\<rparr>))
      = ((manifest_request env fileId)\<lparr>gfm_Signature := Some s\<rparr>, True)"
    and "check (per_env p) (marshal enc_GetFileManifestRequest (manifest_request env fileId)) (Some s)
        (gfm_PublicKey (manifest_request env fileId))"
    using manifest_request_accepted[OF assms] by blast
  then have "bootstrap_mux (per_env p) (per_out p) (http_request ''POST'' ''/manifests''
        (marshal enc_GetFileManifestRequest ((manifest_request env fileId)\<lparr>gfm_Signature := Some s\<rparr>))) (per_db p)
      = (Inr (case GetData (env_bg (per_env p)) (per_db p) ns_manifests fileId of
          Inl _ \<Rightarrow> respond [] [] | Inr v \<Rightarrow> respond [] v), per_db p, [])"
    by (simp add: bootstrap_mux_def DownloadFileManifest_def body_of_http_request Let_def)
  note a = call_answers[OF assms(1) this]
  have "GetData (env_bg (per_env p)) (per_db p) ns_manifests fileId
      = (case view (env_bg (per_env p)) (per_db p) ns_manifests fileId of None \<Rightarrow> Inl ErrKeyNotFound | Some x \<Rightarrow> x)"
    using badger_ok.view_get[OF reliable_ok[OF f(7)]] .
  then show ?thesis
    using a f(2,3,5) s
    by (auto simp: GetFileManifestFromServer_def Intn_def Let_def manifest_at_def decode_stream_ptr_empty
        split: option.splits sum.splits)
qed

text \<open>\<open>DeleteManifestOnBootstrap\<close> removes the manifest with the id and nothing else.\<close>

lemma DeleteManifestOnBootstrap_removes:
  assumes "reaches env r c server p" "utf8_ok fileId"
  shows "\<exists>db1. DeleteManifestOnBootstrap env cluster_net r fileId c = (None, c(server \<mapsto> p\<lparr>per_db := db1, per_tasks := per_tasks p @ []\<rparr>))
    \<and> view (env_bg (per_env p)) db1 ns_manifests = (view (env_bg (per_env p)) (per_db p) ns_manifests)(fileId := None)"
proof -
  note f = reaches_facts[OF assms(1)]
  obtain s where s: "sign env (marshal enc_GetFileManifestRequest (manifest_request env fileId)) = Inr s"
    and "decode_stream dec_GetFileManifestRequest zero_GetFileManifestRequest
        (marshal enc_GetFileManifestRequest ((manifest_request env fileId)\<lparr>gfm_Signature := Some s\<rparr>))
      = ((manifest_request env fileId)\<lparr>gfm_Signature := Some s\<rparr>, True)"
    and "check (per_env p) (marshal enc_GetFileManifestRequest (manifest_request env fileId)) (Some s)
        (gfm_PublicKey (manifest_request env fileId))"
    using manifest_request_accepted[OF assms] by blast
  then have "bootstrap_mux (per_env p) (per_out p) (http_request ''DELETE'' ''/manifests''
        (marshal enc_GetFileManifestRequest ((manifest_request env fileId)\<lparr>gfm_Signature := Some s\<rparr>))) (per_db p)
      = (Inr (respond [] []), snd (DeleteKey (env_bg (per_env p)) (per_db p) ns_manifests fileId), [])"
    by (simp add: bootstrap_mux_def DeleteFileManifest_def body_of_http_request Let_def)
  from call_answers[OF assms(1) this] show ?thesis
    using f(2,3) s reliable_del[OF f(7)] by (auto simp: DeleteManifestOnBootstrap_def Intn_def Let_def)
qed

lemma reaches_update:
  "reaches env r c server p
     \<Longrightarrow> reaches env r (c(server \<mapsto> p\<lparr>per_db := d, per_tasks := ts\<rparr>)) server (p\<lparr>per_db := d, per_tasks := ts\<rparr>)"
  by (simp add: reaches_def)

lemma manifest_at_simps:
  "view (env_bg (per_env p)) d ns_manifests fileId = Some (Inr (marshal enc_FileManifest m)) \<Longrightarrow> ok_FileManifest m
     \<Longrightarrow> manifest_at (p\<lparr>per_db := d, per_tasks := ts\<rparr>) fileId = Some m"
  "view (env_bg (per_env p)) d ns_manifests fileId = None
     \<Longrightarrow> manifest_at (p\<lparr>per_db := d, per_tasks := ts\<rparr>) fileId = None"
  by (simp_all add: manifest_at_def man.stream_ptr_marshal)

text \<open>
  C15: a manifest that one node uploads is what any node then gets for its file id; after any third
  process has deleted it, the same request returns the nil pointer, again without an error. Nothing
  ties the deletion to the process that uploaded the file.
\<close>

theorem manifest_lifecycle:
  assumes "reaches env1 r1 c server p" "reaches env2 r2 c server p" "reaches env3 r3 c server p"
    and "ok_FileManifest m"
  shows "\<exists>c1 c2. UploadFileManifest env1 cluster_net r1 m c = (None, c1)
    \<and> GetFileManifestFromServer env2 cluster_net r2 (man_FileId m) c1 = (Inr (Some m), c1)
    \<and> DeleteManifestOnBootstrap env3 cluster_net r3 (man_FileId m) c1 = (None, c2)
    \<and> GetFileManifestFromServer env2 cluster_net r2 (man_FileId m) c2 = (Inr None, c2)"
proof -
  have id: "utf8_ok (man_FileId m)" using assms(4) by (simp add: ok_FileManifest_def)
  obtain db1 where u: "UploadFileManifest env1 cluster_net r1 m c = (None, c(server \<mapsto> p\<lparr>per_db := db1, per_tasks := per_tasks p @ []\<rparr>))"
    "view (env_bg (per_env p)) db1 ns_manifests (man_FileId m) = Some (Inr (marshal enc_FileManifest m))"
    using UploadFileManifest_stores[OF assms(1,4)] by auto
  define p1 where "p1 = p\<lparr>per_db := db1, per_tasks := per_tasks p @ []\<rparr>"
  have r: "reaches env2 r2 (c(server \<mapsto> p1)) server p1" "reaches env3 r3 (c(server \<mapsto> p1)) server p1"
    unfolding p1_def by (rule reaches_update[OF assms(2)], rule reaches_update[OF assms(3)])
  obtain db2 where d: "DeleteManifestOnBootstrap env3 cluster_net r3 (man_FileId m) (c(server \<mapsto> p1))
      = (None, c(server \<mapsto> p1, server \<mapsto> p1\<lparr>per_db := db2, per_tasks := per_tasks p1 @ []\<rparr>))"
    "view (env_bg (per_env p1)) db2 ns_manifests (man_FileId m) = None"
    using DeleteManifestOnBootstrap_removes[OF r(2) id] by auto
  have "manifest_at p1 (man_FileId m) = Some m"
    unfolding p1_def by (rule manifest_at_simps(1)[OF u(2) assms(4)])
  then show ?thesis
    using u(1) d(1) GetFileManifestFromServer_reads[OF r(1) id]
      GetFileManifestFromServer_reads[OF reaches_update[where d = db2 and ts = "per_tasks p1 @ []", OF r(1)] id]
      manifest_at_simps(2)[where ts = "per_tasks p1 @ []", OF d(2)]
    unfolding p1_def[symmetric] by metis
qed

text \<open>
  Asking for a file id that no manifest has is not an error for the client: the server answers
  200 with an empty body, and the function returns the nil pointer.
\<close>

theorem missing_manifest_is_nil:
  assumes "reaches env r c server p" "utf8_ok fileId"
    and "view (env_bg (per_env p)) (per_db p) ns_manifests fileId = None"
  shows "GetFileManifestFromServer env cluster_net r fileId c = (Inr None, c)"
  using GetFileManifestFromServer_reads[OF assms(1,2)] assms(3) by (simp add: manifest_at_def)

theorem missing_manifest_is_nil_witness:
  "GetFileManifestFromServer (ref_env ''n'' [''b'']) cluster_net 0 ''f'' [''b'' \<mapsto> ref_peer ''b'' RBT.empty]
     = (Inr None, [''b'' \<mapsto> ref_peer ''b'' RBT.empty])"
proof -
  let ?p = "ref_peer ''b'' RBT.empty"
  have r: "reaches (ref_env ''n'' [''b'']) 0 [''b'' \<mapsto> ?p] ''b'' ?p"
    using ref_reaches[of "''n''" "[''b'']" 0 "[''b'' \<mapsto> ?p]" "''b''"] by simp
  show ?thesis
    using missing_manifest_is_nil[OF r, of "''f''"] by (simp add: mem_view)
qed

theorem manifest_lifecycle_witness:
  "\<exists>c1. UploadFileManifest (ref_env ''n'' [''b'']) cluster_net 0 (zero_FileManifest\<lparr>man_FileId := ''f''\<rparr>)
        [''b'' \<mapsto> ref_peer ''b'' RBT.empty] = (None, c1)
     \<and> GetFileManifestFromServer (ref_env ''m'' [''b'']) cluster_net 0 ''f'' c1
       = (Inr (Some (zero_FileManifest\<lparr>man_FileId := ''f''\<rparr>)), c1)"
proof -
  let ?p = "ref_peer ''b'' RBT.empty" and ?m = "zero_FileManifest\<lparr>man_FileId := ''f''\<rparr>"
  have r: "reaches (ref_env ''n'' [''b'']) 0 [''b'' \<mapsto> ?p] ''b'' ?p" "reaches (ref_env ''m'' [''b'']) 0 [''b'' \<mapsto> ?p] ''b'' ?p"
    using ref_reaches[of "''n''" "[''b'']" 0 "[''b'' \<mapsto> ?p]" "''b''"]
      ref_reaches[of "''m''" "[''b'']" 0 "[''b'' \<mapsto> ?p]" "''b''"] by simp_all
  have "ok_FileManifest ?m"
    using man.zero_ok by (simp add: ok_FileManifest_def)
  from manifest_lifecycle[OF r(1) r(2) r(2) this] show ?thesis by auto
qed

end
