(* ===== verification/Sync_Round.thy ===== *)
theory Sync_Round
  imports Cluster
begin

text \<open>
  One round of \<open>performSync\<close> against the handlers of the other server: the digest goes out, the
  reply is aligned, the missing entries are pushed and the peer's goroutine aligns them. Both
  servers then hold every node and every manifest either of them held before; where both held an
  entry, each keeps its own.
\<close>

definition keys_of :: "'db env \<Rightarrow> 'db \<Rightarrow> bytes \<Rightarrow> bytes list" where
  "keys_of env db ns = elems (GetAllKeys (env_bg env) db ns)"

definition keys_utf8 :: "'db env \<Rightarrow> 'db \<Rightarrow> bool" where
  "keys_utf8 env db \<longleftrightarrow> (\<forall>ns \<in> {ns_active_nodes, ns_manifests}. \<forall>k \<in> set (keys_of env db ns). utf8_ok k)"

lemma keys_of_dom: "badger_ok (env_bg env) \<Longrightarrow> set (keys_of env db ns) = dom (view (env_bg env) db ns)"
  by (simp add: keys_of_def badger_ok.view_keys)

text \<open>The keys of one server that the other one lacks.\<close>

definition lacks :: "'a env \<Rightarrow> 'a \<Rightarrow> 'b env \<Rightarrow> 'b \<Rightarrow> bytes \<Rightarrow> bytes list" where
  "lacks envA dbA envB dbB ns = filter (\<lambda>k. k \<notin> set (keys_of envA dbA ns)) (keys_of envB dbB ns)"

lemma lacks_dom:
  "badger_ok (env_bg envA) \<Longrightarrow> badger_ok (env_bg envB) \<Longrightarrow>
     set (lacks envA dbA envB dbB ns) = dom (view (env_bg envB) dbB ns) - dom (view (env_bg envA) dbA ns)"
  by (auto simp: lacks_def keys_of_dom)

definition gap_data :: "'db env \<Rightarrow> 'db \<Rightarrow> bytes list \<Rightarrow> bytes \<Rightarrow> (bytes \<times> char slice) list" where
  "gap_data env db ks ns = collect_data (env_bg env) db ns ks []"

text \<open>The two payloads of a round.\<close>

definition reply_payload :: "'a env \<Rightarrow> 'a \<Rightarrow> 'b env \<Rightarrow> 'b \<Rightarrow> SyncPayload" where
  "reply_payload envA dbA envB dbB =
     \<lparr>pay_Address = self_address (env_cfg envB), pay_PublicKey = cfg_PublicKey (env_cfg envB), pay_Signature = None,
      pay_ActiveNodes = Some (gap_data envB dbB (lacks envA dbA envB dbB ns_active_nodes) ns_active_nodes),
      pay_FileManifests = Some (gap_data envB dbB (lacks envA dbA envB dbB ns_manifests) ns_manifests),
      pay_RequestedNodes = appended (lacks envB dbB envA dbA ns_active_nodes),
      pay_RequestedManifests = appended (lacks envB dbB envA dbA ns_manifests)\<rparr>"

definition push_payload :: "'a env \<Rightarrow> 'a \<Rightarrow> bytes list \<Rightarrow> bytes list \<Rightarrow> SyncPayload" where
  "push_payload env db ns ms =
     \<lparr>pay_Address = self_address (env_cfg env), pay_PublicKey = cfg_PublicKey (env_cfg env), pay_Signature = None,
      pay_ActiveNodes = Some (gap_data env db ns ns_active_nodes),
      pay_FileManifests = Some (gap_data env db ms ns_manifests),
      pay_RequestedNodes = None, pay_RequestedManifests = None\<rparr>"

lemma ok_strs_appended [simp]: "ok_strs (appended ks) \<longleftrightarrow> list_all utf8_ok ks"
  by (simp add: ok_strs_def)

lemma ok_reply:
  assumes "keys_utf8 envA dbA" "keys_utf8 envB dbB" "utf8_ok (self_address (env_cfg envB))"
  shows "ok_SyncPayload ((reply_payload envA dbA envB dbB)\<lparr>pay_Signature := s\<rparr>)"
  using assms
  by (auto simp: ok_SyncPayload_def reply_payload_def gap_data_def list_all_iff lacks_def keys_utf8_def
      intro!: collect_data_ok_bmap)

lemma ok_push:
  assumes "list_all utf8_ok ns" "list_all utf8_ok ms" "utf8_ok (self_address (env_cfg env))"
  shows "ok_SyncPayload ((push_payload env db ns ms)\<lparr>pay_Signature := s\<rparr>)"
  using assms by (auto simp: ok_SyncPayload_def push_payload_def gap_data_def list_all_iff intro!: collect_data_ok_bmap)

subsection \<open>The digest and its reply\<close>

lemma digest_reply:
  assumes "can_sign envA" "sign envA (marshal enc_SyncDigest (sync_digest envA dbA)) = Inr s"
    and "env_C (per_env p) = env_C envA" "keys_utf8 envA dbA"
  shows "bootstrap_mux (per_env p) (per_out p) (http_request ''POST'' ''/sync/digest''
        (marshal enc_SyncDigest ((sync_digest envA dbA)\<lparr>dig_Signature := Some s\<rparr>))) (per_db p)
    = (let pl = reply_payload envA dbA (per_env p) (per_db p)
       in (Inr (respond [(''Content-Type'', ''application/json'')] (marshal enc_SyncPayload
            (pl\<lparr>pay_Signature := sign_or_nil (per_env p) (marshal enc_SyncPayload pl)\<rparr>))), per_db p, []))"
proof -
  let ?d = "(sync_digest envA dbA)\<lparr>dig_Signature := Some s\<rparr>"
  have "decode_stream dec_SyncDigest zero_SyncDigest (marshal enc_SyncDigest ?d) = (?d, True)"
    using assms(4) can_sign_ok(2)[OF assms(1)]
    by (intro dig.stream_marshal_end)
       (simp add: ok_SyncDigest_def sync_digest_def ok_strs_def list_all_iff keys_utf8_def keys_of_def)
  moreover have "?d\<lparr>dig_Signature := None\<rparr> = sync_digest envA dbA" by (simp add: sync_digest_def)
  moreover have "check (per_env p) (marshal enc_SyncDigest (sync_digest envA dbA)) (Some s) (dig_PublicKey ?d)"
    using own_signature[OF assms(1-3)] by (simp add: sync_digest_def)
  ultimately show ?thesis
    by (simp add: bootstrap_mux_def SyncDigestHandler_def body_of_http_request Let_def CompareKeys_filter
        reply_payload_def lacks_def gap_data_def keys_of_def sync_digest_def)
qed

subsection \<open>The push\<close>

lemma push_call:
  assumes "reaches envA r c server p" "list_all utf8_ok ns" "list_all utf8_ok ms"
  shows "pushMissingData envA cluster_net server (appended ns) (appended ms) db c
    = c(server \<mapsto> p\<lparr>per_db := per_db p, per_tasks := per_tasks p
        @ [Align (gap_data envA db ns ns_active_nodes) (gap_data envA db ms ns_manifests)]\<rparr>)"
proof -
  note f = reaches_facts[OF assms(1)]
  let ?pl = "push_payload envA db ns ms"
  obtain s where s: "sign envA (marshal enc_SyncPayload ?pl) = Inr s"
    using can_sign_ok(1)[OF f(1)] by blast
  let ?pls = "?pl\<lparr>pay_Signature := Some s\<rparr>"
  have "decode_stream dec_SyncPayload zero_SyncPayload (marshal enc_SyncPayload ?pls) = (?pls, True)"
    by (intro pay.stream_marshal_end ok_push assms f(8))
  moreover have "?pls\<lparr>pay_Signature := None\<rparr> = ?pl" by (simp add: push_payload_def)
  moreover have "check (per_env p) (marshal enc_SyncPayload ?pl) (Some s) (pay_PublicKey ?pls)"
    using own_signature[OF f(1) s f(6)] by (simp add: push_payload_def)
  ultimately have "bootstrap_mux (per_env p) (per_out p) (http_request ''POST'' ''/sync/push'' (marshal enc_SyncPayload ?pls)) (per_db p)
      = (Inr (respond [] []), per_db p,
         [Align (gap_data envA db ns ns_active_nodes) (gap_data envA db ms ns_manifests)])"
    by (simp add: bootstrap_mux_def SyncPushHandler_def body_of_http_request Let_def push_payload_def)
  from call_answers[OF assms(1) this] s show ?thesis
    by (simp add: pushMissingData_def Let_def push_payload_def gap_data_def sign_or_nil_def)
qed

subsection \<open>The round\<close>

text \<open>The store of the server that starts the round, after it has aligned the reply.\<close>

definition aligned :: "'a env \<Rightarrow> 'a \<Rightarrow> 'b env \<Rightarrow> 'b \<Rightarrow> 'a" where
  "aligned envA dbA envB dbB = snd (ProcessAlignment (env_bg envA)
     (gap_data envB dbB (lacks envA dbA envB dbB ns_active_nodes) ns_active_nodes)
     (gap_data envB dbB (lacks envA dbA envB dbB ns_manifests) ns_manifests) dbA)"

lemma gap_data_distinct: "distinct (map fst (gap_data env db ks ns))"
  by (simp add: gap_data_def gomap_distinct collect_data_gomap)

lemma received_gap:
  "badger_reliable (env_bg env) \<Longrightarrow> received (gap_data env db ks ns) = view (env_bg env) db ns |` set ks"
  by (simp add: gap_data_def badger_reliable.received_collect)

lemma align_gaps:
  fixes dbA dbB ns ms
  assumes "badger_reliable (env_bg envA)" "badger_reliable (env_bg envB)"
  defines "db' \<equiv> snd (ProcessAlignment (env_bg envA) (gap_data envB dbB ns ns_active_nodes) (gap_data envB dbB ms ns_manifests) dbA)"
  shows "view (env_bg envA) db' ns_active_nodes
      = view (env_bg envA) dbA ns_active_nodes ++ (view (env_bg envB) dbB ns_active_nodes |` set ns)"
    and "view (env_bg envA) db' ns_manifests
      = (view (env_bg envB) dbB ns_manifests |` set ms) ++ view (env_bg envA) dbA ns_manifests"
  unfolding db'_def using assms(1,2)
  by (simp_all add: badger_reliable.ProcessAlignment_view gap_data_distinct received_gap)

lemma aligned_view:
  assumes "badger_reliable (env_bg envA)" "badger_reliable (env_bg envB)" "ns \<in> {ns_active_nodes, ns_manifests}"
  shows "view (env_bg envA) (aligned envA dbA envB dbB) ns = view (env_bg envB) dbB ns ++ view (env_bg envA) dbA ns"
  using assms(3) align_gaps[OF assms(1,2)]
  by (auto simp: aligned_def lacks_dom reliable_ok assms(1,2) fill_gaps)

lemma performSync_call:
  assumes "reaches envA r c server p" "1 < length (cfg_BootStrapServers (env_cfg envA))"
    and "server \<noteq> self_address (env_cfg envA)"
    and "keys_utf8 envA dbA" "keys_utf8 (per_env p) (per_db p)" "utf8_ok (self_address (env_cfg (per_env p)))"
  defines "ns \<equiv> lacks (per_env p) (per_db p) envA dbA ns_active_nodes"
    and "ms \<equiv> lacks (per_env p) (per_db p) envA dbA ns_manifests"
    and "dbA' \<equiv> aligned envA dbA (per_env p) (per_db p)"
  shows "performSync envA cluster_net r dbA c = (dbA',
     if ns = [] \<and> ms = [] then c
     else c(server \<mapsto> p\<lparr>per_db := per_db p, per_tasks := per_tasks p
        @ [Align (gap_data envA dbA' ns ns_active_nodes) (gap_data envA dbA' ms ns_manifests)]\<rparr>))"
proof -
  note f = reaches_facts[OF assms(1)]
  obtain s where s: "sign envA (marshal enc_SyncDigest (sync_digest envA dbA)) = Inr s"
    using can_sign_ok(1)[OF f(1)] by blast
  let ?pl = "reply_payload envA dbA (per_env p) (per_db p)"
  let ?pls = "?pl\<lparr>pay_Signature := sign_or_nil (per_env p) (marshal enc_SyncPayload ?pl)\<rparr>"
  have post: "call ''POST'' c (http_url server ''/sync/digest'')
      (marshal enc_SyncDigest ((sync_digest envA dbA)\<lparr>dig_Signature := Some s\<rparr>))
    = (Inr (200, marshal enc_SyncPayload ?pls), c)"
    using call_answers[OF assms(1) digest_reply[OF f(1) s f(6) assms(4), unfolded Let_def]] f(5)
    by (simp add: fun_upd_idem)
  have dec: "decode_stream dec_SyncPayload zero_SyncPayload (marshal enc_SyncPayload ?pls) = (?pls, True)"
    by (intro pay.stream_marshal_end ok_reply assms)
  have utf8: "list_all utf8_ok ns" "list_all utf8_ok ms"
    using assms(4) by (auto simp: ns_def ms_def lacks_def keys_utf8_def list_all_iff)
  have "performSync envA cluster_net r dbA c = (dbA', if ns = [] \<and> ms = [] then c
      else pushMissingData envA cluster_net server (appended ns) (appended ms) dbA' c)"
    using assms(2,3) f(3) s post dec
    by (simp add: performSync_def Let_def reply_payload_def ns_def ms_def dbA'_def aligned_def)
  then show ?thesis by (simp add: push_call[OF assms(1) utf8])
qed

lemma pushed_view:
  fixes dbA dbB
  assumes "badger_reliable (env_bg envA)" "badger_reliable (env_bg envB)" "ns \<in> {ns_active_nodes, ns_manifests}"
  defines "as \<equiv> lacks envB dbB envA dbA ns_active_nodes" and "ms \<equiv> lacks envB dbB envA dbA ns_manifests"
  shows "view (env_bg envB) (snd (ProcessAlignment (env_bg envB)
      (gap_data envA (aligned envA dbA envB dbB) as ns_active_nodes)
      (gap_data envA (aligned envA dbA envB dbB) ms ns_manifests) dbB)) ns
    = view (env_bg envA) dbA ns ++ view (env_bg envB) dbB ns"
proof -
  have "(view (env_bg envB) dbB n ++ view (env_bg envA) dbA n) |` set (lacks envB dbB envA dbA n)
      = view (env_bg envA) dbA n |` (dom (view (env_bg envA) dbA n) - dom (view (env_bg envB) dbB n))" for n
    by (auto simp: lacks_dom reliable_ok assms(1,2) restrict_map_def map_add_def fun_eq_iff dom_def split: option.split)
  then show ?thesis
    using assms(3) align_gaps[OF assms(2,1)] aligned_view[OF assms(1,2)]
    by (auto simp: as_def ms_def fill_gaps)
qed

lemma no_gaps:
  assumes "badger_ok (env_bg envA)" "badger_ok (env_bg envB)" "lacks envB dbB envA dbA ns = []"
  shows "view (env_bg envA) dbA ns ++ view (env_bg envB) dbB ns = view (env_bg envB) dbB ns"
proof -
  have "dom (view (env_bg envA) dbA ns) \<subseteq> dom (view (env_bg envB) dbB ns)"
    using lacks_dom[OF assms(2,1), of dbB dbA ns] assms(3) by auto
  then show ?thesis by (auto simp: fun_eq_iff map_add_def split: option.split)
qed

text \<open>
  C14: one round against a server that answers leaves both servers, once the receiver's goroutine
  has run, with the union of their active nodes and of their manifests. Where both had an entry,
  each one keeps its own: nothing is lost and nothing is overwritten.
\<close>

theorem sync_round_union:
  assumes "reaches envA r c server p" "1 < length (cfg_BootStrapServers (env_cfg envA))"
    and "server \<noteq> self_address (env_cfg envA)" "badger_reliable (env_bg envA)"
    and "keys_utf8 envA dbA" "keys_utf8 (per_env p) (per_db p)"
    and "utf8_ok (self_address (env_cfg (per_env p)))" "per_tasks p = []"
    and "performSync envA cluster_net r dbA c = (dbA', c')" "c' server = Some p'"
    and "ns \<in> {ns_active_nodes, ns_manifests}"
  shows "view (env_bg envA) dbA' ns = view (env_bg (per_env p)) (per_db p) ns ++ view (env_bg envA) dbA ns
    \<and> view (env_bg (per_env p)) (settle p') ns = view (env_bg envA) dbA ns ++ view (env_bg (per_env p)) (per_db p) ns"
proof -
  note f = reaches_facts[OF assms(1)]
  let ?ns = "lacks (per_env p) (per_db p) envA dbA ns_active_nodes"
  let ?ms = "lacks (per_env p) (per_db p) envA dbA ns_manifests"
  let ?A = "aligned envA dbA (per_env p) (per_db p)"
  note round = performSync_call[OF assms(1-3,5-7)]
  have dbA': "dbA' = ?A" using round assms(9) by simp
  have "view (env_bg (per_env p)) (settle p') ns = view (env_bg envA) dbA ns ++ view (env_bg (per_env p)) (per_db p) ns"
  proof (cases "?ns = [] \<and> ?ms = []")
    case True
    then have "p' = p" using round assms(9,10) f(5) by simp
    then show ?thesis
      using no_gaps[of envA "per_env p" "per_db p" dbA ns] True assms(4,8,11) f(7)
      by (auto simp: settle_def reliable_ok)
  next
    case False
    then have "settle p' = snd (ProcessAlignment (env_bg (per_env p)) (gap_data envA ?A ?ns ns_active_nodes)
        (gap_data envA ?A ?ms ns_manifests) (per_db p))"
      using round assms(8-10) by (auto simp: settle_def)
    then show ?thesis using pushed_view[OF assms(4) f(7) assms(11)] by simp
  qed
  then show ?thesis using dbA' aligned_view[OF assms(4) f(7) assms(11)] by simp
qed

lemma ref_keys_utf8:
  "\<forall>ns \<in> {ns_active_nodes, ns_manifests}. \<forall>k. RBT.lookup db (makeKey ns k) \<noteq> None \<longrightarrow> utf8_ok k
     \<Longrightarrow> keys_utf8 (ref_env host servers) db"
  by (auto simp: keys_utf8_def keys_of_dom reliable_ok mem_reliable mem_view)

theorem sync_round_union_witness:
  "\<exists>dbA' c'. performSync (ref_env ''a'' [''b'', ''c'']) cluster_net 0
        (RBT.insert (makeKey ns_active_nodes ''x'') ''1'' RBT.empty)
        [''b'' \<mapsto> ref_peer ''b'' (RBT.insert (makeKey ns_active_nodes ''y'') ''2'' RBT.empty)] = (dbA', c')
     \<and> view mem_badger dbA' ns_active_nodes = [''x'' \<mapsto> Inr ''1'', ''y'' \<mapsto> Inr ''2'']"
proof -
  let ?A = "ref_env ''a'' [''b'', ''c'']" and ?dbA = "RBT.insert (makeKey ns_active_nodes ''x'') ''1'' RBT.empty"
  let ?p = "ref_peer ''b'' (RBT.insert (makeKey ns_active_nodes ''y'') ''2'' RBT.empty)"
  have r: "reaches ?A 0 [''b'' \<mapsto> ?p] ''b'' ?p"
    using ref_reaches[of "''a''" "[''b'', ''c'']" 0 "[''b'' \<mapsto> ?p]" "''b''"] by simp
  have u: "keys_utf8 ?A ?dbA" "keys_utf8 (per_env ?p) (per_db ?p)"
    by (auto intro!: ref_keys_utf8 split: if_splits)
  obtain dbA' c' where s: "performSync ?A cluster_net 0 ?dbA [''b'' \<mapsto> ?p] = (dbA', c')" by fastforce
  obtain p' where "c' ''b'' = Some p'"
    using performSync_call[OF r _ _ u] s by (auto simp: utf8_ok_append split: if_splits)
  then have "view mem_badger dbA' ns_active_nodes
      = view mem_badger (per_db ?p) ns_active_nodes ++ view mem_badger ?dbA ns_active_nodes"
    using sync_round_union[OF r _ _ _ u _ _ s, of p' ns_active_nodes] by (simp add: mem_reliable)
  also have "\<dots> = [''x'' \<mapsto> Inr ''1'', ''y'' \<mapsto> Inr ''2'']"
    by (auto simp: fun_eq_iff mem_view map_add_def)
  finally show ?thesis using s by blast
qed

end
