(* ===== verification/Clean_Database.thy ===== *)
theory Clean_Database
  imports Bootstrap_Client
begin

text \<open>
  \<open>internal/service/clean_database.go\<close>: the three garbage collectors, one pass each, and their
  tickers. \<open>time.Parse(time.RFC3339, s)\<close> is the argument \<open>parse\<close>, which gives nanoseconds since the
  epoch; the passes are proved for every such function. A pass collects the keys first (the scan
  is a read transaction) and deletes them afterwards.
\<close>

definition second :: int where "second = 1000000000"
definition retention :: int where "retention = 24 * 7 * 3600 * second"
definition orphan_age :: int where "orphan_age = 7200"
definition heartbeat_timeout :: int where "heartbeat_timeout = 2 * 60 * second"

text \<open>\<open>time.Now().UTC().After(parsedTime.Add(time.Hour * 24 * 7))\<close>, false for a date that does not parse.\<close>

definition past_retention :: "(bytes \<Rightarrow> int option) \<Rightarrow> int \<Rightarrow> bytes \<Rightarrow> bool" where
  "past_retention parse now date = (case parse date of None \<Rightarrow> False | Some t \<Rightarrow> now > t + retention)"

subsection \<open>Chunks of a storage node\<close>

text \<open>
  The callback of the scan: it may ask a bootstrap server, so it threads the network state, and a
  panic of \<open>rand.Intn\<close> inside it ends the pass. \<open>now\<close> holds the two readings of the clock that the
  callback takes, in nanoseconds: the one compared with the release date and the one compared with
  \<open>CreatedAt\<close>, of which \<open>div second\<close> is \<open>time.Now().Unix()\<close>. \<open>r\<close> supplies the random draws of the
  calls.
\<close>

record 'w gc_state =
  gc_keys :: "bytes list"
  gc_calls :: nat
  gc_world :: 'w
  gc_panic :: "fault option"

definition check_chunk ::
  "'db env \<Rightarrow> 'w net \<Rightarrow> (bytes \<Rightarrow> int option) \<Rightarrow> int \<times> int \<Rightarrow> (nat \<Rightarrow> nat) \<Rightarrow> bytes \<Rightarrow> bytes \<Rightarrow> 'w gc_state \<Rightarrow> 'w gc_state" where
  "check_chunk env net parse now r key val s =
     (if gc_panic s \<noteq> None then s
      else (case decode_stream dec_ChunkRequest zero_ChunkRequest val of
        (_, False) \<Rightarrow> s
      | (chunk, True) \<Rightarrow>
          if past_retention parse (fst now) (crq_ReleaseDate chunk)
          then s\<lparr>gc_keys := gc_keys s @ [crq_ChunkId chunk]\<rparr>
          else if crq_CreatedAt chunk > 0 \<and> wrap64 (snd now div second - crq_CreatedAt chunk) > orphan_age
          then (case GetFileManifestFromServer env net (r (gc_calls s)) (crq_FileId chunk) (gc_world s) of
              (Inl (Panic p), w1) \<Rightarrow> s\<lparr>gc_calls := Suc (gc_calls s), gc_world := w1, gc_panic := Some (Panic p)\<rparr>
            | (Inl (Err _), w1) \<Rightarrow> s\<lparr>gc_calls := Suc (gc_calls s), gc_world := w1,
                  gc_keys := gc_keys s @ [crq_ChunkId chunk]\<rparr>
            | (Inr None, w1) \<Rightarrow> s\<lparr>gc_calls := Suc (gc_calls s), gc_world := w1,
                  gc_keys := gc_keys s @ [crq_ChunkId chunk]\<rparr>
            | (Inr (Some _), w1) \<Rightarrow> s\<lparr>gc_calls := Suc (gc_calls s), gc_world := w1\<rparr>)
          else s))"

text \<open>
  One tick; \<open>clock\<close> gives the readings taken while the chunk under a key is looked at. The goroutine does not recover: a panic takes the process down, here \<open>Inl\<close>. The value
  log garbage collection does not change the content of the store.
\<close>

definition clean_node_pass ::
  "'db env \<Rightarrow> 'w net \<Rightarrow> (bytes \<Rightarrow> int option) \<Rightarrow> (bytes \<Rightarrow> int \<times> int) \<Rightarrow> (nat \<Rightarrow> nat) \<Rightarrow> 'db \<Rightarrow> 'w \<Rightarrow> (nat \<times> 'db) res \<times> 'w" where
  "clean_node_pass env net parse clock r db w =
     (let s = fst (IterateAndProcess (env_bg env) db ns_chunks (\<lambda>key. check_chunk env net parse (clock key) r key)
                \<lparr>gc_keys = [], gc_calls = 0, gc_world = w, gc_panic = None\<rparr>)
      in case gc_panic s of
           Some p \<Rightarrow> (Inl p, gc_world s)
         | None \<Rightarrow> (Inr (delete_keys (env_bg env) ns_chunks (gc_keys s) db), gc_world s))"

subsection \<open>Manifests of a bootstrap server\<close>

definition check_manifest :: "(bytes \<Rightarrow> int option) \<Rightarrow> int \<Rightarrow> bytes \<Rightarrow> bytes \<Rightarrow> bytes list \<Rightarrow> bytes list" where
  "check_manifest parse now key val keysToDelete =
     (case decode_stream dec_FileManifest zero_FileManifest val of
        (_, False) \<Rightarrow> keysToDelete
      | (manifest, True) \<Rightarrow>
          if past_retention parse now (man_ReleaseDate manifest)
          then keysToDelete @ [man_FileId manifest] else keysToDelete)"

definition clean_bootstrap_pass :: "'db env \<Rightarrow> (bytes \<Rightarrow> int option) \<Rightarrow> int \<Rightarrow> 'db \<Rightarrow> nat \<times> 'db" where
  "clean_bootstrap_pass env parse now db =
     delete_keys (env_bg env) ns_manifests
       (fst (IterateAndProcess (env_bg env) db ns_manifests (check_manifest parse now) [])) db"

subsection \<open>Nodes without heartbeat\<close>

text \<open>The difference of two \<open>int64\<close> timestamps wraps around.\<close>

definition unresponsive :: "int \<Rightarrow> bytes \<Rightarrow> bool" where
  "unresponsive now data = (case decode_stream dec_ActiveNodeRecord zero_ActiveNodeRecord data of
       (_, False) \<Rightarrow> False
     | (rec, True) \<Rightarrow> wrap64 (now - anr_Timestamp rec) > heartbeat_timeout)"

fun remove_unresponsive :: "'db badger \<Rightarrow> int \<Rightarrow> (bytes \<times> bytes) list \<Rightarrow> 'db \<Rightarrow> nat \<times> 'db" where
  "remove_unresponsive bg now [] db = (0, db)"
| "remove_unresponsive bg now ((addr, data) # es) db =
     (if unresponsive now data
      then (let (err, db1) = DeleteKey bg db ns_active_nodes addr;
                (n, db2) = remove_unresponsive bg now es db1
            in (if err = None then Suc n else n, db2))
      else remove_unresponsive bg now es db)"

text \<open>A scan that fails skips the pass.\<close>

definition clean_inactive_pass :: "'db env \<Rightarrow> int \<Rightarrow> 'db \<Rightarrow> nat \<times> 'db" where
  "clean_inactive_pass env now db =
     (case GetAllData (env_bg env) db ns_active_nodes of
        (_, Some _) \<Rightarrow> (0, db)
      | (allNodes, None) \<Rightarrow> remove_unresponsive (env_bg env) now allNodes db)"

subsection \<open>The tickers\<close>

text \<open>A tick carries the readings of the clock of its pass and the random draws.\<close>

datatype 'time gc_event = GcTick 'time "nat \<Rightarrow> nat" | GcCancel

fun CleanNodeDatabase ::
  "'db env \<Rightarrow> 'w net \<Rightarrow> (bytes \<Rightarrow> int option) \<Rightarrow> (bytes \<Rightarrow> int \<times> int) gc_event list \<Rightarrow> 'db \<Rightarrow> 'w \<Rightarrow> 'db res \<times> 'w" where
  "CleanNodeDatabase env net parse [] db w = (Inr db, w)"
| "CleanNodeDatabase env net parse (GcCancel # _) db w = (Inr db, w)"
| "CleanNodeDatabase env net parse (GcTick clock r # es) db w =
     (case clean_node_pass env net parse clock r db w of
        (Inl p, w1) \<Rightarrow> (Inl p, w1)
      | (Inr (_, db1), w1) \<Rightarrow> CleanNodeDatabase env net parse es db1 w1)"

fun CleanBootstrapDatabase :: "'db env \<Rightarrow> (bytes \<Rightarrow> int option) \<Rightarrow> int gc_event list \<Rightarrow> 'db \<Rightarrow> 'db" where
  "CleanBootstrapDatabase env parse [] db = db"
| "CleanBootstrapDatabase env parse (GcCancel # _) db = db"
| "CleanBootstrapDatabase env parse (GcTick now r # es) db =
     CleanBootstrapDatabase env parse es (snd (clean_bootstrap_pass env parse now db))"

fun CleanInactiveNodes :: "'db env \<Rightarrow> int gc_event list \<Rightarrow> 'db \<Rightarrow> 'db" where
  "CleanInactiveNodes env [] db = db"
| "CleanInactiveNodes env (GcCancel # _) db = db"
| "CleanInactiveNodes env (GcTick now r # es) db = CleanInactiveNodes env es (snd (clean_inactive_pass env now db))"

subsection \<open>What a pass removes\<close>

lemma removed_view:
  assumes "badger_reliable bg" "colon_free p"
  shows "view bg (snd (delete_keys bg p ks db)) p k = (if k \<in> set ks then None else view bg db p k)"
  by (simp add: badger_reliable.delete_keys_view[OF assms] restrict_map_def)

lemma delete_keys_frame:
  assumes "badger_ok bg" "colon_free p" "colon_free q" "q \<noteq> p"
  shows "view bg (snd (delete_keys bg p ks db)) q = view bg db q"
  using badger_ok.delete_keys_other[OF assms(1-3)] assms(4) by (simp add: fun_eq_iff)

text \<open>The scans, as the sets of keys they collect.\<close>

lemma remove_unresponsive_delete_keys:
  "remove_unresponsive bg now es db = delete_keys bg ns_active_nodes (map fst (filter (\<lambda>e. unresponsive now (snd e)) es)) db"
proof (induction es arbitrary: db)
  case (Cons e es)
  obtain addr data where e: "e = (addr, data)" by (cases e)
  obtain err db1 where "DeleteKey bg db ns_active_nodes addr = (err, db1)" by fastforce
  then show ?case by (simp add: e Cons.IH delete_keys.simps)
qed simp

lemma check_manifest_fold:
  "x \<in> set (fold (\<lambda>(k, v). check_manifest parse now k v) es ks) \<longleftrightarrow> x \<in> set ks \<or>
     (\<exists>e \<in> set es. \<exists>m. decode_stream dec_FileManifest zero_FileManifest (snd e) = (m, True)
        \<and> past_retention parse now (man_ReleaseDate m) \<and> x = man_FileId m)"
proof (induction es arbitrary: ks)
  case (Cons e es)
  obtain k v where e: "e = (k, v)" by (cases e)
  obtain m b where d: "decode_stream dec_FileManifest zero_FileManifest v = (m, b)" by fastforce
  have "check_manifest parse now k v ks
      = (if b \<and> past_retention parse now (man_ReleaseDate m) then ks @ [man_FileId m] else ks)"
    by (simp add: check_manifest_def d split: bool.split)
  then show ?case
    using Cons.IH d by (auto simp: e)
qed simp

lemma sign_error_Err: "sign env m = Inl e \<Longrightarrow> \<exists>s. e = Err s"
  by (auto simp: sign_def SignMessage_def split: sum.splits option.splits key_if.splits)

lemma clean_node_pass_keys:
  assumes "clean_node_pass env net parse clock r db w = (Inr (n, db1), w1)"
  obtains ks where "db1 = snd (delete_keys (env_bg env) ns_chunks ks db)"
proof -
  let ?s = "fst (IterateAndProcess (env_bg env) db ns_chunks (\<lambda>key. check_chunk env net parse (clock key) r key)
      \<lparr>gc_keys = [], gc_calls = 0, gc_world = w, gc_panic = None\<rparr>)"
  have "delete_keys (env_bg env) ns_chunks (gc_keys ?s) db = (n, db1)"
    using assms by (cases "gc_panic ?s") (simp_all add: clean_node_pass_def Let_def)
  then show thesis using that[of "gc_keys ?s"] by simp
qed

text \<open>With a server in the settings, asking for a manifest answers or fails, but does not panic.\<close>

lemma GetFileManifestFromServer_returns:
  assumes "cfg_BootStrapServers (env_cfg env) \<noteq> []"
  shows "fst (GetFileManifestFromServer env net i fileId w) \<noteq> Inl (Panic p)"
  using assms sign_error_Err
  by (auto simp: GetFileManifestFromServer_def Intn_def Let_def error_body_def split: sum.split prod.split)

lemma check_chunk_asks:
  assumes "cfg_BootStrapServers (env_cfg env) \<noteq> []" "gc_panic s = None"
    and "decode_stream dec_ChunkRequest zero_ChunkRequest v = (chunk, True)"
    and "GetFileManifestFromServer env net (r (gc_calls s)) (crq_FileId chunk) (gc_world s) = (a, w1)"
  shows "check_chunk env net parse now r k v s =
    (if past_retention parse (fst now) (crq_ReleaseDate chunk) then s\<lparr>gc_keys := gc_keys s @ [crq_ChunkId chunk]\<rparr>
     else if crq_CreatedAt chunk > 0 \<and> wrap64 (snd now div second - crq_CreatedAt chunk) > orphan_age
     then s\<lparr>gc_calls := Suc (gc_calls s), gc_world := w1,
            gc_keys := gc_keys s @ (if \<exists>m. a = Inr (Some m) then [] else [crq_ChunkId chunk])\<rparr>
     else s)"
  using GetFileManifestFromServer_returns[OF assms(1), of net "r (gc_calls s)" "crq_FileId chunk" "gc_world s"] assms(2-4)
  by (auto simp: check_chunk_def split: sum.splits fault.splits option.splits)

text \<open>
  The scan of chunks filed under their own ids: \<open>expired\<close> and \<open>old\<close> stand for the two tests; \<open>ks\<close>
  are the chunks for whose file a server is asked, \<open>ws\<close> the states of the network in between, and
  \<open>ans\<close> the answers.
\<close>

lemma check_chunk_scan:
  assumes servers: "cfg_BootStrapServers (env_cfg env) \<noteq> []"
    and "\<And>k v. (k, v) \<in> set es \<Longrightarrow> decode_stream dec_ChunkRequest zero_ChunkRequest v = (f k, True) \<and> crq_ChunkId (f k) = k"
    and "distinct (map fst es)" "gc_panic s = None"
    and expired: "\<And>k. expired k \<longleftrightarrow> past_retention parse (fst (clock k)) (crq_ReleaseDate (f k))"
    and old: "\<And>k. old k \<longleftrightarrow> crq_CreatedAt (f k) > 0 \<and> wrap64 (snd (clock k) div second - crq_CreatedAt (f k)) > orphan_age"
  shows "\<exists>ks ws ans. ks = filter (\<lambda>k. \<not> expired k \<and> old k) (map fst es) \<and> ws 0 = gc_world s
    \<and> (\<forall>j < length ks. GetFileManifestFromServer env net (r (gc_calls s + j)) (crq_FileId (f (ks ! j))) (ws j) = (ans (ks ! j), ws (Suc j)))
    \<and> fold (\<lambda>(k, v). check_chunk env net parse (clock k) r k v) es s
      = s\<lparr>gc_calls := gc_calls s + length ks, gc_world := ws (length ks),
          gc_keys := gc_keys s @ filter (\<lambda>k. expired k \<or> (old k \<and> (\<forall>m. ans k \<noteq> Inr (Some m)))) (map fst es)\<rparr>"
  using assms(2-4)
proof (induction es arbitrary: s)
  case Nil
  show ?case by (rule exI[of _ "[]"], rule exI[of _ "\<lambda>_. gc_world s"]) simp
next
  case (Cons e es)
  obtain k v where e: "e = (k, v)" by (cases e)
  have d: "decode_stream dec_ChunkRequest zero_ChunkRequest v = (f k, True)" "crq_ChunkId (f k) = k"
    using Cons.prems(1)[of k v] e by auto
  obtain a w1 where g: "GetFileManifestFromServer env net (r (gc_calls s)) (crq_FileId (f k)) (gc_world s) = (a, w1)" by fastforce
  note step = check_chunk_asks[where r = r, OF servers Cons.prems(3) d(1) g, where parse = parse and now = "clock k" and k = k, folded expired old, unfolded d(2)]
  let ?s = "check_chunk env net parse (clock k) r k v s"
  have notin: "k \<notin> set (map fst es)" using Cons.prems(2) e by simp
  have "gc_panic ?s = None" using step Cons.prems(3) by simp
  then obtain ks ws ans where
      ks: "ks = filter (\<lambda>k. \<not> expired k \<and> old k) (map fst es)" and ws: "ws 0 = gc_world ?s"
    and calls: "\<forall>j < length ks. GetFileManifestFromServer env net (r (gc_calls ?s + j)) (crq_FileId (f (ks ! j))) (ws j) = (ans (ks ! j), ws (Suc j))"
    and all: "fold (\<lambda>(k, v). check_chunk env net parse (clock k) r k v) es ?s
      = ?s\<lparr>gc_calls := gc_calls ?s + length ks, gc_world := ws (length ks),
          gc_keys := gc_keys ?s @ filter (\<lambda>k. expired k \<or> (old k \<and> (\<forall>m. ans k \<noteq> Inr (Some m)))) (map fst es)\<rparr>"
    using Cons.IH[of ?s] Cons.prems(1,2) e by (auto simp del: map_map) blast
  define ans' where "ans' = ans(k := a)"
  have same: "filter (\<lambda>k. expired k \<or> (old k \<and> (\<forall>m. ans' k \<noteq> Inr (Some m)))) (map fst es)
      = filter (\<lambda>k. expired k \<or> (old k \<and> (\<forall>m. ans k \<noteq> Inr (Some m)))) (map fst es)"
    using notin by (intro filter_cong) (auto simp: ans'_def)
  have in_ks: "ks ! j \<noteq> k" if "j < length ks" for j using nth_mem[OF that] notin ks by auto
  show ?case
  proof (cases "\<not> expired k \<and> old k")
    case True
    then have st: "?s = s\<lparr>gc_calls := Suc (gc_calls s), gc_world := w1,
        gc_keys := gc_keys s @ (if \<exists>m. a = Inr (Some m) then [] else [k])\<rparr>" using step by simp
    have "GetFileManifestFromServer env net (r (gc_calls s + j)) (crq_FileId (f ((k # ks) ! j))) (case_nat (gc_world s) ws j)
        = (ans' ((k # ks) ! j), case_nat (gc_world s) ws (Suc j))" if "j < length (k # ks)" for j
    proof (cases j)
      case 0
      then show ?thesis using g ws st by (simp add: ans'_def)
    next
      case (Suc i)
      then show ?thesis using calls st in_ks that by (auto simp: ans'_def)
    qed
    then show ?thesis
      using True all st ks same
      by (intro exI[of _ "k # ks"] exI[of _ "case_nat (gc_world s) ws"] exI[of _ ans']) (simp add: e ans'_def)
  next
    case False
    then have st: "?s = s\<lparr>gc_keys := gc_keys s @ (if expired k then [k] else [])\<rparr>" using step by (auto simp: split: if_splits)
    show ?thesis
      using False all st ks same ws calls in_ks
      by (intro exI[of _ ks] exI[of _ ws] exI[of _ ans']) (auto simp: e ans'_def)
  qed
qed

text \<open>
  A pass over well-formed chunks: what is removed, who is asked, and with which draw. The
  thresholds are those of the source, in nanoseconds and seconds.
\<close>

lemma clean_node_pass_result:
  assumes "badger_reliable (env_bg env)" "cfg_BootStrapServers (env_cfg env) \<noteq> []"
    and wf: "\<And>k v. view (env_bg env) db ns_chunks k = Some (Inr v) \<Longrightarrow>
      v = marshal enc_ChunkRequest (f k) \<and> ok_ChunkRequest (f k) \<and> crq_ChunkId (f k) = k"
    and expired: "\<And>k. expired k \<longleftrightarrow> (\<exists>t. parse (crq_ReleaseDate (f k)) = Some t \<and> fst (clock k) - t > 7 * 24 * 3600 * 1000000000)"
    and old: "\<And>k. old k \<longleftrightarrow> crq_CreatedAt (f k) > 0 \<and> wrap64 (snd (clock k) div 1000000000 - crq_CreatedAt (f k)) > 7200"
  shows "\<exists>n db' ks ws ans. clean_node_pass env net parse clock r db w = (Inr (n, db'), ws (length ks)) \<and> ws 0 = w
    \<and> distinct ks \<and> set ks = {k. view (env_bg env) db ns_chunks k \<noteq> None \<and> \<not> expired k \<and> old k}
    \<and> (\<forall>j < length ks. GetFileManifestFromServer env net (r j) (crq_FileId (f (ks ! j))) (ws j) = (ans (ks ! j), ws (Suc j)))
    \<and> (\<forall>k. view (env_bg env) db' ns_chunks k
        = (if expired k \<or> (old k \<and> (\<forall>m. ans k \<noteq> Inr (Some m))) then None else view (env_bg env) db ns_chunks k))"
proof -
  let ?es = "entries_of (env_bg env) db ns_chunks"
  let ?s = "\<lparr>gc_keys = [], gc_calls = 0, gc_world = w, gc_panic = None\<rparr>"
  have es: "set ?es = {(k, v). view (env_bg env) db ns_chunks k = Some (Inr v)}"
    by (rule badger_reliable.entries_complete[OF assms(1)])
  have keys: "k \<in> set (map fst ?es) \<longleftrightarrow> view (env_bg env) db ns_chunks k \<noteq> None" for k
    using es by (cases rule: reliable_view_cases[OF assms(1), of db ns_chunks k, case_names none some]) force+
  have dec: "decode_stream dec_ChunkRequest zero_ChunkRequest v = (f k, True) \<and> crq_ChunkId (f k) = k" if "(k, v) \<in> set ?es" for k v
    using wf[of k v] that es by (simp add: crq.stream_marshal_end)
  have exp: "expired k \<longleftrightarrow> past_retention parse (fst (clock k)) (crq_ReleaseDate (f k))" for k
    unfolding expired by (auto simp: past_retention_def retention_def second_def split: option.split)
  have age: "old k \<longleftrightarrow> crq_CreatedAt (f k) > 0 \<and> wrap64 (snd (clock k) div second - crq_CreatedAt (f k)) > orphan_age" for k
    unfolding old by (simp add: second_def orphan_age_def)
  obtain ks ws ans where r: "ks = filter (\<lambda>k. \<not> expired k \<and> old k) (map fst ?es)" "ws 0 = w"
      "\<forall>j < length ks. GetFileManifestFromServer env net (r j) (crq_FileId (f (ks ! j))) (ws j) = (ans (ks ! j), ws (Suc j))"
      "fold (\<lambda>(k, v). check_chunk env net parse (clock k) r k v) ?es ?s = ?s\<lparr>gc_calls := length ks, gc_world := ws (length ks),
          gc_keys := filter (\<lambda>k. expired k \<or> (old k \<and> (\<forall>m. ans k \<noteq> Inr (Some m)))) (map fst ?es)\<rparr>"
    using check_chunk_scan[OF assms(2) dec _ _ exp age, where es = ?es and s = ?s and net = net and r = r] badger_ok.entries_distinct[OF reliable_ok[OF assms(1)], of db ns_chunks] by auto
  let ?ks = "filter (\<lambda>k. expired k \<or> (old k \<and> (\<forall>m. ans k \<noteq> Inr (Some m)))) (map fst ?es)"
  have pass: "clean_node_pass env net parse clock r db w = (Inr (delete_keys (env_bg env) ns_chunks ?ks db), ws (length ks))"
    using r(4) by (simp add: clean_node_pass_def IterateAndProcess_fold Let_def)
  have gone: "view (env_bg env) (snd (delete_keys (env_bg env) ns_chunks ?ks db)) ns_chunks k
      = (if expired k \<or> (old k \<and> (\<forall>m. ans k \<noteq> Inr (Some m))) then None else view (env_bg env) db ns_chunks k)" for k
    using keys[of k] by (auto simp: removed_view assms(1))
  have "distinct ks" "set ks = {k. view (env_bg env) db ns_chunks k \<noteq> None \<and> \<not> expired k \<and> old k}"
    using r(1) badger_ok.entries_distinct[OF reliable_ok[OF assms(1)], of db ns_chunks] keys by auto
  then show ?thesis
    using pass gone r(2,3) by (cases "delete_keys (env_bg env) ns_chunks ?ks db") auto
qed

lemma outage_answer:
  assumes "cfg_BootStrapServers (env_cfg env) \<noteq> []" "\<And>w url body. \<exists>e w'. net_post net w url body = (Inl e, w')"
  shows "\<exists>e w'. GetFileManifestFromServer env net i fileId w = (Inl (Err e), w')"
proof (cases "sign env (marshal enc_GetFileManifestRequest (manifest_request env fileId))")
  case (Inl e)
  then show ?thesis using assms(1) sign_error_Err[OF Inl]
    by (auto simp: GetFileManifestFromServer_def Intn_def Let_def)
next
  case (Inr s)
  obtain e w' where "net_post net w (http_url (cfg_BootStrapServers (env_cfg env) ! (i mod length (cfg_BootStrapServers (env_cfg env)))) ''/manifests'')
      (marshal enc_GetFileManifestRequest ((manifest_request env fileId)\<lparr>gfm_Signature := Some s\<rparr>)) = (Inl e, w')"
    using assms(2) by blast
  then show ?thesis using Inr assms(1)
    by (simp add: GetFileManifestFromServer_def Intn_def Let_def)
qed

subsection \<open>Concrete stores\<close>

definition ref_down :: "unit net" where
  "ref_down = \<lparr>net_post = (\<lambda>w u b. (Inl ''down'', w)), net_delete = (\<lambda>w u b. (Inl ''down'', w))\<rparr>"

definition ref_store :: "bytes \<Rightarrow> bytes \<Rightarrow> bytes \<Rightarrow> (bytes, bytes) RBT.rbt" where
  "ref_store ns k v = RBT.insert (makeKey ns k) v RBT.empty"

lemma ref_store_view:
  "colon_free q \<Longrightarrow> colon_free ns \<Longrightarrow> view mem_badger (ref_store ns k v) q l = (if q = ns \<and> l = k then Some (Inr v) else None)"
  by (simp add: ref_store_def mem_view)

definition ref_chunk :: ChunkRequest where
  "ref_chunk = zero_ChunkRequest\<lparr>crq_ChunkId := ''k'', crq_FileId := ''f'', crq_CreatedAt := 1\<rparr>"

lemma ref_chunk_ok: "ok_ChunkRequest ref_chunk"
  using crq.zero_ok by (simp add: ref_chunk_def ok_ChunkRequest_def in_int64_def)

lemma ref_chunk_simps [simp]:
  "crq_ChunkId ref_chunk = ''k''" "crq_CreatedAt ref_chunk = 1" "crq_FileId ref_chunk = ''f''"
  "crq_ReleaseDate ref_chunk = []"
  by (simp_all add: ref_chunk_def zero_ChunkRequest_def)

text \<open>What the passes of the bootstrap server leave of an entry, on any store that works.\<close>

lemma clean_inactive_view:
  assumes "badger_reliable (env_bg env)"
  shows "view (env_bg env) (snd (clean_inactive_pass env now db)) ns_active_nodes k = (case view (env_bg env) db ns_active_nodes k of
      Some (Inr v) \<Rightarrow> if unresponsive now v then None else Some (Inr v) | x \<Rightarrow> x)"
    "colon_free q \<Longrightarrow> q \<noteq> ns_active_nodes
      \<Longrightarrow> view (env_bg env) (snd (clean_inactive_pass env now db)) q = view (env_bg env) db q"
proof -
  let ?all = "fst (GetAllData (env_bg env) db ns_active_nodes)"
  let ?ks = "map fst (filter (\<lambda>e. unresponsive now (snd e)) ?all)"
  have pass: "clean_inactive_pass env now db = delete_keys (env_bg env) ns_active_nodes ?ks db"
    using badger_reliable.GetAllData_complete(1)[OF assms(1), of db ns_active_nodes]
    by (auto simp: clean_inactive_pass_def remove_unresponsive_delete_keys split: prod.split option.split)
  have "gomap_ok ?all" using badger_ok.GetAllData_view(1)[OF reliable_ok[OF assms(1)]] .
  then have mem: "(k, v) \<in> set ?all \<longleftrightarrow> view (env_bg env) db ns_active_nodes k = Some (Inr v)" for v
    using badger_reliable.GetAllData_complete(2)[OF assms(1), of db ns_active_nodes k]
    by (auto simp: map_of_eq_Some_iff[OF gomap_distinct, symmetric] split: option.splits sum.splits)
  show "view (env_bg env) (snd (clean_inactive_pass env now db)) ns_active_nodes k = (case view (env_bg env) db ns_active_nodes k of
      Some (Inr v) \<Rightarrow> if unresponsive now v then None else Some (Inr v) | x \<Rightarrow> x)"
    unfolding pass removed_view[OF assms ns_colon_free(1)] keys_filter_snd mem
    by (cases rule: reliable_view_cases[OF assms(1), of db ns_active_nodes k, case_names none some]) auto
  show "view (env_bg env) (snd (clean_inactive_pass env now db)) q = view (env_bg env) db q"
    if "colon_free q" "q \<noteq> ns_active_nodes"
    using delete_keys_frame[OF reliable_ok[OF assms(1)] _ that] by (simp add: pass)
qed

lemma clean_bootstrap_view:
  assumes "badger_reliable (env_bg env)"
  shows "view (env_bg env) (snd (clean_bootstrap_pass env parse now db)) ns_manifests k =
      (if \<exists>k' v m. view (env_bg env) db ns_manifests k' = Some (Inr v) \<and> decode_stream dec_FileManifest zero_FileManifest v = (m, True)
          \<and> man_FileId m = k \<and> past_retention parse now (man_ReleaseDate m)
       then None else view (env_bg env) db ns_manifests k)"
    "colon_free q \<Longrightarrow> q \<noteq> ns_manifests
      \<Longrightarrow> view (env_bg env) (snd (clean_bootstrap_pass env parse now db)) q = view (env_bg env) db q"
proof -
  let ?es = "entries_of (env_bg env) db ns_manifests"
  let ?ks = "fold (\<lambda>(k, v). check_manifest parse now k v) ?es []"
  have pass: "clean_bootstrap_pass env parse now db = delete_keys (env_bg env) ns_manifests ?ks db"
    by (simp add: clean_bootstrap_pass_def IterateAndProcess_fold)
  have es: "set ?es = {(k, v). view (env_bg env) db ns_manifests k = Some (Inr v)}"
    by (rule badger_reliable.entries_complete[OF assms(1)])
  show "view (env_bg env) (snd (clean_bootstrap_pass env parse now db)) ns_manifests k =
      (if \<exists>k' v m. view (env_bg env) db ns_manifests k' = Some (Inr v) \<and> decode_stream dec_FileManifest zero_FileManifest v = (m, True)
          \<and> man_FileId m = k \<and> past_retention parse now (man_ReleaseDate m)
       then None else view (env_bg env) db ns_manifests k)"
    unfolding pass removed_view[OF assms ns_colon_free(2)] check_manifest_fold es by auto
  show "view (env_bg env) (snd (clean_bootstrap_pass env parse now db)) q = view (env_bg env) db q"
    if "colon_free q" "q \<noteq> ns_manifests"
    using delete_keys_frame[OF reliable_ok[OF assms(1)] _ that] by (simp add: pass)
qed

subsection \<open>Properties\<close>

text \<open>
  On a registry of well-formed records and a store that works, a pass keeps exactly the nodes
  whose last subscription is at most two minutes old, and touches no other namespace.
\<close>

theorem clean_inactive_exact:
  assumes "badger_reliable (env_bg env)" "colon_free q" "q \<noteq> ns_active_nodes"
    and wf: "\<And>k v. view (env_bg env) db ns_active_nodes k = Some (Inr v) \<Longrightarrow>
      \<exists>pk. v = marshal enc_ActiveNodeRecord \<lparr>anr_PublicKey = pk, anr_Timestamp = t k\<rparr>"
    and range: "\<And>k. in_int64 (t k) \<and> in_int64 (now - t k)"
  shows "view (env_bg env) (snd (clean_inactive_pass env now db)) ns_active_nodes k
      = (if now - t k \<le> 2 * 60 * 1000000000 then view (env_bg env) db ns_active_nodes k else None)
    \<and> view (env_bg env) (snd (clean_inactive_pass env now db)) q = view (env_bg env) db q"
proof -
  have "unresponsive now v \<longleftrightarrow> \<not> now - t k \<le> 2 * 60 * 1000000000"
    if v: "view (env_bg env) db ns_active_nodes k = Some (Inr v)" for v
  proof -
    obtain pk where "v = marshal enc_ActiveNodeRecord \<lparr>anr_PublicKey = pk, anr_Timestamp = t k\<rparr>"
      using wf[OF v] by blast
    then show ?thesis
      using range[of k] by (simp add: unresponsive_def anr.stream_marshal_end ok_ActiveNodeRecord_def wrap64_id
          heartbeat_timeout_def second_def not_le)
  qed
  then show ?thesis
    using clean_inactive_view[OF assms(1), where now = now and db = db] assms(2,3)
    by (cases rule: reliable_view_cases[OF assms(1), of db ns_active_nodes k, case_names none some]) auto
qed

theorem clean_inactive_exact_witness:
  "view mem_badger (snd (clean_inactive_pass (ref_env ''a'' []) 121000000000
     (ref_store ns_active_nodes ''x'' (marshal enc_ActiveNodeRecord \<lparr>anr_PublicKey = None, anr_Timestamp = 0\<rparr>))))
     ns_active_nodes ''x'' = None"
proof -
  let ?db = "ref_store ns_active_nodes ''x'' (marshal enc_ActiveNodeRecord \<lparr>anr_PublicKey = None, anr_Timestamp = 0\<rparr>)"
  have wf: "\<exists>pk. v = marshal enc_ActiveNodeRecord \<lparr>anr_PublicKey = pk, anr_Timestamp = 0\<rparr>"
    if "view (env_bg (ref_env ''a'' [])) ?db ns_active_nodes k = Some (Inr v)" for k v
    using that by (auto simp: ref_store_view split: if_splits)
  show ?thesis
    using clean_inactive_exact[of "ref_env ''a'' []" ns_manifests ?db "\<lambda>_. 0" 121000000000 "''x''", OF _ _ _ wf]
    by (simp add: mem_reliable in_int64_def)
qed

text \<open>
  On well-formed manifests, each under its own file id, a pass removes exactly those whose
  release date parses and lies more than seven days back.
\<close>

theorem clean_bootstrap_exact:
  assumes "badger_reliable (env_bg env)" "colon_free q" "q \<noteq> ns_manifests"
    and wf: "\<And>k v. view (env_bg env) db ns_manifests k = Some (Inr v) \<Longrightarrow>
      v = marshal enc_FileManifest (f k) \<and> ok_FileManifest (f k) \<and> man_FileId (f k) = k"
  shows "view (env_bg env) (snd (clean_bootstrap_pass env parse now db)) ns_manifests k
      = (case parse (man_ReleaseDate (f k)) of
           Some t \<Rightarrow> if now - t > 7 * 24 * 3600 * 1000000000 then None else view (env_bg env) db ns_manifests k
         | None \<Rightarrow> view (env_bg env) db ns_manifests k)
    \<and> view (env_bg env) (snd (clean_bootstrap_pass env parse now db)) q = view (env_bg env) db q"
proof -
  have "decode_stream dec_FileManifest zero_FileManifest v = (f l, True) \<and> man_FileId (f l) = l"
    if "view (env_bg env) db ns_manifests l = Some (Inr v)" for l v
    using wf[OF that] by (simp add: man.stream_marshal_end)
  then have "(\<exists>l v m. view (env_bg env) db ns_manifests l = Some (Inr v) \<and> decode_stream dec_FileManifest zero_FileManifest v = (m, True)
        \<and> man_FileId m = k \<and> past_retention parse now (man_ReleaseDate m))
      \<longleftrightarrow> view (env_bg env) db ns_manifests k \<noteq> None \<and> past_retention parse now (man_ReleaseDate (f k))"
    by (cases rule: reliable_view_cases[OF assms(1), of db ns_manifests k, case_names none some]) fastforce+
  then show ?thesis
    using clean_bootstrap_view[OF assms(1), where db = db and now = now and parse = parse] assms(2,3)
    by (auto simp: past_retention_def retention_def second_def split: option.split)
qed

theorem clean_bootstrap_exact_witness:
  "view mem_badger (snd (clean_bootstrap_pass (ref_env ''a'' []) (\<lambda>_. Some 0) 604800000000001
     (ref_store ns_manifests [] (marshal enc_FileManifest zero_FileManifest)))) ns_manifests [] = None"
proof -
  let ?db = "ref_store ns_manifests [] (marshal enc_FileManifest zero_FileManifest)"
  have id: "man_FileId zero_FileManifest = []" by (simp add: zero_FileManifest_def)
  have wf: "v = marshal enc_FileManifest zero_FileManifest \<and> ok_FileManifest zero_FileManifest \<and> man_FileId zero_FileManifest = k"
    if "view (env_bg (ref_env ''a'' [])) ?db ns_manifests k = Some (Inr v)" for k v
    using that id by (auto simp: ref_store_view man.zero_ok split: if_splits)
  show ?thesis
    using clean_bootstrap_exact[of "ref_env ''a'' []" ns_active_nodes ?db "\<lambda>_. zero_FileManifest" "\<lambda>_. Some 0"
        604800000000001 "[]", OF _ _ _ wf]
    by (simp add: mem_reliable)
qed

text \<open>
  C19: the node's pass over well-formed chunks, each under its own id, with at least one server in
  the settings and a store that works: exactly those chunks go whose release date lies more than
  seven days back, and those older than two hours for whose file the one server that is asked, at
  random, does not answer with a manifest. \<open>ks\<close> are the chunks a server is asked about, once each:
  those past two hours that are not expired. \<open>ws\<close> are the states of the network between the
  questions, the \<open>j\<close>-th with the draw \<open>r j\<close>, and \<open>ans\<close> the answers; two hours are seconds that
  wrap around at 64 bits.
\<close>

theorem clean_node_exact:
  assumes "badger_reliable (env_bg env)" "cfg_BootStrapServers (env_cfg env) \<noteq> []"
    and "\<And>k v. view (env_bg env) db ns_chunks k = Some (Inr v) \<Longrightarrow>
      v = marshal enc_ChunkRequest (f k) \<and> ok_ChunkRequest (f k) \<and> crq_ChunkId (f k) = k"
    and "\<And>k. expired k \<longleftrightarrow> (\<exists>t. parse (crq_ReleaseDate (f k)) = Some t \<and> fst (clock k) - t > 7 * 24 * 3600 * 1000000000)"
    and "\<And>k. old k \<longleftrightarrow> crq_CreatedAt (f k) > 0 \<and> wrap64 (snd (clock k) div 1000000000 - crq_CreatedAt (f k)) > 7200"
  shows "\<exists>n db' ks ws ans. clean_node_pass env net parse clock r db w = (Inr (n, db'), ws (length ks)) \<and> ws 0 = w
    \<and> distinct ks \<and> set ks = {k. view (env_bg env) db ns_chunks k \<noteq> None \<and> \<not> expired k \<and> old k}
    \<and> (\<forall>j < length ks. GetFileManifestFromServer env net (r j) (crq_FileId (f (ks ! j))) (ws j) = (ans (ks ! j), ws (Suc j)))
    \<and> (\<forall>k. view (env_bg env) db' ns_chunks k
        = (if expired k \<or> (old k \<and> (\<forall>m. ans k \<noteq> Inr (Some m))) then None else view (env_bg env) db ns_chunks k))"
  by (rule clean_node_pass_result[OF assms])

theorem clean_node_exact_witness:
  "\<exists>n db'. clean_node_pass (ref_env ''a'' [''b'']) ref_down (\<lambda>_. None) (\<lambda>_. (7202000000000, 7202000000000)) (\<lambda>_. 0)
      (ref_store ns_chunks ''k'' (marshal enc_ChunkRequest ref_chunk)) () = (Inr (n, db'), ())
    \<and> view mem_badger db' ns_chunks ''k'' = None"
proof -
  let ?env = "ref_env ''a'' [''b'']"
  let ?db = "ref_store ns_chunks ''k'' (marshal enc_ChunkRequest ref_chunk)"
  let ?old = "\<lambda>k :: bytes. True"
  have wf: "v = marshal enc_ChunkRequest ref_chunk \<and> ok_ChunkRequest ref_chunk \<and> crq_ChunkId ref_chunk = k"
    if "view (env_bg ?env) ?db ns_chunks k = Some (Inr v)" for k v
    using that by (auto simp: ref_store_view ref_chunk_ok split: if_splits)
  obtain n db' ks ws ans where
      pass: "clean_node_pass ?env ref_down (\<lambda>_. None) (\<lambda>_. (7202000000000, 7202000000000)) (\<lambda>_. 0) ?db () = (Inr (n, db'), ws (length ks))"
    and ks: "set ks = {k. view (env_bg ?env) ?db ns_chunks k \<noteq> None \<and> \<not> False \<and> ?old k}"
    and calls: "\<forall>j < length ks. GetFileManifestFromServer ?env ref_down 0 (crq_FileId ref_chunk) (ws j) = (ans (ks ! j), ws (Suc j))"
    and gone: "\<forall>k. view (env_bg ?env) db' ns_chunks k
        = (if False \<or> (?old k \<and> (\<forall>m. ans k \<noteq> Inr (Some m))) then None else view (env_bg ?env) ?db ns_chunks k)"
    using clean_node_exact[where env = ?env and db = ?db and f = "\<lambda>_. ref_chunk" and expired = "\<lambda>_. False" and parse = "\<lambda>_. None"
        and clock = "\<lambda>_. (7202000000000, 7202000000000)" and old = ?old and net = ref_down and r = "\<lambda>_. 0" and w = "()", OF _ _ wf]
    by (auto simp: mem_reliable wrap64_id in_int64_def)
  have "''k'' \<in> set ks" using ks by (simp add: ref_store_view)
  then obtain j where "j < length ks" "ks ! j = ''k''" by (auto simp: in_set_conv_nth)
  moreover have "\<exists>e w'. GetFileManifestFromServer ?env ref_down i fileId w = (Inl (Err e), w')" for i fileId w
    by (rule outage_answer) (simp_all add: ref_down_def)
  ultimately have "\<exists>e. ans ''k'' = Inl (Err e)" using calls by (metis prod.inject)
  then show ?thesis using pass gone by auto
qed

text \<open>
  C39: while no bootstrap server can be reached, a pass removes every chunk older than two hours,
  although its manifest may exist and its release date may lie in the future.
\<close>

theorem outage_removes_live_chunks:
  assumes "badger_reliable (env_bg env)" "cfg_BootStrapServers (env_cfg env) \<noteq> []"
    and "\<And>w url body. \<exists>e w'. net_post net w url body = (Inl e, w')"
    and "\<And>k v. view (env_bg env) db ns_chunks k = Some (Inr v) \<Longrightarrow>
      v = marshal enc_ChunkRequest (f k) \<and> ok_ChunkRequest (f k) \<and> crq_ChunkId (f k) = k"
    and "0 < crq_CreatedAt (f k)" "2 * 3600 < snd (clock k) div 1000000000 - crq_CreatedAt (f k)"
    and "in_int64 (snd (clock k) div 1000000000)"
  shows "\<exists>n db' w'. clean_node_pass env net parse clock r db w = (Inr (n, db'), w')
    \<and> view (env_bg env) db' ns_chunks k = None"
proof -
  define expired old where
    "expired k \<longleftrightarrow> (\<exists>t. parse (crq_ReleaseDate (f k)) = Some t \<and> fst (clock k) - t > 7 * 24 * 3600 * 1000000000)" and
    "old k \<longleftrightarrow> crq_CreatedAt (f k) > 0 \<and> wrap64 (snd (clock k) div 1000000000 - crq_CreatedAt (f k)) > 7200" for k
  have "wrap64 (snd (clock k) div 1000000000 - crq_CreatedAt (f k)) = snd (clock k) div 1000000000 - crq_CreatedAt (f k)"
    using assms(5-7) by (intro wrap64_id) (auto simp: in_int64_def)
  then have age: "old k" using assms(5,6) by (simp add: old_def)
  obtain n db' ks ws ans where
      pass: "clean_node_pass env net parse clock r db w = (Inr (n, db'), ws (length ks))"
    and ks: "set ks = {k. view (env_bg env) db ns_chunks k \<noteq> None \<and> \<not> expired k \<and> old k}"
    and calls: "\<forall>j < length ks. GetFileManifestFromServer env net (r j) (crq_FileId (f (ks ! j))) (ws j) = (ans (ks ! j), ws (Suc j))"
    and gone: "\<forall>k. view (env_bg env) db' ns_chunks k
        = (if expired k \<or> (old k \<and> (\<forall>m. ans k \<noteq> Inr (Some m))) then None else view (env_bg env) db ns_chunks k)"
    using clean_node_pass_result[OF assms(1,2,4) expired_def old_def, where net = net and r = r and w = w] by blast
  have "\<exists>e. ans k = Inl (Err e)" if "k \<in> set ks"
    using that calls outage_answer[OF assms(2,3)] by (metis in_set_conv_nth prod.inject)
  then have "view (env_bg env) db' ns_chunks k = None"
    using ks gone age by (cases "view (env_bg env) db ns_chunks k") auto
  then show ?thesis using pass by blast
qed

theorem outage_removes_live_chunks_witness:
  "\<exists>n db'. clean_node_pass (ref_env ''a'' [''b'']) ref_down (\<lambda>_. Some 10000000000000000) (\<lambda>_. (7300000000000, 7300000000000)) (\<lambda>_. 0)
      (ref_store ns_chunks ''k'' (marshal enc_ChunkRequest ref_chunk)) () = (Inr (n, db'), ())
    \<and> view mem_badger db' ns_chunks ''k'' = None"
proof -
  let ?db = "ref_store ns_chunks ''k'' (marshal enc_ChunkRequest ref_chunk)"
  have wf: "v = marshal enc_ChunkRequest ref_chunk \<and> ok_ChunkRequest ref_chunk \<and> crq_ChunkId ref_chunk = k"
    if "view (env_bg (ref_env ''a'' [''b''])) ?db ns_chunks k = Some (Inr v)" for k v
    using that by (auto simp: ref_store_view ref_chunk_ok split: if_splits)
  show ?thesis
    using outage_removes_live_chunks[of "ref_env ''a'' [''b'']" ref_down ?db "\<lambda>_. ref_chunk" "''k''" "\<lambda>_. (7300000000000, 7300000000000)"
        "\<lambda>_. Some 10000000000000000" "\<lambda>_. 0" "()", OF _ _ _ wf]
    by (simp add: mem_reliable ref_down_def in_int64_def)
qed

text \<open>Without a single bootstrap server in the settings, asking for one panics.\<close>

lemma no_servers_panic:
  "cfg_BootStrapServers (env_cfg env) = [] \<Longrightarrow>
     \<exists>p. GetFileManifestFromServer env net i fileId w = (Inl (Panic p), w)"
  by (simp add: GetFileManifestFromServer_def Intn_def)

lemma check_chunk_panicked: "gc_panic s \<noteq> None \<Longrightarrow> fold (\<lambda>(k, v). check_chunk env net parse (clock k) r k v) es s = s"
  by (induction es) (auto simp: check_chunk_def)

lemma check_chunk_no_servers:
  assumes "cfg_BootStrapServers (env_cfg env) = []" "(k, v) \<in> set es"
    and "decode_stream dec_ChunkRequest zero_ChunkRequest v = (chunk, True)"
    and "\<not> past_retention parse (fst (clock k)) (crq_ReleaseDate chunk)" "crq_CreatedAt chunk > 0"
    and "wrap64 (snd (clock k) div second - crq_CreatedAt chunk) > orphan_age"
  shows "gc_panic (fold (\<lambda>(k, v). check_chunk env net parse (clock k) r k v) es s) \<noteq> None"
  using assms(2)
proof (induction es arbitrary: s)
  case (Cons e es)
  show ?case
  proof (cases "e = (k, v)")
    case True
    obtain p where "GetFileManifestFromServer env net (r (gc_calls s)) (crq_FileId chunk) (gc_world s) = (Inl (Panic p), gc_world s)"
      using no_servers_panic[OF assms(1), of net "r (gc_calls s)" "crq_FileId chunk" "gc_world s"] by blast
    then have "gc_panic (check_chunk env net parse (clock k) r k v s) \<noteq> None"
      using assms(3-6) by (simp add: check_chunk_def)
    then show ?thesis using True check_chunk_panicked by (simp add: check_chunk_panicked)
  next
    case False
    then show ?thesis using Cons by (cases e) auto
  qed
qed simp

text \<open>
  C40: a node started without bootstrap servers dies in its garbage collector as soon as it holds a
  chunk that is two hours old and not past retention: \<open>rand.Intn(0)\<close> panics in a goroutine that
  does not recover.
\<close>

theorem collector_panics_without_servers:
  assumes "badger_reliable (env_bg env)" "cfg_BootStrapServers (env_cfg env) = []"
    and "view (env_bg env) db ns_chunks k = Some (Inr (marshal enc_ChunkRequest chunk))" "ok_ChunkRequest chunk"
    and "parse (crq_ReleaseDate chunk) = None \<or> (\<exists>t. parse (crq_ReleaseDate chunk) = Some t \<and> fst (clock k) \<le> t)"
    and "0 < crq_CreatedAt chunk" "2 * 3600 < snd (clock k) div 1000000000 - crq_CreatedAt chunk"
    and "in_int64 (snd (clock k) div 1000000000)"
  shows "\<exists>p w'. clean_node_pass env net parse clock r db w = (Inl p, w')"
proof -
  let ?s = "fold (\<lambda>(k, v). check_chunk env net parse (clock k) r k v) (entries_of (env_bg env) db ns_chunks)
      \<lparr>gc_keys = [], gc_calls = 0, gc_world = w, gc_panic = None\<rparr>"
  have "wrap64 (snd (clock k) div second - crq_CreatedAt chunk) = snd (clock k) div second - crq_CreatedAt chunk"
    using assms(6-8) by (intro wrap64_id) (auto simp: in_int64_def second_def)
  then have "gc_panic ?s \<noteq> None"
    using assms by (intro check_chunk_no_servers[where k = k and v = "marshal enc_ChunkRequest chunk" and chunk = chunk])
      (auto simp: badger_reliable.entries_complete crq.stream_marshal_end past_retention_def retention_def second_def orphan_age_def)
  then show ?thesis
    by (auto simp: clean_node_pass_def IterateAndProcess_fold Let_def)
qed

theorem collector_panics_without_servers_witness:
  "\<exists>p. clean_node_pass (ref_env ''a'' []) ref_down (\<lambda>_. None) (\<lambda>_. (7300000000000, 7300000000000)) (\<lambda>_. 0)
      (ref_store ns_chunks ''k'' (marshal enc_ChunkRequest ref_chunk)) () = (Inl p, ())"
  using collector_panics_without_servers[of "ref_env ''a'' []"
      "ref_store ns_chunks ''k'' (marshal enc_ChunkRequest ref_chunk)" "''k''" ref_chunk "\<lambda>_. None" "\<lambda>_. (7300000000000, 7300000000000)" ref_down "\<lambda>_. 0" "()"]
  by (simp add: mem_reliable ref_store_view ref_chunk_ok second_def in_int64_def)

end
