(* ===== verification/Node_Server.thy ===== *)
theory Node_Server
  imports Clean_Database Bootstrap_Api
begin

text \<open>
  The chunk store of a storage node: the gRPC service of \<open>internal/grpc/server/node_server.go\<close>, the
  two HTTP functions \<open>SaveChunk\<close> and \<open>GetChunk\<close> of \<open>internal/service/file_management.go\<close> and the
  \<open>Chunk\<close> handler of \<open>internal/api/node_api.go\<close>. The request message of the gRPC service has the
  fields of \<open>ChunkRequest\<close>, and the record is used for both. The step relation \<open>node_step\<close> is
  everything that writes to the store of a node; its invariant is what the garbage collector and
  the readers of chunks rely on.
\<close>

subsection \<open>gRPC\<close>

record ChunkResponse =
  rpc_Success :: bool
  rpc_Message :: bytes

text \<open>A handler returns a response and an error; with an error, gRPC sends the error only.\<close>

definition rpc_fail :: "bytes \<Rightarrow> string \<Rightarrow> ChunkResponse \<times> string option" where
  "rpc_fail msg e = (\<lparr>rpc_Success = False, rpc_Message = msg\<rparr>, Some e)"

definition rpc_ok :: "bytes \<Rightarrow> ChunkResponse \<times> string option" where
  "rpc_ok msg = (\<lparr>rpc_Success = True, rpc_Message = msg\<rparr>, None)"

definition NodeServer_SaveChunk ::
  "'db env \<Rightarrow> ChunkRequest \<Rightarrow> 'db \<Rightarrow> (ChunkResponse \<times> string option) \<times> 'db" where
  "NodeServer_SaveChunk env req db =
     (let message = marshal enc_ChunkRequest (req\<lparr>crq_Signature := None\<rparr>) in
      if \<not> check env message (crq_Signature req) (crq_PublicKey req)
      then (rpc_fail ''unauthorized'' ''signature verification failed'', db)
      else (let payload = marshal enc_ChunkRequest (req\<lparr>crq_Signature := None\<rparr>);
                (err, db1) = PutData (env_bg env) db ns_chunks (crq_ChunkId req) payload
            in if err \<noteq> None then (rpc_fail ''database error'' ''database error'', db1)
               else (rpc_ok ''chunk saved'', db1)))"

definition NodeServer_GetChunk :: "'db env \<Rightarrow> bytes \<Rightarrow> 'db \<Rightarrow> string + bytes" where
  "NodeServer_GetChunk env chunkId db =
     (case GetData (env_bg env) db ns_chunks chunkId of
        Inl _ \<Rightarrow> Inl ''chunk not found''
      | Inr data \<Rightarrow> Inr data)"

definition NodeServer_DeleteChunk :: "'db env \<Rightarrow> bytes \<Rightarrow> 'db \<Rightarrow> (ChunkResponse \<times> string option) \<times> 'db" where
  "NodeServer_DeleteChunk env chunkId db =
     (let (err, db1) = DeleteKey (env_bg env) db ns_chunks chunkId
      in if err \<noteq> None then (rpc_fail ''failed to delete chunk'' ''database error'', db1)
         else (rpc_ok ''chunk deleted'', db1))"

subsection \<open>HTTP\<close>

definition SaveChunk :: "'db env \<Rightarrow> request \<Rightarrow> 'db \<Rightarrow> string option \<times> 'db" where
  "SaveChunk env req db =
     (case decode_stream dec_ChunkRequest zero_ChunkRequest (req_Body req) of
        (_, False) \<Rightarrow> (Some ''decoding error'', db)
      | (chunkRequest, True) \<Rightarrow>
          (let message = marshal enc_ChunkRequest (chunkRequest\<lparr>crq_Signature := None\<rparr>) in
           case VerifySignature (env_C env) message (elems (crq_Signature chunkRequest)) (elems (crq_PublicKey chunkRequest)) of
             Inl _ \<Rightarrow> (Some ''verification error'', db)
           | Inr False \<Rightarrow> (Some ''signature verification failed'', db)
           | Inr True \<Rightarrow>
               (let payload = marshal enc_ChunkRequest (chunkRequest\<lparr>crq_Signature := None\<rparr>);
                    (err, db1) = PutData (env_bg env) db ns_chunks (crq_ChunkId chunkRequest) payload
                in (map_option (\<lambda>_. ''database error'') err, db1))))"

definition GetChunk :: "'db env \<Rightarrow> request \<Rightarrow> 'db \<Rightarrow> string + bytes" where
  "GetChunk env req db =
     (let chunkId = req_Query req ''chunkId'' in
      if chunkId = [] then Inl ''error 'chunkId' empty''
      else (case GetData (env_bg env) db ns_chunks chunkId of
          Inl _ \<Rightarrow> Inl ''database error''
        | Inr data \<Rightarrow> Inr data))"

text \<open>The error of the deletion is dropped, and nothing is verified before it.\<close>

definition Chunk_handler :: "'db env \<Rightarrow> request \<Rightarrow> 'db \<Rightarrow> response \<times> 'db" where
  "Chunk_handler env req db =
     (let chunkId = req_Query req ''id'' in
      if req_Method req = ''POST'' then
        (case SaveChunk env req db of
           (Some _, db1) \<Rightarrow> (http_Error ''Error saving chunk'' 500, db1)
         | (None, db1) \<Rightarrow> (respond [] [], db1))
      else if req_Method req = ''GET'' then
        (case GetChunk env req db of
           Inl _ \<Rightarrow> (http_Error ''Error getting chunk'' 500, db)
         | Inr chunk \<Rightarrow> (respond [(''Content-Type'', ''application/json'')] chunk, db))
      else if req_Method req = ''DELETE'' then
        (respond [] [], snd (DeleteKey (env_bg env) db ns_chunks chunkId))
      else (http_Error ''Method not allowed'' 405, db))"

subsection \<open>Upload status\<close>

definition enc_UploadStatus :: "bytes \<Rightarrow> json" where
  "enc_UploadStatus status = JObj [(''status'', JStr status)]"

definition saveStatus :: "'db env \<Rightarrow> bytes \<Rightarrow> bytes \<Rightarrow> 'db \<Rightarrow> 'db" where
  "saveStatus env fileId status db =
     snd (PutData (env_bg env) db ns_upload_status fileId (marshal enc_UploadStatus status))"

definition CheckStatus :: "'db env \<Rightarrow> request \<Rightarrow> 'db \<Rightarrow> response" where
  "CheckStatus env req db =
     (if req_Method req \<noteq> ''GET'' then http_Error ''Only GET method allowed!'' 405
      else let fileId = req_Query req ''id'' in
        if fileId = [] then http_Error ''Missing id parameter'' 400
        else (case GetData (env_bg env) db ns_upload_status fileId of
            Inl _ \<Rightarrow> http_Error ''Status not found'' 404
          | Inr data \<Rightarrow> respond [(''Content-Type'', ''application/json'')] data))"

subsection \<open>Metrics\<close>

definition GetNodeMetrics :: "'db env \<Rightarrow> machine \<Rightarrow> request \<Rightarrow> 'db \<Rightarrow> response" where
  "GetNodeMetrics env m req db =
     (if req_Method req \<noteq> ''GET'' then http_Error ''Only GET method allowed!'' 405
      else
        (let totalChunks = length (elems (GetAllKeys (env_bg env) db ns_chunks))
         in respond [(''Content-Type'', ''application/json'')] (render (JObj
              [(''data'', JObj [(''total_chunks'', enc_int (int totalChunks))]),
               (''status'', JStr ''online''),
               (''storage'', storage_json m)]))))"

subsection \<open>Everything that writes to a node's store\<close>

inductive node_step :: "'db env \<Rightarrow> 'w net \<Rightarrow> 'db \<Rightarrow> 'db \<Rightarrow> bool" for env net where
  grpc_save: "ok_ChunkRequest req \<Longrightarrow> NodeServer_SaveChunk env req db = (rsp, db') \<Longrightarrow> node_step env net db db'"
| grpc_delete: "NodeServer_DeleteChunk env chunkId db = (rsp, db') \<Longrightarrow> node_step env net db db'"
| http_chunk: "Chunk_handler env req db = (rsp, db') \<Longrightarrow> node_step env net db db'"
| status: "saveStatus env fileId st db = db' \<Longrightarrow> node_step env net db db'"
| collect: "clean_node_pass env net parse clock r db w = (Inr (n, db'), w') \<Longrightarrow> node_step env net db db'"

inductive node_reach :: "'db env \<Rightarrow> 'w net \<Rightarrow> 'db \<Rightarrow> bool" for env net where
  start: "(\<And>p k. view (env_bg env) db p k = None) \<Longrightarrow> node_reach env net db"
| step: "node_reach env net db \<Longrightarrow> node_step env net db db' \<Longrightarrow> node_reach env net db'"

text \<open>
  A chunk entry: the bytes decode to an unsigned request with the key as its chunk id, and some
  signature made them acceptable under the public key they name.
\<close>

definition chunk_entry :: "'db env \<Rightarrow> bytes \<Rightarrow> bytes \<Rightarrow> bool" where
  "chunk_entry env k v \<longleftrightarrow> (\<exists>chunk. v = marshal enc_ChunkRequest chunk \<and> ok_ChunkRequest chunk
     \<and> crq_ChunkId chunk = k \<and> crq_Signature chunk = None
     \<and> (\<exists>s. check env v s (crq_PublicKey chunk)))"

definition chunks_ok :: "'db env \<Rightarrow> 'db \<Rightarrow> bool" where
  "chunks_ok env db \<longleftrightarrow> (\<forall>k v. view (env_bg env) db ns_chunks k = Some (Inr v) \<longrightarrow> chunk_entry env k v)"

lemma chunk_entryI:
  assumes "ok_ChunkRequest req" "check env (marshal enc_ChunkRequest (req\<lparr>crq_Signature := None\<rparr>)) s (crq_PublicKey req)"
  shows "chunk_entry env (crq_ChunkId req) (marshal enc_ChunkRequest (req\<lparr>crq_Signature := None\<rparr>))"
  using assms unfolding chunk_entry_def
  by (intro exI[of _ "req\<lparr>crq_Signature := None\<rparr>"]) (auto simp: ok_ChunkRequest_def)

lemma chunks_ok_put:
  assumes "badger_ok (env_bg env)" "chunks_ok env db" "chunk_entry env k v"
  shows "chunks_ok env (snd (PutData (env_bg env) db ns_chunks k v))"
proof -
  obtain e db1 where p: "PutData (env_bg env) db ns_chunks k v = (e, db1)" by fastforce
  then show ?thesis
    using assms badger_ok.view_put[OF assms(1), of db ns_chunks k v]
    by (cases e) (auto simp: chunks_ok_def)
qed

lemma chunks_ok_shrink:
  assumes "chunks_ok env db" "\<And>k. view (env_bg env) db' ns_chunks k \<in> {None, view (env_bg env) db ns_chunks k}"
  shows "chunks_ok env db'"
  using assms unfolding chunks_ok_def by (metis insertE option.distinct(1) singletonD)

lemma del_shrinks:
  assumes "badger_ok bg" "colon_free p"
  shows "view bg (snd (DeleteKey bg db p k)) p l \<in> {None, view bg db p l}"
proof -
  obtain e db1 where d: "DeleteKey bg db p k = (e, db1)" by fastforce
  then show ?thesis
    using badger_ok.view_del[OF assms(1), of db p k] assms(2) by (cases e) auto
qed

lemma delete_keys_shrinks:
  assumes "badger_ok bg" "colon_free p"
  shows "view bg (snd (delete_keys bg p ks db)) p l \<in> {None, view bg db p l}"
proof (induction ks arbitrary: db)
  case (Cons k ks)
  show ?case
    using Cons.IH[of "snd (DeleteKey bg db p k)"] del_shrinks[OF assms, of db k l] by (auto simp: delete_keys_Cons)
qed simp

text \<open>Each way a store can change, for the chunks.\<close>

lemma SaveChunk_cases:
  obtains (same) "snd (SaveChunk env req db) = db"
  | (saved) c s where "ok_ChunkRequest c" "check env (marshal enc_ChunkRequest (c\<lparr>crq_Signature := None\<rparr>)) s (crq_PublicKey c)"
      "snd (SaveChunk env req db) = snd (PutData (env_bg env) db ns_chunks (crq_ChunkId c) (marshal enc_ChunkRequest (c\<lparr>crq_Signature := None\<rparr>)))"
proof -
  obtain c b where d: "decode_stream dec_ChunkRequest zero_ChunkRequest (req_Body req) = (c, b)" by fastforce
  then have ok: "ok_ChunkRequest c" using crq.stream_ok by (metis fst_conv)
  let ?m = "marshal enc_ChunkRequest (c\<lparr>crq_Signature := None\<rparr>)"
  let ?v = "VerifySignature (env_C env) ?m (elems (crq_Signature c)) (elems (crq_PublicKey c))"
  show thesis
  proof (cases "b \<and> ?v = Inr True")
    case True
    then have "check env ?m (crq_Signature c) (crq_PublicKey c)" by (simp add: check_def check_signature_def)
    moreover have "snd (SaveChunk env req db) = snd (PutData (env_bg env) db ns_chunks (crq_ChunkId c) ?m)"
      using True d by (simp add: SaveChunk_def Let_def case_prod_beta)
    ultimately show thesis using saved ok by blast
  next
    case False
    then have "snd (SaveChunk env req db) = db"
      using d by (cases b; cases ?v) (auto simp: SaveChunk_def Let_def split: bool.splits)
    then show thesis by (rule same)
  qed
qed

lemma node_step_preserves:
  assumes "badger_ok (env_bg env)" "node_step env net db db'" "chunks_ok env db"
  shows "chunks_ok env db'"
  using assms(2)
proof (cases rule: node_step.cases)
  case (grpc_save req rsp)
  then show ?thesis
    using assms(3) chunks_ok_put[OF assms(1,3) chunk_entryI[OF grpc_save(1)]]
    by (auto simp: NodeServer_SaveChunk_def Let_def case_prod_beta split: if_splits)
next
  case (grpc_delete chunkId rsp)
  then have "db' = snd (DeleteKey (env_bg env) db ns_chunks chunkId)"
    by (auto simp: NodeServer_DeleteChunk_def Let_def case_prod_beta split: if_splits)
  then show ?thesis using chunks_ok_shrink[OF assms(3)] del_shrinks[OF assms(1)] by simp
next
  case (http_chunk req rsp)
  then consider "db' = db" | "db' = snd (SaveChunk env req db)"
    | "db' = snd (DeleteKey (env_bg env) db ns_chunks (req_Query req ''id''))"
    by (auto simp: Chunk_handler_def Let_def split: if_splits prod.splits option.splits sum.splits)
  then show ?thesis
  proof cases
    case 2
    then show ?thesis
      using chunks_ok_put[OF assms(1,3) chunk_entryI] assms(3) by (cases rule: SaveChunk_cases[of env req db]) auto
  next
    case 3
    then show ?thesis using chunks_ok_shrink[OF assms(3)] del_shrinks[OF assms(1)] by simp
  qed (simp add: assms(3))
next
  case (status fileId st)
  then show ?thesis
    using badger_ok.view_put_other[OF assms(1), of ns_upload_status ns_chunks] assms(3)
    by (auto simp: saveStatus_def chunks_ok_def)
next
  case (collect parse clock r w n w')
  obtain ks where "db' = snd (delete_keys (env_bg env) ns_chunks ks db)"
    by (rule clean_node_pass_keys[OF collect])
  then show ?thesis using chunks_ok_shrink[OF assms(3)] delete_keys_shrinks[OF assms(1)] by simp
qed

subsection \<open>Properties\<close>

text \<open>
  In every reachable state of a storage node, each entry under \<open>chunks\<close> decodes to a request
  whose chunk id is the key it is stored under and that carries no signature, and its bytes were
  signed under the public key in it.
\<close>

theorem node_chunks_authentic:
  assumes "badger_ok (env_bg env)" "node_reach env net db"
    and "view (env_bg env) db ns_chunks k = Some (Inr v)"
  shows "\<exists>chunk s. decode_stream dec_ChunkRequest zero_ChunkRequest v = (chunk, True)
    \<and> crq_ChunkId chunk = k \<and> crq_Signature chunk = None \<and> check env v s (crq_PublicKey chunk)"
proof -
  have "chunks_ok env db"
    using assms(2)
    by induction (auto simp: chunks_ok_def dest: node_step_preserves[OF assms(1), unfolded chunks_ok_def])
  then obtain chunk s where "v = marshal enc_ChunkRequest chunk" "ok_ChunkRequest chunk" "crq_ChunkId chunk = k"
    "crq_Signature chunk = None" "check env v s (crq_PublicKey chunk)"
    using assms(3) unfolding chunks_ok_def chunk_entry_def by blast
  then show ?thesis using crq.stream_marshal_end by blast
qed

theorem node_chunks_authentic_witness:
  "\<exists>db v chunk s. node_reach (ref_env ''a'' []) ref_down db
     \<and> view mem_badger db ns_chunks ''k'' = Some (Inr v)
     \<and> decode_stream dec_ChunkRequest zero_ChunkRequest v = (chunk, True) \<and> crq_ChunkId chunk = ''k''
     \<and> check (ref_env ''a'' []) v s (crq_PublicKey chunk)"
proof -
  let ?e = "ref_env ''a'' []"
  let ?r = "ref_chunk\<lparr>crq_PublicKey := cfg_PublicKey (env_cfg ?e)\<rparr>"
  obtain s where s: "check ?e (marshal enc_ChunkRequest ?r) (Some s) (cfg_PublicKey (env_cfg ?e))"
    using ref_env_sign by blast
  let ?req = "?r\<lparr>crq_Signature := Some s\<rparr>"
  let ?db = "ref_store ns_chunks ''k'' (marshal enc_ChunkRequest ?r)"
  have req: "?req\<lparr>crq_Signature := None\<rparr> = ?r" "ok_ChunkRequest ?req"
    using ref_chunk_ok by (simp_all add: ref_chunk_def zero_ChunkRequest_def ok_ChunkRequest_def)
  have start: "node_reach ?e ref_down RBT.empty"
    by (rule node_reach.start) (simp add: mem_view)
  obtain rsp where "NodeServer_SaveChunk ?e ?req RBT.empty = (rsp, ?db)"
    using s req(1) by (simp add: NodeServer_SaveChunk_def Let_def ref_store_def)
  then have reach: "node_reach ?e ref_down ?db"
    by (rule node_reach.step[OF start node_step.grpc_save[OF req(2)]])
  have v: "view (env_bg ?e) ?db ns_chunks ''k'' = Some (Inr (marshal enc_ChunkRequest ?r))"
    by (simp add: ref_store_view)
  from node_chunks_authentic[OF _ reach v] show ?thesis
    using reach v by (auto simp: mem_reliable reliable_ok)
qed

text \<open>
  A chunk whose signature verifies is stored and then served unchanged, without its signature,
  until \<open>DeleteChunk\<close> removes it; no other chunk changes, and the deletion asks for no signature.
\<close>

theorem chunk_lifecycle:
  assumes "badger_reliable (env_bg env)" "ok_ChunkRequest req"
    and "check env (marshal enc_ChunkRequest (req\<lparr>crq_Signature := None\<rparr>)) (crq_Signature req) (crq_PublicKey req)"
  shows "\<exists>db1 db2 v. NodeServer_SaveChunk env req db = (rpc_ok ''chunk saved'', db1)
    \<and> NodeServer_GetChunk env (crq_ChunkId req) db1 = Inr v
    \<and> unmarshal dec_ChunkRequest zero_ChunkRequest v = (req\<lparr>crq_Signature := None\<rparr>, True)
    \<and> NodeServer_DeleteChunk env (crq_ChunkId req) db1 = (rpc_ok ''chunk deleted'', db2)
    \<and> NodeServer_GetChunk env (crq_ChunkId req) db2 = Inl ''chunk not found''
    \<and> (\<forall>k. k \<noteq> crq_ChunkId req \<longrightarrow> NodeServer_GetChunk env k db2 = NodeServer_GetChunk env k db)"
proof -
  let ?bg = "env_bg env" and ?id = "crq_ChunkId req"
  let ?v = "marshal enc_ChunkRequest (req\<lparr>crq_Signature := None\<rparr>)"
  obtain db1 where p: "PutData ?bg db ns_chunks ?id ?v = (None, db1)"
    using badger_reliable.put_reliable[OF assms(1)] by blast
  obtain db2 where d: "DeleteKey ?bg db1 ns_chunks ?id = (None, db2)"
    using badger_reliable.delete_reliable[OF assms(1)] by blast
  have views: "view ?bg db1 ns_chunks = (view ?bg db ns_chunks)(?id \<mapsto> Inr ?v)"
    "view ?bg db2 ns_chunks = (view ?bg db1 ns_chunks)(?id := None)"
    using reliable_put[OF assms(1), of ns_chunks db ?id ?v] reliable_del[OF assms(1), of ns_chunks db1 ?id] p d by simp_all
  have get: "NodeServer_GetChunk env k db' = (case view ?bg db' ns_chunks k of
      Some (Inr v) \<Rightarrow> Inr v | _ \<Rightarrow> Inl ''chunk not found'')" for k db'
    using badger_ok.view_get[OF reliable_ok[OF assms(1)], of db' ns_chunks k]
    by (auto simp: NodeServer_GetChunk_def split: option.splits sum.splits)
  have "unmarshal dec_ChunkRequest zero_ChunkRequest ?v = (req\<lparr>crq_Signature := None\<rparr>, True)"
    using assms(2) by (intro crq.unmarshal_marshal) (simp add: ok_ChunkRequest_def)
  moreover have "NodeServer_SaveChunk env req db = (rpc_ok ''chunk saved'', db1)"
    using assms(3) p by (simp add: NodeServer_SaveChunk_def Let_def)
  moreover have "NodeServer_DeleteChunk env ?id db1 = (rpc_ok ''chunk deleted'', db2)"
    using d by (simp add: NodeServer_DeleteChunk_def)
  ultimately show ?thesis by (auto simp: get views)
qed

theorem chunk_lifecycle_witness:
  "\<exists>s db1 v. NodeServer_SaveChunk (ref_env ''a'' [])
      (ref_chunk\<lparr>crq_PublicKey := cfg_PublicKey (env_cfg (ref_env ''a'' [])), crq_Signature := Some s\<rparr>) RBT.empty
      = (rpc_ok ''chunk saved'', db1)
    \<and> NodeServer_GetChunk (ref_env ''a'' []) ''k'' db1 = Inr v"
proof -
  let ?e = "ref_env ''a'' []"
  let ?r = "ref_chunk\<lparr>crq_PublicKey := cfg_PublicKey (env_cfg ?e)\<rparr>"
  obtain s where s: "check ?e (marshal enc_ChunkRequest ?r) (Some s) (cfg_PublicKey (env_cfg ?e))"
    using ref_env_sign by blast
  have "?r\<lparr>crq_Signature := Some s, crq_Signature := None\<rparr> = ?r" "ok_ChunkRequest (?r\<lparr>crq_Signature := Some s\<rparr>)"
    using ref_chunk_ok by (simp_all add: ref_chunk_def zero_ChunkRequest_def ok_ChunkRequest_def)
  then show ?thesis
    using chunk_lifecycle[of ?e "?r\<lparr>crq_Signature := Some s\<rparr>" RBT.empty] s by (auto simp: mem_reliable)
qed

text \<open>
  C27: the two ways to store a chunk agree: posting the encoded request to \<open>/chunk\<close> writes what the
  gRPC service writes for it, and fails exactly when the gRPC service fails.
\<close>

theorem http_save_is_grpc_save:
  assumes "ok_ChunkRequest req" "req_Method r = ''POST''" "req_Body r = marshal enc_ChunkRequest req"
  shows "snd (Chunk_handler env r db) = snd (NodeServer_SaveChunk env req db)
    \<and> (rsp_Status (fst (Chunk_handler env r db)) = 200 \<longleftrightarrow> snd (fst (NodeServer_SaveChunk env req db)) = None)"
proof -
  let ?m = "marshal enc_ChunkRequest (req\<lparr>crq_Signature := None\<rparr>)"
  let ?v = "VerifySignature (env_C env) ?m (elems (crq_Signature req)) (elems (crq_PublicKey req))"
  obtain e db1 where p: "PutData (env_bg env) db ns_chunks (crq_ChunkId req) ?m = (e, db1)" by fastforce
  have "decode_stream dec_ChunkRequest zero_ChunkRequest (req_Body r) = (req, True)"
    using assms by (simp add: crq.stream_marshal_end)
  moreover have "check env ?m (crq_Signature req) (crq_PublicKey req) \<longleftrightarrow> ?v = Inr True"
    by (simp add: check_def check_signature_def split: sum.split)
  ultimately show ?thesis
    using assms(2) p
    by (cases ?v; cases "?v = Inr True"; cases e)
      (auto simp: Chunk_handler_def SaveChunk_def NodeServer_SaveChunk_def Let_def rpc_fail_def rpc_ok_def split: bool.splits)
qed

theorem http_save_is_grpc_save_witness:
  "rsp_Status (fst (Chunk_handler (ref_env ''a'' [])
      \<lparr>req_Method = ''POST'', req_Path = ''/chunk'', req_Query = (\<lambda>_. []), req_Body = marshal enc_ChunkRequest ref_chunk\<rparr> RBT.empty)) = 200
   \<longleftrightarrow> snd (fst (NodeServer_SaveChunk (ref_env ''a'' []) ref_chunk RBT.empty)) = None"
  using http_save_is_grpc_save[OF ref_chunk_ok, of
      "\<lparr>req_Method = ''POST'', req_Path = ''/chunk'', req_Query = (\<lambda>_. []), req_Body = marshal enc_ChunkRequest ref_chunk\<rparr>"
      "ref_env ''a'' []" RBT.empty]
  by simp

end
