(* ===== verification/Grpc_Pool.thy ===== *)
theory Grpc_Pool
  imports Config
begin

text \<open>
  \<open>internal/service/grpc_pool.go\<close>: the cache of gRPC connections, one per advertised address. The
  gRPC library is what the state records of it: connections are numbered in the order of their
  creation, each has a target and a connectivity state, which the library changes on its own.
  \<open>net.SplitHostPort\<close> is modelled because the target is computed with it.
\<close>

subsection \<open>net.SplitHostPort\<close>

fun last_colon :: "bytes \<Rightarrow> nat option" where
  "last_colon [] = None"
| "last_colon (c # cs) = (case last_colon cs of Some i \<Rightarrow> Some (Suc i) | None \<Rightarrow> if c = CHR '':'' then Some 0 else None)"

definition index_of :: "char \<Rightarrow> bytes \<Rightarrow> nat option" where
  "index_of x s = (if x \<in> set s then Some (length (takeWhile (\<lambda>c. c \<noteq> x) s)) else None)"

definition SplitHostPort :: "bytes \<Rightarrow> string + bytes \<times> bytes" where
  "SplitHostPort hostport =
     (case last_colon hostport of None \<Rightarrow> Inl ''missing port in address''
      | Some i \<Rightarrow>
          (let rest = (if hd hostport = CHR ''['' then
                 (case index_of (CHR '']'') hostport of
                    None \<Rightarrow> Inl ''missing ']' in address''
                  | Some e \<Rightarrow>
                      if e + 1 = length hostport then Inl ''missing port in address''
                      else if e + 1 = i then Inr (take (e - 1) (drop 1 hostport), 1, e + 1)
                      else if hostport ! (e + 1) = CHR '':'' then Inl ''too many colons in address''
                      else Inl ''missing port in address'')
               else if CHR '':'' \<in> set (take i hostport) then Inl ''too many colons in address''
               else Inr (take i hostport, 0, 0))
           in case rest of Inl e \<Rightarrow> Inl e
            | Inr (host, j, k) \<Rightarrow>
                if CHR ''['' \<in> set (drop j hostport) then Inl ''unexpected '[' in address''
                else if CHR '']'' \<in> set (drop k hostport) then Inl ''unexpected ']' in address''
                else Inr (host, drop (i + 1) hostport)))"

subsection \<open>The pool\<close>

datatype connectivity = Idle | Connecting | Ready | TransientFailure | Shutdown

record pool =
  pl_conns :: "bytes \<Rightarrow> nat option"
  pl_count :: nat
  pl_target :: "nat \<Rightarrow> bytes"
  pl_state :: "nat \<Rightarrow> connectivity"

definition close_conn :: "nat \<Rightarrow> pool \<Rightarrow> pool" where
  "close_conn n s = s\<lparr>pl_state := (pl_state s)(n := Shutdown)\<rparr>"

text \<open>\<open>grpc.NewClient\<close> fails for some targets (the argument \<open>bad\<close>) and otherwise starts idle.\<close>

definition new_conn :: "(bytes \<Rightarrow> bool) \<Rightarrow> bytes \<Rightarrow> pool \<Rightarrow> (string + nat) \<times> pool" where
  "new_conn bad target s =
     (if bad target then (Inl ''grpc.NewClient'', s)
      else (Inr (pl_count s), s\<lparr>pl_count := Suc (pl_count s), pl_target := (pl_target s)(pl_count s := target),
              pl_state := (pl_state s)(pl_count s := Idle)\<rparr>))"

definition grpc_address :: "bytes \<Rightarrow> string + bytes" where
  "grpc_address nodeAddress =
     (case SplitHostPort nodeAddress of Inl e \<Rightarrow> Inl e
      | Inr (host, portStr) \<Rightarrow>
          (case parse_int64 portStr of None \<Rightarrow> Inl ''strconv.Atoi''
           | Some port \<Rightarrow> Inr (host @ '':'' @ show_int (wrap64 (port + 1000)))))"

definition GetGrpcConnection :: "(bytes \<Rightarrow> bool) \<Rightarrow> bytes \<Rightarrow> pool \<Rightarrow> (string + nat) \<times> pool" where
  "GetGrpcConnection bad nodeAddress s =
     (let fresh = (\<lambda>s. case grpc_address nodeAddress of Inl e \<Rightarrow> (Inl e, s)
            | Inr grpcAddr \<Rightarrow>
                (case new_conn bad grpcAddr s of
                   (Inl e, s1) \<Rightarrow> (Inl e, s1)
                 | (Inr conn, s1) \<Rightarrow> (Inr conn, s1\<lparr>pl_conns := (pl_conns s1)(nodeAddress \<mapsto> conn)\<rparr>)))
      in case pl_conns s nodeAddress of
           Some conn \<Rightarrow>
             if pl_state s conn \<noteq> Shutdown \<and> pl_state s conn \<noteq> TransientFailure then (Inr conn, s)
             else (let s1 = close_conn conn s in fresh (s1\<lparr>pl_conns := (pl_conns s1)(nodeAddress := None)\<rparr>))
         | None \<Rightarrow> fresh s)"

text \<open>The map is walked in any order: here a list of its keys.\<close>

fun CloseAllGrpcConnections :: "bytes list \<Rightarrow> pool \<Rightarrow> pool" where
  "CloseAllGrpcConnections [] s = s"
| "CloseAllGrpcConnections (k # ks) s =
     CloseAllGrpcConnections ks
       (case pl_conns s k of None \<Rightarrow> s
        | Some conn \<Rightarrow> (close_conn conn s)\<lparr>pl_conns := (pl_conns s)(k := None)\<rparr>)"

subsection \<open>Addresses\<close>

definition plain_host :: "bytes \<Rightarrow> bool" where
  "plain_host h \<longleftrightarrow> set h \<inter> {CHR '':'', CHR ''['', CHR '']''} = {}"

lemma last_colon_append:
  "CHR '':'' \<notin> set p \<Longrightarrow> last_colon (h @ CHR '':'' # p) = Some (length h)"
proof (induction h)
  case Nil
  have "last_colon p = None" using Nil by (induction p) auto
  then show ?case by simp
qed simp

lemma show_int_plain:
  "CHR '':'' \<notin> set (show_int i)" "CHR ''['' \<notin> set (show_int i)" "CHR '']'' \<notin> set (show_int i)"
proof -
  have "\<not> num_char (CHR '':'')" "\<not> num_char (CHR ''['')" "\<not> num_char (CHR '']'')"
    by (simp_all add: num_char_def is_digit_def)
  then show "CHR '':'' \<notin> set (show_int i)" "CHR ''['' \<notin> set (show_int i)" "CHR '']'' \<notin> set (show_int i)"
    using num_chars_show_int[of i] by (auto simp: list_all_iff)
qed

lemma SplitHostPort_self:
  assumes "plain_host h"
  shows "SplitHostPort (h @ '':'' @ show_int p) = Inr (h, show_int p)"
proof -
  have "hd (h @ '':'' @ show_int p) \<noteq> CHR ''[''"
    using assms by (cases h) (auto simp: plain_host_def)
  then show ?thesis
    using assms last_colon_append[OF show_int_plain(1), of h]
    by (simp add: SplitHostPort_def plain_host_def Let_def show_int_plain)
qed

text \<open>
  For a host without colons or brackets, the address another node dials for a process is its
  host with the port 1000 above the advertised one, the port the process listens on for gRPC.
\<close>

theorem grpc_address_advertised:
  assumes "plain_host (cfg_AdvertisedAddress cfg)" "in_int64 (cfg_Port cfg)"
  shows "grpc_address (self_address cfg) = Inr (cfg_AdvertisedAddress cfg @ '':'' @ show_int (wrap64 (cfg_Port cfg + 1000)))"
  using SplitHostPort_self[OF assms(1)] assms(2) by (simp add: grpc_address_def self_address_def parse_show_int)

theorem grpc_address_advertised_witness:
  "grpc_address (self_address (default_config\<lparr>cfg_AdvertisedAddress := ''10.0.0.7''\<rparr>)) = Inr ''10.0.0.7:9080''"
  using grpc_address_advertised[of "default_config\<lparr>cfg_AdvertisedAddress := ''10.0.0.7''\<rparr>"]
  by (simp add: plain_host_def default_config_def in_int64_def wrap64_def show_int_def show_nat.simps char_of_eq_iff)

subsection \<open>The pool's invariant\<close>

text \<open>Every pooled connection exists and was dialled for the address it is filed under.\<close>

definition pool_ok :: "pool \<Rightarrow> bool" where
  "pool_ok s \<longleftrightarrow> (\<forall>a n. pl_conns s a = Some n \<longrightarrow> n < pl_count s \<and> grpc_address a = Inr (pl_target s n))"

lemma fresh_pool_ok:
  assumes "pool_ok s" "grpc_address a = Inr t"
  shows "pool_ok (s\<lparr>pl_count := Suc (pl_count s), pl_target := (pl_target s)(pl_count s := t),
    pl_state := st, pl_conns := (pl_conns s)(a \<mapsto> pl_count s)\<rparr>)"
  using assms by (auto simp: pool_ok_def less_Suc_eq)

lemma drop_pool_ok: "pool_ok s \<Longrightarrow> pool_ok ((close_conn n s)\<lparr>pl_conns := (pl_conns s)(a := None)\<rparr>)"
  by (auto simp: pool_ok_def close_conn_def)

text \<open>A call finds a usable connection, or dials anew after it dropped one that is not.\<close>

lemma GetGrpcConnection_cases:
  assumes "pool_ok s" "GetGrpcConnection bad a s = (r, s')"
  obtains (pooled) n where "r = Inr n" "s' = s" "pl_conns s a = Some n" "pl_state s n \<notin> {Shutdown, TransientFailure}"
  | (failed) s1 e where "r = Inl e" "s' = s1" "pool_ok s1" "pl_conns s1 = (pl_conns s)(a := None)"
      "pl_target s1 = pl_target s" "case grpc_address a of Inl _ \<Rightarrow> True | Inr t \<Rightarrow> bad t"
  | (dialled) s1 t where "r = Inr (pl_count s1)" "grpc_address a = Inr t" "\<not> bad t" "pool_ok s1"
      "pl_conns s1 = (pl_conns s)(a := None)" "pl_target s1 = pl_target s"
      "s' = s1\<lparr>pl_count := Suc (pl_count s1), pl_target := (pl_target s1)(pl_count s1 := t),
            pl_state := (pl_state s1)(pl_count s1 := Idle), pl_conns := (pl_conns s1)(a \<mapsto> pl_count s1)\<rparr>"
proof (cases "\<exists>n. pl_conns s a = Some n \<and> pl_state s n \<notin> {Shutdown, TransientFailure}")
  case True
  then show ?thesis using assms pooled by (auto simp: GetGrpcConnection_def)
next
  case False
  define s1 where "s1 = (case pl_conns s a of None \<Rightarrow> s
    | Some n \<Rightarrow> (close_conn n s)\<lparr>pl_conns := (pl_conns s)(a := None)\<rparr>)"
  have ok: "pool_ok s1" "pl_conns s1 = (pl_conns s)(a := None)" "pl_target s1 = pl_target s"
    using assms(1) drop_pool_ok by (auto simp: s1_def close_conn_def split: option.split)
  have "(r, s') = (case grpc_address a of Inl e \<Rightarrow> (Inl e, s1)
      | Inr t \<Rightarrow> if bad t then (Inl ''grpc.NewClient'', s1)
          else (Inr (pl_count s1), s1\<lparr>pl_count := Suc (pl_count s1), pl_target := (pl_target s1)(pl_count s1 := t),
            pl_state := (pl_state s1)(pl_count s1 := Idle), pl_conns := (pl_conns s1)(a \<mapsto> pl_count s1)\<rparr>))"
    using assms(2) False
    by (auto simp: GetGrpcConnection_def new_conn_def s1_def close_conn_def Let_def split: option.splits sum.splits if_splits)
  then show ?thesis
    using ok failed dialled by (auto split: sum.splits if_splits)
qed

text \<open>
  C29: \<open>GetGrpcConnection\<close> never hands out a connection that is shut down or failing: what it returns
  is in the pool under the address, was dialled for that address, and is in another state. Every
  pooled connection stays one that was dialled for its address, also when the call fails.
\<close>

theorem GetGrpcConnection_usable:
  assumes "pool_ok s" "GetGrpcConnection bad a s = (r, s')"
  shows "pool_ok s' \<and> (\<forall>n. r = Inr n \<longrightarrow> pl_conns s' a = Some n \<and> grpc_address a = Inr (pl_target s' n)
    \<and> pl_state s' n \<notin> {Shutdown, TransientFailure})"
  using assms
proof (cases rule: GetGrpcConnection_cases)
  case (dialled s1 t)
  then show ?thesis using fresh_pool_ok[OF dialled(4,2)] by simp
qed (use assms(1) in \<open>auto simp: pool_ok_def\<close>)

theorem GetGrpcConnection_usable_witness:
  "\<exists>s'. GetGrpcConnection (\<lambda>_. False) ''h:1''
      \<lparr>pl_conns = [''h:1'' \<mapsto> 0], pl_count = 1, pl_target = (\<lambda>_. ''h:1001''), pl_state = (\<lambda>_. TransientFailure)\<rparr> = (Inr 1, s')
    \<and> pl_state s' 1 \<notin> {Shutdown, TransientFailure}"
proof -
  let ?s = "\<lparr>pl_conns = [''h:1'' \<mapsto> 0], pl_count = 1, pl_target = (\<lambda>_. ''h:1001''), pl_state = (\<lambda>_. TransientFailure)\<rparr>"
  have a: "grpc_address ''h:1'' = Inr ''h:1001''"
    by (simp add: grpc_address_def SplitHostPort_def parse_int64_def is_digit_def in_int64_def wrap64_def
        show_int_def show_nat.simps char_of_eq_iff)
  obtain r s' where g: "GetGrpcConnection (\<lambda>_. False) ''h:1'' ?s = (r, s')" by fastforce
  moreover have "r = Inr 1"
    using g a by (auto simp: GetGrpcConnection_def new_conn_def close_conn_def Let_def)
  moreover have "pool_ok ?s" using a by (simp add: pool_ok_def)
  ultimately show ?thesis using GetGrpcConnection_usable[of ?s "\<lambda>_. False" "''h:1''" r s'] by simp
qed

text \<open>With the targets that cannot be dialled fixed, a pool holds no connection to one of them.\<close>

definition pool_good :: "(bytes \<Rightarrow> bool) \<Rightarrow> pool \<Rightarrow> bool" where
  "pool_good bad s \<longleftrightarrow> pool_ok s \<and> (\<forall>a n. pl_conns s a = Some n \<longrightarrow> \<not> bad (pl_target s n))"

lemma GetGrpcConnection_dials:
  assumes "pool_good bad s" "GetGrpcConnection bad a s = (r, s')"
  shows "pool_good bad s' \<and> (case r of Inr n \<Rightarrow> grpc_address a = Inr (pl_target s' n) \<and> \<not> bad (pl_target s' n)
    | Inl e \<Rightarrow> (case grpc_address a of Inl _ \<Rightarrow> True | Inr t \<Rightarrow> bad t))"
proof -
  have ok: "pool_ok s" using assms(1) by (simp add: pool_good_def)
  from ok assms(2) show ?thesis
  proof (cases rule: GetGrpcConnection_cases)
    case (dialled s1 t)
    have "n < pl_count s1" if "pl_conns s a' = Some n" "a' \<noteq> a" for a' n
      using dialled(4)[unfolded pool_ok_def, THEN spec, of a'] dialled(5) that by simp
    then show ?thesis
      using dialled assms(1) fresh_pool_ok[OF dialled(4,2)] by (fastforce simp: pool_good_def)
  qed (use assms(1) in \<open>auto simp: pool_good_def pool_ok_def split: if_splits\<close>)
qed

lemma CloseAll_conns: "pl_conns (CloseAllGrpcConnections ks s) a = (if a \<in> set ks then None else pl_conns s a)"
  by (induction ks arbitrary: s) (auto simp: close_conn_def split: option.split)

lemma CloseAll_keeps_closed: "pl_state s n = Shutdown \<Longrightarrow> pl_state (CloseAllGrpcConnections ks s) n = Shutdown"
  by (induction ks arbitrary: s) (auto simp: close_conn_def split: option.split)

lemma CloseAll_shutdown:
  "a \<in> set ks \<Longrightarrow> pl_conns s a = Some n \<Longrightarrow> pl_state (CloseAllGrpcConnections ks s) n = Shutdown"
proof (induction ks arbitrary: s)
  case (Cons k ks)
  then show ?case
    by (cases "k = a"; cases "pl_conns s k") (auto simp: close_conn_def CloseAll_keeps_closed)
qed simp

text \<open>
  \<open>CloseAllGrpcConnections\<close>, walking the pool in any order, empties it and shuts down every
  connection that was in it.
\<close>

theorem CloseAll_empties:
  assumes "dom (pl_conns s) \<subseteq> set ks"
  shows "pl_conns (CloseAllGrpcConnections ks s) = Map.empty
    \<and> (\<forall>a n. pl_conns s a = Some n \<longrightarrow> pl_state (CloseAllGrpcConnections ks s) n = Shutdown)"
  using assms CloseAll_shutdown by (auto simp: fun_eq_iff CloseAll_conns domIff)

theorem CloseAll_empties_witness:
  "pl_conns (CloseAllGrpcConnections [''h:1'']
     \<lparr>pl_conns = [''h:1'' \<mapsto> 0], pl_count = 1, pl_target = (\<lambda>_. ''h:1001''), pl_state = (\<lambda>_. Ready)\<rparr>) = Map.empty"
  using CloseAll_empties[of "\<lparr>pl_conns = [''h:1'' \<mapsto> 0], pl_count = 1, pl_target = (\<lambda>_. ''h:1001''), pl_state = (\<lambda>_. Ready)\<rparr>"
      "[''h:1'']"] by simp

text \<open>
  A process that advertises an address with a colon, as a bare IPv6 address has, can be dialled
  by no other node: the address with its port does not split.
\<close>

theorem ipv6_cannot_be_dialled:
  assumes "CHR '':'' \<in> set (cfg_AdvertisedAddress cfg)" "CHR ''['' \<notin> set (cfg_AdvertisedAddress cfg)"
  shows "grpc_address (self_address cfg) = Inl ''too many colons in address''"
proof -
  have "hd (cfg_AdvertisedAddress cfg @ '':'' @ show_int (cfg_Port cfg)) \<noteq> CHR ''[''"
    using assms by (cases "cfg_AdvertisedAddress cfg") auto
  then show ?thesis
    using assms(1) last_colon_append[OF show_int_plain(1), of "cfg_AdvertisedAddress cfg" "cfg_Port cfg"]
    by (simp add: grpc_address_def self_address_def SplitHostPort_def Let_def)
qed

theorem ipv6_cannot_be_dialled_witness:
  "grpc_address (self_address (default_config\<lparr>cfg_AdvertisedAddress := ''fd00::7''\<rparr>)) = Inl ''too many colons in address''"
  by (rule ipv6_cannot_be_dialled) (simp_all add: default_config_def)

end
