(* ===== verification/Chunk_Net.thy ===== *)
theory Chunk_Net
  imports Node_Server Grpc_Pool
begin

text \<open>
  Chunks over gRPC as a client sees them. The calls of the generated client are the record \<open>gnet\<close>:
  they run on a connection of the pool, and act on the pool (the library changes the state of
  connections) and on the state \<open>'w\<close> of the other processes. \<open>RequestChunk\<close> and
  \<open>RequestChunkDeletion\<close> of \<open>internal/service/file_management.go\<close> and \<open>save_at\<close>, one attempt of an
  upload worker, are built on it. The locale \<open>chunk_net\<close> is what the upload and the reconstruction
  rely on; it is interpreted on \<open>node_net\<close>, where the calls run the handlers of \<open>Node_Server\<close> on the
  node that listens at the target of the connection.
\<close>

type_synonym 'w client = "pool \<times> 'w"

record 'w gnet =
  gn_bad :: "bytes \<Rightarrow> bool"
  gn_save :: "nat \<Rightarrow> ChunkRequest \<Rightarrow> 'w client \<Rightarrow> (string + ChunkResponse) \<times> 'w client"
  gn_get :: "nat \<Rightarrow> bytes \<Rightarrow> 'w client \<Rightarrow> (string + bytes) \<times> 'w client"
  gn_delete :: "nat \<Rightarrow> bytes \<Rightarrow> 'w client \<Rightarrow> (string + ChunkResponse) \<times> 'w client"

definition dial :: "'w gnet \<Rightarrow> bytes \<Rightarrow> 'w client \<Rightarrow> (string + nat) \<times> 'w client" where
  "dial gnet addr s = (let (r, p) = GetGrpcConnection (gn_bad gnet) addr (fst s) in (r, (p, snd s)))"

definition save_at :: "'w gnet \<Rightarrow> bytes \<Rightarrow> ChunkRequest \<Rightarrow> 'w client \<Rightarrow> (string + ChunkResponse) \<times> 'w client" where
  "save_at gnet nodeAddr req s =
     (case dial gnet nodeAddr s of
        (Inl e, s1) \<Rightarrow> (Inl e, s1)
      | (Inr conn, s1) \<Rightarrow> gn_save gnet conn req s1)"

definition RequestChunk :: "'w gnet \<Rightarrow> bytes \<Rightarrow> bytes \<Rightarrow> 'w client \<Rightarrow> (string + ChunkRequest) \<times> 'w client" where
  "RequestChunk gnet nodeAddress chunkId s =
     (case dial gnet nodeAddress s of
        (Inl e, s1) \<Rightarrow> (Inl e, s1)
      | (Inr conn, s1) \<Rightarrow>
     (case gn_get gnet conn chunkId s1 of
        (Inl e, s2) \<Rightarrow> (Inl e, s2)
      | (Inr data, s2) \<Rightarrow>
          (case unmarshal dec_ChunkRequest zero_ChunkRequest data of
             (chunkRequest, True) \<Rightarrow> (Inr chunkRequest, s2)
           | (_, False) \<Rightarrow> (Inl ''decoding error'', s2))))"

definition RequestChunkDeletion :: "'w gnet \<Rightarrow> bytes \<Rightarrow> bytes \<Rightarrow> 'w client \<Rightarrow> string option \<times> 'w client" where
  "RequestChunkDeletion gnet nodeAddress chunkId s =
     (case dial gnet nodeAddress s of
        (Inl e, s1) \<Rightarrow> (Some e, s1)
      | (Inr conn, s1) \<Rightarrow>
     (case gn_delete gnet conn chunkId s1 of
        (Inl e, s2) \<Rightarrow> (Some e, s2)
      | (Inr _, s2) \<Rightarrow> (None, s2)))"

subsection \<open>The contract\<close>

text \<open>
  In a proto3 message an empty \<open>bytes\<close> field is not sent and arrives as nil. What a node stores and
  serves is the request without its signature.
\<close>

definition pb_bytes :: "char slice \<Rightarrow> char slice" where
  "pb_bytes b = (if elems b = [] then None else b)"

definition pb_ChunkRequest :: "ChunkRequest \<Rightarrow> ChunkRequest" where
  "pb_ChunkRequest req = req\<lparr>crq_PublicKey := pb_bytes (crq_PublicKey req),
     crq_Signature := pb_bytes (crq_Signature req), crq_Shard := pb_bytes (crq_Shard req)\<rparr>"

definition kept :: "ChunkRequest \<Rightarrow> ChunkRequest" where
  "kept req = (pb_ChunkRequest req)\<lparr>crq_Signature := None\<rparr>"

definition served :: "ChunkRequest \<Rightarrow> bytes" where
  "served req = marshal enc_ChunkRequest (kept req)"

lemma kept_simps [simp]:
  "crq_ChunkId (kept req) = crq_ChunkId req" "crq_Shard (kept req) = pb_bytes (crq_Shard req)"
  "kept (req\<lparr>crq_Signature := sg\<rparr>) = kept req"
  by (simp_all add: kept_def pb_ChunkRequest_def)

lemma served_signed [simp]: "served (req\<lparr>crq_Signature := sg\<rparr>) = served req"
  by (simp add: served_def)

lemma ok_kept: "ok_ChunkRequest req \<Longrightarrow> ok_ChunkRequest (kept req)"
  by (simp add: ok_ChunkRequest_def kept_def pb_ChunkRequest_def)

text \<open>
  \<open>holds s addr k\<close> is what a client gets when it asks \<open>addr\<close> for the chunk \<open>k\<close>. A successful save makes
  the address hold the saved chunk; no call changes what is held under another chunk id, and after
  any save an address holds under this id what it held before or the saved chunk.
\<close>

locale chunk_net =
  fixes gnet :: "'w gnet" and inv :: "'w client \<Rightarrow> bool"
    and holds :: "'w client \<Rightarrow> bytes \<Rightarrow> bytes \<Rightarrow> bytes option"
  assumes save_inv: "inv s \<Longrightarrow> inv (snd (save_at gnet addr req s))"
    and save_ok: "inv s \<Longrightarrow> save_at gnet addr req s = (Inr rsp, s') \<Longrightarrow> rpc_Success rsp
        \<Longrightarrow> holds s' addr (crq_ChunkId req) = Some (served req)"
    and save_any: "inv s \<Longrightarrow> holds (snd (save_at gnet addr req s)) a k = holds s a k
        \<or> k = crq_ChunkId req \<and> holds (snd (save_at gnet addr req s)) a k = Some (served req)"
    and get_inv: "inv s \<Longrightarrow> inv (snd (RequestChunk gnet addr k s))"
    and get_same: "inv s \<Longrightarrow> holds (snd (RequestChunk gnet addr k s)) = holds s"
    and get_some: "inv s \<Longrightarrow> holds s addr k = Some v \<Longrightarrow>
        fst (RequestChunk gnet addr k s) = (case unmarshal dec_ChunkRequest zero_ChunkRequest v of
          (c, True) \<Rightarrow> Inr c | (_, False) \<Rightarrow> Inl ''decoding error'')"
    and get_none: "inv s \<Longrightarrow> holds s addr k = None \<Longrightarrow> \<exists>e. fst (RequestChunk gnet addr k s) = Inl e"
    and delete_inv: "inv s \<Longrightarrow> inv (snd (RequestChunkDeletion gnet addr l s))"
    and delete_any: "inv s \<Longrightarrow> holds (snd (RequestChunkDeletion gnet addr l s)) a k = holds s a k
        \<or> k = l \<and> holds (snd (RequestChunkDeletion gnet addr l s)) a k = None"
    and delete_ok: "inv s \<Longrightarrow> RequestChunkDeletion gnet addr l s = (None, s') \<Longrightarrow> holds s' addr l = None"
begin

lemma delete_other: "inv s \<Longrightarrow> k \<noteq> l \<Longrightarrow> holds (snd (RequestChunkDeletion gnet addr l s)) a k = holds s a k"
  using delete_any by blast

lemma delete_keeps_none: "inv s \<Longrightarrow> holds s a k = None \<Longrightarrow> holds (snd (RequestChunkDeletion gnet addr l s)) a k = None"
  using delete_any by metis

lemma RequestChunk_served:
  assumes "inv s" "holds s addr k = Some (served req)" "ok_ChunkRequest req"
  shows "fst (RequestChunk gnet addr k s) = Inr (kept req)"
proof -
  have "unmarshal dec_ChunkRequest zero_ChunkRequest (served req) = (kept req, True)"
    unfolding served_def by (rule crq.unmarshal_marshal[OF ok_kept[OF assms(3)]])
  then show ?thesis using get_some[OF assms(1,2)] by simp
qed

end

subsection \<open>The nodes behind the calls\<close>

text \<open>
  The stores of the nodes by the address they listen at for gRPC; no other target answers. A
  message with a string that is not UTF-8 is not sent. The handlers use of the environment only the
  operations of the store and the crypto packages, which are the same for all nodes; \<open>bad\<close> are the
  targets \<open>grpc.NewClient\<close> rejects.
\<close>

type_synonym 'db nodes = "bytes \<Rightarrow> 'db option"

definition rpc_result :: "(ChunkResponse \<times> string option) \<Rightarrow> string + ChunkResponse" where
  "rpc_result r = (case snd r of Some m \<Rightarrow> Inl m | None \<Rightarrow> Inr (fst r))"

definition pb_valid :: "ChunkRequest \<Rightarrow> bool" where
  "pb_valid req \<longleftrightarrow> utf8_ok (crq_Address req) \<and> utf8_ok (crq_ChunkId req) \<and> utf8_ok (crq_FileId req) \<and> utf8_ok (crq_ReleaseDate req)"

definition node_save :: "'db env \<Rightarrow> nat \<Rightarrow> ChunkRequest \<Rightarrow> 'db nodes client \<Rightarrow> (string + ChunkResponse) \<times> 'db nodes client" where
  "node_save env conn req s =
     (let target = pl_target (fst s) conn in
      if \<not> pb_valid req then (Inl ''string field contains invalid UTF-8'', s)
      else (case snd s target of None \<Rightarrow> (Inl ''unavailable'', s)
        | Some db \<Rightarrow> (let (r, db1) = NodeServer_SaveChunk env (pb_ChunkRequest req) db
            in (rpc_result r, (fst s, (snd s)(target \<mapsto> db1))))))"

definition node_get :: "'db env \<Rightarrow> nat \<Rightarrow> bytes \<Rightarrow> 'db nodes client \<Rightarrow> (string + bytes) \<times> 'db nodes client" where
  "node_get env conn k s =
     (if \<not> utf8_ok k then (Inl ''string field contains invalid UTF-8'', s)
      else (case snd s (pl_target (fst s) conn) of None \<Rightarrow> (Inl ''unavailable'', s)
        | Some db \<Rightarrow> (NodeServer_GetChunk env k db, s)))"

definition node_delete :: "'db env \<Rightarrow> nat \<Rightarrow> bytes \<Rightarrow> 'db nodes client \<Rightarrow> (string + ChunkResponse) \<times> 'db nodes client" where
  "node_delete env conn k s =
     (let target = pl_target (fst s) conn in
      if \<not> utf8_ok k then (Inl ''string field contains invalid UTF-8'', s)
      else (case snd s target of None \<Rightarrow> (Inl ''unavailable'', s)
        | Some db \<Rightarrow> (let (r, db1) = NodeServer_DeleteChunk env k db
            in (rpc_result r, (fst s, (snd s)(target \<mapsto> db1))))))"

definition node_net :: "'db env \<Rightarrow> (bytes \<Rightarrow> bool) \<Rightarrow> 'db nodes gnet" where
  "node_net env bad = \<lparr>gn_bad = bad, gn_save = node_save env, gn_get = node_get env, gn_delete = node_delete env\<rparr>"

definition node_holds :: "'db env \<Rightarrow> (bytes \<Rightarrow> bool) \<Rightarrow> 'db nodes client \<Rightarrow> bytes \<Rightarrow> bytes \<Rightarrow> bytes option" where
  "node_holds env bad s addr k =
     (case grpc_address addr of Inl _ \<Rightarrow> None
      | Inr t \<Rightarrow> if bad t \<or> \<not> utf8_ok k then None
         else (case snd s t of None \<Rightarrow> None
           | Some db \<Rightarrow> (case view (env_bg env) db ns_chunks k of Some (Inr v) \<Rightarrow> Some v | _ \<Rightarrow> None)))"

definition client_ok :: "(bytes \<Rightarrow> bool) \<Rightarrow> 'w client \<Rightarrow> bool" where
  "client_ok bad s \<longleftrightarrow> pool_good bad (fst s)"

lemma node_net_simps [simp]:
  "gn_bad (node_net env bad) = bad" "gn_save (node_net env bad) = node_save env"
  "gn_get (node_net env bad) = node_get env" "gn_delete (node_net env bad) = node_delete env"
  by (simp_all add: node_net_def)

lemma dial_good:
  assumes "client_ok (gn_bad gnet) s"
  obtains (failed) e s1 where "dial gnet addr s = (Inl e, s1)" "client_ok (gn_bad gnet) s1" "snd s1 = snd s"
      "case grpc_address addr of Inl _ \<Rightarrow> True | Inr t \<Rightarrow> gn_bad gnet t"
  | (dialled) conn s1 where "dial gnet addr s = (Inr conn, s1)" "client_ok (gn_bad gnet) s1" "snd s1 = snd s"
      "grpc_address addr = Inr (pl_target (fst s1) conn)" "\<not> gn_bad gnet (pl_target (fst s1) conn)"
proof -
  obtain r p where g: "GetGrpcConnection (gn_bad gnet) addr (fst s) = (r, p)" by fastforce
  then have d: "dial gnet addr s = (r, (p, snd s))" by (simp add: dial_def)
  show ?thesis
    using GetGrpcConnection_dials[OF _ g] assms d failed dialled by (cases r) (auto simp: client_ok_def)
qed

locale node_stores =
  fixes env :: "'db env"
  assumes store_ok: "badger_ok (env_bg env)"
begin

lemma NodeServer_GetChunk_view:
  "NodeServer_GetChunk env k db = (case view (env_bg env) db ns_chunks k of Some (Inr v) \<Rightarrow> Inr v | _ \<Rightarrow> Inl ''chunk not found'')"
  using badger_ok.view_get[OF store_ok, of db ns_chunks k]
  by (auto simp: NodeServer_GetChunk_def split: option.splits sum.splits)

lemma NodeServer_SaveChunk_view:
  assumes "NodeServer_SaveChunk env (pb_ChunkRequest req) db = (r, db1)"
  shows "view (env_bg env) db1 ns_chunks = (if snd r = None
    then (view (env_bg env) db ns_chunks)(crq_ChunkId req \<mapsto> Inr (served req)) else view (env_bg env) db ns_chunks)"
proof -
  obtain e db2 where p: "PutData (env_bg env) db ns_chunks (crq_ChunkId req) (served req) = (e, db2)" by fastforce
  have n: "marshal enc_ChunkRequest (pb_ChunkRequest req\<lparr>crq_Signature := None\<rparr>) = served req"
    "crq_ChunkId (pb_ChunkRequest req) = crq_ChunkId req"
    by (simp_all add: served_def kept_def pb_ChunkRequest_def)
  show ?thesis
    using assms p badger_ok.view_put[OF store_ok, of db ns_chunks "crq_ChunkId req" "served req"]
    by (cases e) (auto simp: NodeServer_SaveChunk_def n Let_def rpc_fail_def rpc_ok_def split: if_splits)
qed

lemma NodeServer_DeleteChunk_view:
  assumes "NodeServer_DeleteChunk env k db = (r, db1)"
  shows "view (env_bg env) db1 ns_chunks = (if snd r = None
    then (view (env_bg env) db ns_chunks)(k := None) else view (env_bg env) db ns_chunks)"
proof -
  obtain e db2 where p: "DeleteKey (env_bg env) db ns_chunks k = (e, db2)" by fastforce
  show ?thesis
    using assms p badger_ok.view_del[OF store_ok, of db ns_chunks k]
    by (cases e) (auto simp: NodeServer_DeleteChunk_def Let_def rpc_fail_def rpc_ok_def split: if_splits)
qed

end

context node_stores
begin

lemma holds_update:
  assumes "snd s t = Some db"
  shows "node_holds env bad (p, (snd s)(t \<mapsto> db1)) a k
    = (if grpc_address a = Inr t \<and> \<not> bad t \<and> utf8_ok k
       then (case view (env_bg env) db1 ns_chunks k of Some (Inr v) \<Rightarrow> Some v | _ \<Rightarrow> None)
       else node_holds env bad s a k)"
  using assms by (auto simp: node_holds_def split: sum.splits)

lemma holds_world: "snd s' = snd s \<Longrightarrow> node_holds env bad s' = node_holds env bad s"
  by (intro ext) (simp add: node_holds_def split: sum.split)

lemma node_save_cases:
  obtains (refused) e where "node_save env conn req s = (Inl e, s)"
  | (run) r db db1 where "pb_valid req" "snd s (pl_target (fst s) conn) = Some db"
      "NodeServer_SaveChunk env (pb_ChunkRequest req) db = (r, db1)"
      "node_save env conn req s = (rpc_result r, (fst s, (snd s)(pl_target (fst s) conn \<mapsto> db1)))"
proof (cases "pb_valid req \<and> snd s (pl_target (fst s) conn) \<noteq> None")
  case True
  then obtain db where "snd s (pl_target (fst s) conn) = Some db" by blast
  then show ?thesis
    using run[of db] True by (cases "NodeServer_SaveChunk env (pb_ChunkRequest req) db") (simp add: node_save_def Let_def)
next
  case False
  then have "\<exists>e. node_save env conn req s = (Inl e, s)" by (auto simp: node_save_def Let_def)
  then show ?thesis using refused by blast
qed

lemma node_delete_cases:
  obtains (refused) e where "node_delete env conn k s = (Inl e, s)"
  | (run) r db db1 where "utf8_ok k" "snd s (pl_target (fst s) conn) = Some db"
      "NodeServer_DeleteChunk env k db = (r, db1)"
      "node_delete env conn k s = (rpc_result r, (fst s, (snd s)(pl_target (fst s) conn \<mapsto> db1)))"
proof (cases "utf8_ok k \<and> snd s (pl_target (fst s) conn) \<noteq> None")
  case True
  then obtain db where "snd s (pl_target (fst s) conn) = Some db" by blast
  then show ?thesis
    using run[of db] True by (cases "NodeServer_DeleteChunk env k db") (simp add: node_delete_def Let_def)
next
  case False
  then have "\<exists>e. node_delete env conn k s = (Inl e, s)" by (auto simp: node_delete_def Let_def)
  then show ?thesis using refused by blast
qed

lemma save_at_steps:
  assumes "client_ok bad s" "save_at (node_net env bad) addr req s = (r, s')"
  shows "client_ok bad s' \<and> (snd s' = snd s \<and> (\<exists>e. r = Inl e)
    \<or> (\<exists>t db db1 q. grpc_address addr = Inr t \<and> \<not> bad t \<and> pb_valid req \<and> snd s t = Some db
        \<and> NodeServer_SaveChunk env (pb_ChunkRequest req) db = (q, db1) \<and> r = rpc_result q \<and> snd s' = (snd s)(t \<mapsto> db1)))"
proof -
  have c: "client_ok (gn_bad (node_net env bad)) s" using assms(1) by simp
  from c show ?thesis
  proof (cases rule: dial_good[of _ _ addr, case_names failed dialled])
    case (dialled conn s1)
    show ?thesis
    proof (cases rule: node_save_cases[of conn req s1, case_names refused run])
      case (run q db db1)
      then have "r = rpc_result q" "snd s' = (snd s)(pl_target (fst s1) conn \<mapsto> db1)" "client_ok bad s'"
        using dialled assms(2) by (auto simp: save_at_def client_ok_def)
      then show ?thesis using run(1-3) dialled(3-5) by (metis node_net_simps(1))
    qed (use dialled assms(2) in \<open>auto simp: save_at_def\<close>)
  qed (use assms(2) in \<open>auto simp: save_at_def\<close>)
qed

lemma RequestChunkDeletion_steps:
  assumes "client_ok bad s" "RequestChunkDeletion (node_net env bad) addr k s = (r, s')"
  shows "client_ok bad s' \<and> (snd s' = snd s \<and> (\<exists>e. r = Some e)
    \<or> (\<exists>t db db1 q. grpc_address addr = Inr t \<and> \<not> bad t \<and> utf8_ok k \<and> snd s t = Some db
        \<and> NodeServer_DeleteChunk env k db = (q, db1) \<and> r = snd q \<and> snd s' = (snd s)(t \<mapsto> db1)))"
proof -
  have c: "client_ok (gn_bad (node_net env bad)) s" using assms(1) by simp
  from c show ?thesis
  proof (cases rule: dial_good[of _ _ addr, case_names failed dialled])
    case (dialled conn s1)
    show ?thesis
    proof (cases rule: node_delete_cases[of conn k s1, case_names refused run])
      case (run q db db1)
      then have "r = snd q" "snd s' = (snd s)(pl_target (fst s1) conn \<mapsto> db1)" "client_ok bad s'"
        using dialled assms(2) by (auto simp: RequestChunkDeletion_def client_ok_def rpc_result_def split: option.splits)
      then show ?thesis using run(1-3) dialled(3-5) by (metis node_net_simps(1))
    qed (use dialled assms(2) in \<open>auto simp: RequestChunkDeletion_def\<close>)
  qed (use assms(2) in \<open>auto simp: RequestChunkDeletion_def\<close>)
qed

lemma RequestChunk_steps:
  assumes "client_ok bad s"
  shows "client_ok bad (snd (RequestChunk (node_net env bad) addr k s))
    \<and> snd (snd (RequestChunk (node_net env bad) addr k s)) = snd s
    \<and> (case node_holds env bad s addr k of None \<Rightarrow> \<exists>e. fst (RequestChunk (node_net env bad) addr k s) = Inl e
       | Some v \<Rightarrow> fst (RequestChunk (node_net env bad) addr k s) = (case unmarshal dec_ChunkRequest zero_ChunkRequest v of
          (c, True) \<Rightarrow> Inr c | (_, False) \<Rightarrow> Inl ''decoding error''))"
proof -
  have c: "client_ok (gn_bad (node_net env bad)) s" using assms by simp
  from c show ?thesis
  proof (cases rule: dial_good[of _ _ addr, case_names failed dialled])
    case (failed e s1)
    then show ?thesis by (auto simp: RequestChunk_def node_holds_def split: sum.splits)
  next
    case (dialled conn s1)
    then show ?thesis
      by (auto simp: RequestChunk_def node_holds_def node_get_def NodeServer_GetChunk_view
          split: option.splits sum.splits prod.splits bool.splits)
  qed
qed

lemma save_holds:
  assumes "client_ok bad s" "save_at (node_net env bad) addr req s = (r, s')"
  shows "node_holds env bad s' a k = node_holds env bad s a k
      \<or> k = crq_ChunkId req \<and> node_holds env bad s' a k = Some (served req)"
    and "r = Inr rsp \<Longrightarrow> node_holds env bad s' addr (crq_ChunkId req) = Some (served req)"
proof -
  consider (same) e where "snd s' = snd s" "r = Inl e"
    | (run) t db db1 q where "grpc_address addr = Inr t" "\<not> bad t" "pb_valid req" "snd s t = Some db"
        "NodeServer_SaveChunk env (pb_ChunkRequest req) db = (q, db1)" "r = rpc_result q" "snd s' = (snd s)(t \<mapsto> db1)"
    using save_at_steps[OF assms] by blast
  then have *: "(node_holds env bad s' a k = node_holds env bad s a k
      \<or> k = crq_ChunkId req \<and> node_holds env bad s' a k = Some (served req))
    \<and> (r = Inr rsp \<longrightarrow> node_holds env bad s' addr (crq_ChunkId req) = Some (served req))"
  proof cases
    case run
    have h: "node_holds env bad s' b j = node_holds env bad (p, (snd s)(t \<mapsto> db1)) b j" for b j and p :: pool
      using run(7) holds_world[of "(p, (snd s)(t \<mapsto> db1))" s' bad] by simp
    show ?thesis
      using run(1-3,6) NodeServer_SaveChunk_view[OF run(5)]
      by (auto simp: h[where p = "fst s"] holds_update[OF run(4)] rpc_result_def pb_valid_def split: option.splits)
        (auto simp: node_holds_def run(4))
  next
    case same
    then show ?thesis using holds_world[OF same(1), of bad] by simp
  qed
  show "node_holds env bad s' a k = node_holds env bad s a k
      \<or> k = crq_ChunkId req \<and> node_holds env bad s' a k = Some (served req)" using * by blast
  show "r = Inr rsp \<Longrightarrow> node_holds env bad s' addr (crq_ChunkId req) = Some (served req)" using * by blast
qed

lemma delete_holds:
  assumes "client_ok bad s" "RequestChunkDeletion (node_net env bad) addr l s = (r, s')"
  shows "node_holds env bad s' a k = node_holds env bad s a k \<or> k = l \<and> node_holds env bad s' a k = None"
    and "r = None \<Longrightarrow> node_holds env bad s' addr l = None"
proof -
  consider (same) e where "snd s' = snd s" "r = Some e"
    | (run) t db db1 q where "grpc_address addr = Inr t" "\<not> bad t" "utf8_ok l" "snd s t = Some db"
        "NodeServer_DeleteChunk env l db = (q, db1)" "r = snd q" "snd s' = (snd s)(t \<mapsto> db1)"
    using RequestChunkDeletion_steps[OF assms] by blast
  then have *: "(node_holds env bad s' a k = node_holds env bad s a k \<or> k = l \<and> node_holds env bad s' a k = None)
    \<and> (r = None \<longrightarrow> node_holds env bad s' addr l = None)"
  proof cases
    case run
    have h: "node_holds env bad s' b j = node_holds env bad (p, (snd s)(t \<mapsto> db1)) b j" for b j and p :: pool
      using run(7) holds_world[of "(p, (snd s)(t \<mapsto> db1))" s' bad] by simp
    show ?thesis
      using run(1-3,6) NodeServer_DeleteChunk_view[OF run(5)]
      by (auto simp: h[where p = "fst s"] holds_update[OF run(4)]) (auto simp: node_holds_def run(4))
  next
    case same
    then show ?thesis using holds_world[OF same(1), of bad] by simp
  qed
  show "node_holds env bad s' a k = node_holds env bad s a k \<or> k = l \<and> node_holds env bad s' a k = None" using * by blast
  show "r = None \<Longrightarrow> node_holds env bad s' addr l = None" using * by blast
qed

end

sublocale node_stores \<subseteq> net: chunk_net "node_net env bad" "client_ok bad" "node_holds env bad" for bad
proof (standard, goal_cases)
  case (1 s addr req)
  then show ?case using save_at_steps[OF 1] by (metis prod.collapse)
next
  case (2 s addr req rsp s')
  then show ?case using save_holds(2)[OF 2(1,2)] by simp
next
  case (3 s addr req a k)
  then show ?case using save_holds(1)[OF 3 prod.collapse[symmetric]] by blast
next
  case (4 s addr k)
  then show ?case using RequestChunk_steps by blast
next
  case (5 s addr k)
  then show ?case using RequestChunk_steps holds_world by blast
next
  case (6 s addr k v)
  then show ?case using RequestChunk_steps[OF 6(1), of addr k] by simp
next
  case (7 s addr k)
  then show ?case using RequestChunk_steps[OF 7(1), of addr k] by simp
next
  case (8 s addr l)
  then show ?case using RequestChunkDeletion_steps[OF 8] by (metis prod.collapse)
next
  case (9 s addr l a k)
  then show ?case using delete_holds(1)[OF 9 prod.collapse[symmetric]] by blast
next
  case (10 s addr l s')
  then show ?case using delete_holds(2)[OF 10] by simp
qed

context node_stores
begin

lemma net_laws: "chunk_net (node_net env bad) (client_ok bad) (node_holds env bad)"
  by (rule net.chunk_net_axioms)

end

lemma node_net_laws: "badger_ok (env_bg env) \<Longrightarrow> chunk_net (node_net env bad) (client_ok bad) (node_holds env bad)"
  by (rule node_stores.net_laws) (rule node_stores.intro)

interpretation ref_nodes: node_stores "ref_env host []" for host
  by (rule node_stores.intro) (simp add: reliable_ok mem_reliable)

subsection \<open>Calls that succeed\<close>

text \<open>The node is up at the address, and its store works.\<close>

definition node_up :: "'db env \<Rightarrow> (bytes \<Rightarrow> bool) \<Rightarrow> 'db nodes \<Rightarrow> bytes \<Rightarrow> bool" where
  "node_up env bad ns addr \<longleftrightarrow> badger_reliable (env_bg env)
     \<and> (case grpc_address addr of Inl _ \<Rightarrow> False | Inr t \<Rightarrow> \<not> bad t \<and> ns t \<noteq> None)"

lemma node_up_dial:
  assumes "client_ok bad s" "node_up env bad (snd s) addr"
  obtains conn s1 db where "dial (node_net env bad) addr s = (Inr conn, s1)" "client_ok bad s1" "snd s1 = snd s"
    "snd s1 (pl_target (fst s1) conn) = Some db"
proof -
  have c: "client_ok (gn_bad (node_net env bad)) s" using assms(1) by simp
  from c show ?thesis
  proof (cases rule: dial_good[of _ _ addr, case_names failed dialled])
    case (failed e s1)
    then show ?thesis using assms(2) by (auto simp: node_up_def split: sum.splits)
  next
    case (dialled conn s1)
    then show ?thesis using assms(2) that by (auto simp: node_up_def)
  qed
qed

definition authentic :: "'db env \<Rightarrow> ChunkRequest \<Rightarrow> bool" where
  "authentic env req \<longleftrightarrow> check env (marshal enc_ChunkRequest (kept req)) (crq_Signature req) (crq_PublicKey req)"

lemma check_pb [simp]: "check env m (pb_bytes sg) pk = check env m sg pk" "check env m sg (pb_bytes pk) = check env m sg pk"
  by (simp_all add: check_def check_signature_def pb_bytes_def)

lemma save_at_works:
  assumes "client_ok bad s" "node_up env bad (snd s) addr" "pb_valid req" "authentic env req"
  shows "\<exists>rsp s'. save_at (node_net env bad) addr req s = (Inr rsp, s') \<and> rpc_Success rsp \<and> dom (snd s') = dom (snd s)"
proof -
  obtain conn s1 db where d: "dial (node_net env bad) addr s = (Inr conn, s1)" "snd s1 = snd s"
    "snd s1 (pl_target (fst s1) conn) = Some db"
    using node_up_dial[OF assms(1,2)] by metis
  have rel: "badger_reliable (env_bg env)" using assms(2) by (simp add: node_up_def)
  obtain db' where p: "PutData (env_bg env) db ns_chunks (crq_ChunkId req) (served req) = (None, db')"
    using badger_reliable.put_reliable[OF rel] by blast
  have "NodeServer_SaveChunk env (pb_ChunkRequest req) db = (rpc_ok ''chunk saved'', db')"
    using assms(4) p by (simp add: NodeServer_SaveChunk_def Let_def authentic_def served_def kept_def pb_ChunkRequest_def)
  then show ?thesis
    using d assms(3) by (auto simp: save_at_def node_save_def Let_def rpc_result_def rpc_ok_def)
qed

lemma delete_works:
  assumes "client_ok bad s" "node_up env bad (snd s) addr" "utf8_ok k"
  shows "\<exists>s'. RequestChunkDeletion (node_net env bad) addr k s = (None, s')"
proof -
  obtain conn s1 db where d: "dial (node_net env bad) addr s = (Inr conn, s1)" "snd s1 = snd s"
    "snd s1 (pl_target (fst s1) conn) = Some db"
    using node_up_dial[OF assms(1,2)] by metis
  have rel: "badger_reliable (env_bg env)" using assms(2) by (simp add: node_up_def)
  obtain db' where p: "DeleteKey (env_bg env) db ns_chunks k = (None, db')"
    using badger_reliable.delete_reliable[OF rel] by blast
  then show ?thesis
    using d assms(3)
    by (simp add: RequestChunkDeletion_def node_delete_def NodeServer_DeleteChunk_def Let_def rpc_result_def rpc_ok_def)
qed

subsection \<open>A concrete network\<close>

definition empty_pool :: pool where
  "empty_pool = \<lparr>pl_conns = Map.empty, pl_count = 0, pl_target = (\<lambda>_. []), pl_state = (\<lambda>_. Idle)\<rparr>"

lemma client_ok_empty [simp]: "client_ok bad (empty_pool, ns)"
  by (simp add: client_ok_def pool_good_def pool_ok_def empty_pool_def)

lemma ref_node_up: "grpc_address addr = Inr t \<Longrightarrow> \<not> bad t \<Longrightarrow> ns t \<noteq> None \<Longrightarrow> node_up (ref_env host servers) bad ns addr"
  by (simp add: node_up_def mem_reliable)

lemma ref_grpc_address: "grpc_address ''n:1'' = Inr ''n:1001''"
  by (simp add: grpc_address_def SplitHostPort_def parse_int64_def is_digit_def in_int64_def wrap64_def
      show_int_def show_nat.simps char_of_eq_iff)

lemma ref_signed:
  "\<exists>sg. authentic (ref_env host servers)
    (req\<lparr>crq_PublicKey := cfg_PublicKey (env_cfg (ref_env host servers)), crq_Signature := Some sg\<rparr>)"
  using ref_env_sign[of host servers] by (fastforce simp: authentic_def)

subsection \<open>Properties\<close>

text \<open>
  C26: what a node acknowledged over gRPC comes back from it: \<open>RequestChunk\<close> at the address returns the
  request that was sent without its signature (an empty byte field as nil), and after an acknowledged
  deletion it fails.
\<close>

theorem chunk_over_grpc:
  assumes "badger_ok (env_bg env)" "client_ok bad s" "ok_ChunkRequest req"
    and "save_at (node_net env bad) addr req s = (Inr rsp, s1)"
    and "RequestChunkDeletion (node_net env bad) addr (crq_ChunkId req) (snd (RequestChunk (node_net env bad) addr (crq_ChunkId req) s1)) = (None, s3)"
  shows "fst (RequestChunk (node_net env bad) addr (crq_ChunkId req) s1) = Inr (kept req)
    \<and> (\<exists>e. fst (RequestChunk (node_net env bad) addr (crq_ChunkId req) s3) = Inl e)"
proof -
  have ns: "node_stores env" using assms(1) by (rule node_stores.intro)
  note law = node_net_laws[OF assms(1), of bad]
  have i: "client_ok bad s1" using chunk_net.save_inv[OF law assms(2), of addr req] assms(4) by simp
  have h: "node_holds env bad s1 addr (crq_ChunkId req) = Some (served req)"
    using node_stores.save_holds(2)[OF ns assms(2,4) refl] .
  define s2 where "s2 = snd (RequestChunk (node_net env bad) addr (crq_ChunkId req) s1)"
  have i2: "client_ok bad s2" using chunk_net.get_inv[OF law i] by (simp add: s2_def)
  have d: "RequestChunkDeletion (node_net env bad) addr (crq_ChunkId req) s2 = (None, s3)"
    using assms(5) by (simp add: s2_def)
  have "client_ok bad s3" using chunk_net.delete_inv[OF law i2, of addr "crq_ChunkId req"] d by simp
  then show ?thesis
    using chunk_net.RequestChunk_served[OF law i h assms(3)] chunk_net.get_none[OF law]
      chunk_net.delete_ok[OF law i2 d] by blast
qed

theorem chunk_over_grpc_witness:
  "\<exists>req s1. (\<exists>rsp. save_at (node_net (ref_env ''n'' []) (\<lambda>_. False)) ''n:1'' req (empty_pool, [''n:1001'' \<mapsto> RBT.empty]) = (Inr rsp, s1))
    \<and> crq_ChunkId req = ''c'' \<and> fst (RequestChunk (node_net (ref_env ''n'' []) (\<lambda>_. False)) ''n:1'' ''c'' s1) = Inr (kept req)"
proof -
  let ?E = "ref_env ''n'' []" and ?net = "node_net (ref_env ''n'' []) (\<lambda>_. False)"
  obtain sg where sg: "authentic ?E (zero_ChunkRequest\<lparr>crq_ChunkId := ''c'', crq_PublicKey := cfg_PublicKey (env_cfg ?E), crq_Signature := Some sg\<rparr>)"
    using ref_signed by blast
  define req where "req = zero_ChunkRequest\<lparr>crq_ChunkId := ''c'', crq_PublicKey := cfg_PublicKey (env_cfg ?E), crq_Signature := Some sg\<rparr>"
  have req: "ok_ChunkRequest req" "pb_valid req" "crq_ChunkId req = ''c''"
    by (simp_all add: req_def zero_ChunkRequest_def ok_ChunkRequest_def pb_valid_def in_int64_def)
  let ?s = "(empty_pool, [''n:1001'' \<mapsto> RBT.empty])"
  have up: "node_up ?E (\<lambda>_. False) w ''n:1''" if "dom w = {''n:1001''}" for w
    using that by (intro ref_node_up[OF ref_grpc_address]) auto
  obtain rsp s1 where sv: "save_at ?net ''n:1'' req ?s = (Inr rsp, s1)" "dom (snd s1) = {''n:1001''}"
    using save_at_works[of "\<lambda>_. False" ?s ?E "''n:1''" req] up req(2) sg by (auto simp: req_def)
  have mem: "badger_ok (env_bg ?E)" using reliable_ok mem_reliable by simp
  note law = node_net_laws[OF mem, of "\<lambda>_. False"]
  have "client_ok (\<lambda>_. False) s1" using chunk_net.save_inv[OF law, of ?s "''n:1''" req] sv by simp
  then have g: "client_ok (\<lambda>_. False) (snd (RequestChunk ?net ''n:1'' ''c'' s1))" "dom (snd (snd (RequestChunk ?net ''n:1'' ''c'' s1))) = {''n:1001''}"
    using node_stores.RequestChunk_steps[OF node_stores.intro[OF mem]] sv(2) by auto
  obtain s3 where "RequestChunkDeletion ?net ''n:1'' ''c'' (snd (RequestChunk ?net ''n:1'' ''c'' s1)) = (None, s3)"
    using delete_works[OF g(1) up[OF g(2)], of "''c''"] by auto
  then have "fst (RequestChunk ?net ''n:1'' ''c'' s1) = Inr (kept req)"
    using chunk_over_grpc[OF mem _ req(1) sv(1), of s3] req(3) by simp
  then show ?thesis using sv(1) req(3) by blast
qed

end
