(* ===== verification/File_Libs.thy ===== *)
theory File_Libs
  imports Config Crypto
begin

text \<open>
  The packages a file goes through on its way to the nodes and back: the Reed-Solomon coder, the
  sharing of keys by Shamir's scheme and the time lock of drand. They are the argument \<open>file_lib\<close> of
  every definition that uses them; the locale \<open>file_lib_ok\<close> states what their documentation promises,
  and \<open>ref_libs\<close> are simple functions that keep these promises.
\<close>

definition DrandChainHash :: bytes where
  "DrandChainHash = ''52db9ba70e0cc0f6eaf7803dd07447a1f5477735fd3f661792ba94600c84e971''"

definition DrandRelays :: "bytes list" where
  "DrandRelays = [''https://api.drand.sh'', ''https://drand.cloudflare.com'']"

text \<open>
  A coder is given by its two shard counts; a shard that is missing is nil. The parts of a key come
  in the order in which \<open>range\<close> walks the map. Times are nanoseconds, rounds those of the beacon;
  \<open>tl_decrypt\<close> depends on the time because it asks the relay for the signature of the round.
\<close>

record file_lib =
  rs_new :: "int \<Rightarrow> int \<Rightarrow> bool"
  rs_split :: "int \<Rightarrow> int \<Rightarrow> bytes \<Rightarrow> string + char slice list"
  rs_encode :: "int \<Rightarrow> int \<Rightarrow> char slice list \<Rightarrow> string + char slice list"
  rs_reconstruct :: "int \<Rightarrow> int \<Rightarrow> char slice list \<Rightarrow> string + char slice list"
  rs_join :: "int \<Rightarrow> int \<Rightarrow> char slice list \<Rightarrow> int \<Rightarrow> string + bytes"
  sh_split :: "nat \<Rightarrow> bytes \<Rightarrow> int \<Rightarrow> int \<Rightarrow> string + (char \<times> bytes) list"
  sh_combine :: "(char \<Rightarrow> char slice option) \<Rightarrow> string + bytes"
  tl_network :: "bytes \<Rightarrow> bytes \<Rightarrow> bool"
  tl_current :: "int \<Rightarrow> nat"
  tl_encrypt :: "nat \<Rightarrow> bytes \<Rightarrow> nat \<Rightarrow> string + bytes"
  tl_decrypt :: "int \<Rightarrow> bytes \<Rightarrow> string + bytes"

text \<open>The shards that \<open>Split\<close> and \<open>Encode\<close> make of data.\<close>

definition rs_code :: "file_lib \<Rightarrow> int \<Rightarrow> int \<Rightarrow> bytes \<Rightarrow> char slice list \<Rightarrow> bool" where
  "rs_code L ds ps data shards \<longleftrightarrow>
     (case rs_split L ds ps data of Inl _ \<Rightarrow> False | Inr chunks \<Rightarrow> rs_encode L ds ps chunks = Inr shards)"

definition part_map :: "(char \<times> bytes) list \<Rightarrow> char \<Rightarrow> char slice option" where
  "part_map parts i = map_option Some (map_of parts i)"

locale file_lib_ok =
  fixes L :: file_lib
  assumes rs_params: "rs_new L ds ps \<Longrightarrow> 0 < ds \<and> 0 \<le> ps"
    and rs_works: "rs_new L ds ps \<Longrightarrow> data \<noteq> [] \<Longrightarrow> \<exists>shards. rs_code L ds ps data shards"
    and rs_shards: "rs_new L ds ps \<Longrightarrow> rs_code L ds ps data shards
        \<Longrightarrow> int (length shards) = ds + ps \<and> (\<forall>x \<in> set shards. elems x \<noteq> [])"
    and rs_recovers: "rs_new L ds ps \<Longrightarrow> rs_code L ds ps data shards \<Longrightarrow> length given = length shards
        \<Longrightarrow> (\<forall>i < length given. given ! i \<in> {None, shards ! i})
        \<Longrightarrow> ds \<le> int (length (filter (\<lambda>x. x \<noteq> None) given))
        \<Longrightarrow> \<exists>full. rs_reconstruct L ds ps given = Inr full \<and> rs_join L ds ps full (int (length data)) = Inr data"
    and sh_works: "secret \<noteq> [] \<Longrightarrow> 2 \<le> k \<Longrightarrow> k \<le> n \<Longrightarrow> n \<le> 255 \<Longrightarrow> \<exists>parts. sh_split L r secret n k = Inr parts"
    and sh_parts: "sh_split L r secret n k = Inr parts \<Longrightarrow> int (length parts) = n \<and> distinct (map fst parts)"
    and sh_recovers: "sh_split L r secret n k = Inr parts \<Longrightarrow> m \<subseteq>\<^sub>m part_map parts \<Longrightarrow> k \<le> int (card (dom m))
        \<Longrightarrow> sh_combine L m = Inr secret"
    and tl_unlocks: "tl_encrypt L r key round = Inr ct \<Longrightarrow> round \<le> tl_current L now \<Longrightarrow> tl_decrypt L now ct = Inr key"
    and tl_locked: "tl_encrypt L r key round = Inr ct \<Longrightarrow> tl_current L now < round \<Longrightarrow> \<exists>e. tl_decrypt L now ct = Inl e"
    and tl_nonempty: "tl_encrypt L r key round = Inr ct \<Longrightarrow> ct \<noteq> []"
    and tl_current_mono: "t \<le> t' \<Longrightarrow> tl_current L t \<le> tl_current L t'"

text \<open>
  What the packages refuse, as their documentation has it: \<open>Reconstruct\<close> fails with
  \<open>ErrTooFewShards\<close> when fewer shards than \<open>ds\<close> have content, \<open>Combine\<close> fails on a part without content
  (parts have the same length, at least one byte), and the index of a part is never 0. Only needed
  against nodes that lie.
\<close>

definition refuses :: "file_lib \<Rightarrow> bool" where
  "refuses L \<longleftrightarrow>
     (\<forall>ds ps given. rs_new L ds ps \<longrightarrow> int (length (filter (\<lambda>x. elems x \<noteq> []) given)) < ds
        \<longrightarrow> (\<exists>e. rs_reconstruct L ds ps given = Inl e))
     \<and> (\<forall>m i. m i = Some None \<longrightarrow> (\<exists>e. sh_combine L m = Inl e))
     \<and> (\<forall>r secret n k parts. sh_split L r secret n k = Inr parts \<longrightarrow> CHR 0x00 \<notin> fst ` set parts)"

subsection \<open>A stand-in for the packages\<close>

text \<open>
  Every shard and every part of a key is a full copy, the lock writes the round in front of the key
  in unary, and the beacon has a round each 30 seconds.
\<close>

fun first_some :: "'a option list \<Rightarrow> 'a option" where
  "first_some [] = None"
| "first_some (x # xs) = (case x of Some a \<Rightarrow> Some a | None \<Rightarrow> first_some xs)"

definition ref_libs :: file_lib where
  "ref_libs = \<lparr>rs_new = (\<lambda>ds ps. 0 < ds \<and> 0 \<le> ps),
     rs_split = (\<lambda>ds ps data. if data = [] then Inl ''short data'' else Inr (replicate (nat (ds + ps)) (Some data))),
     rs_encode = (\<lambda>ds ps chunks. Inr chunks),
     rs_reconstruct = (\<lambda>ds ps given. if int (length (filter (\<lambda>x. elems x \<noteq> []) given)) < ds then Inl ''too few shards''
        else Inr (replicate (length given) (first_some given))),
     rs_join = (\<lambda>ds ps full n. Inr (take (nat n) (elems (hd full)))),
     sh_split = (\<lambda>r secret n k. if secret = [] \<or> k < 2 \<or> n < k \<or> 255 < n then Inl ''invalid''
        else Inr (map (\<lambda>i. (char_of (i + 1 :: nat), secret)) [0..<nat n])),
     sh_combine = (\<lambda>m. if list_ex (\<lambda>i. m (char_of (i :: nat)) = Some None) [0..<256] then Inl ''all parts must be the same length''
        else case first_some (map (\<lambda>i. m (char_of (i :: nat))) [0..<256]) of
          Some v \<Rightarrow> Inr (elems v) | None \<Rightarrow> Inl ''less than two parts''),
     tl_network = (\<lambda>_ _. True),
     tl_current = (\<lambda>t. nat (t div 30000000000)),
     tl_encrypt = (\<lambda>r key round. Inr (replicate round CHR ''.'' @ CHR '':'' # key)),
     tl_decrypt = (\<lambda>now ct. if length (takeWhile (\<lambda>c. c = CHR ''.'') ct) \<le> nat (now div 30000000000)
        then Inr (tl (dropWhile (\<lambda>c. c = CHR ''.'') ct)) else Inl ''too early'')\<rparr>"

lemma first_some_in: "\<exists>x \<in> set xs. x \<noteq> None \<Longrightarrow> \<exists>a. first_some xs = Some a \<and> Some a \<in> set xs"
  by (induction xs) (auto split: option.split)

lemma unary: "takeWhile (\<lambda>c. c = CHR ''.'') (replicate n CHR ''.'' @ CHR '':'' # k) = replicate n CHR ''.''"
  "dropWhile (\<lambda>c. c = CHR ''.'') (replicate n CHR ''.'' @ CHR '':'' # k) = CHR '':'' # k"
  by (induction n) auto

lemma ref_recovers:
  assumes "0 < ds" "data \<noteq> []" "length given = nat (ds + ps)" "0 \<le> ps"
    and "\<forall>i < length given. given ! i = None \<or> given ! i = Some data" "ds \<le> int (length (filter (\<lambda>x. x \<noteq> None) given))"
  shows "first_some given = Some data \<and> given \<noteq> []"
proof -
  have all: "x = None \<or> x = Some data" if "x \<in> set given" for x
    using that assms(5) by (auto simp: in_set_conv_nth)
  have "filter (\<lambda>x. x \<noteq> None) given \<noteq> []" using assms(1,6) by auto
  then have "\<exists>x \<in> set given. x \<noteq> None" by (auto simp: filter_empty_conv)
  from first_some_in[OF this] show ?thesis using all assms(1,3,4) by auto
qed

lemma ref_combines:
  assumes "m \<subseteq>\<^sub>m part_map (map (\<lambda>i. (char_of (i + 1 :: nat), secret)) [0..<n])" "0 < card (dom m)"
  shows "first_some (map (\<lambda>i. m (char_of (i :: nat))) [0..<256]) = Some (Some secret)"
    "\<not> list_ex (\<lambda>i. m (char_of (i :: nat)) = Some None) [0..<256]"
proof -
  have all: "m i = None \<or> m i = Some (Some secret)" for i :: char
  proof (cases "m i")
    case (Some v)
    then have "part_map (map (\<lambda>i. (char_of (i + 1 :: nat), secret)) [0..<n]) i = Some v"
      using assms(1) by (metis domI map_le_def)
    then show ?thesis using Some by (auto simp: part_map_def dest!: map_of_SomeD)
  qed simp
  obtain i v where iv: "m i = Some v" using assms(2) by (metis card_gt_0_iff domD ex_in_conv)
  have "of_char i \<in> set [0..<256]" "m (char_of (of_char i :: nat)) = Some v"
    using iv nat_of_char_less_256[of i] by auto
  then have "\<exists>x \<in> set (map (\<lambda>i. m (char_of (i :: nat))) [0..<256]). x \<noteq> None"
    by (metis image_eqI list.set_map option.distinct(1))
  from first_some_in[OF this] obtain a i where "first_some (map (\<lambda>i. m (char_of (i :: nat))) [0..<256]) = Some a"
    "Some a = m (char_of (i :: nat))" by (auto simp: image_iff)
  then show "first_some (map (\<lambda>i. m (char_of (i :: nat))) [0..<256]) = Some (Some secret)"
    using all[of "char_of i"] by (metis option.distinct(1))
  show "\<not> list_ex (\<lambda>i. m (char_of (i :: nat)) = Some None) [0..<256]"
    using all by (auto simp: list_ex_iff) (metis option.distinct(1) option.inject)
qed

interpretation ref_libs: file_lib_ok ref_libs
proof
  show "int (length parts) = n \<and> distinct (map fst parts)"
    if "sh_split ref_libs r secret n k = Inr parts" for r secret n k parts
  proof -
    have "inj_on (\<lambda>i. char_of (i + 1 :: nat) :: char) {0..<nat n}" if "n \<le> 255"
    proof (rule inj_onI)
      fix x y assume xy: "x \<in> {0..<nat n}" "y \<in> {0..<nat n}" "(char_of (x + 1) :: char) = char_of (y + 1)"
      then have "(of_char (char_of (x + 1) :: char) :: nat) = of_char (char_of (y + 1) :: char)" by simp
      then show "x = y" using xy(1,2) that by (simp add: take_bit_eq_mod)
    qed
    then have "distinct (map (\<lambda>i. char_of (i + 1 :: nat) :: char) [0..<nat n])" if "n \<le> 255"
      using that by (simp add: distinct_map)
    moreover have "map fst (map (\<lambda>i. (char_of (i + 1 :: nat), secret)) [0..<nat n]) = map (\<lambda>i. char_of (i + 1 :: nat) :: char) [0..<nat n]"
      by simp
    ultimately show ?thesis using that by (auto simp: ref_libs_def simp del: map_map split: if_splits)
  qed
  show "sh_combine ref_libs m = Inr secret"
    if "sh_split ref_libs r secret n k = Inr parts" "m \<subseteq>\<^sub>m part_map parts" "k \<le> int (card (dom m))" for r secret n k parts m
    using that ref_combines[of m secret "nat n"] by (auto simp: ref_libs_def split: if_splits)
  show "\<exists>full. rs_reconstruct ref_libs ds ps given = Inr full \<and> rs_join ref_libs ds ps full (int (length data)) = Inr data"
    if "rs_new ref_libs ds ps" "rs_code ref_libs ds ps data shards" "length given = length shards"
      "\<forall>i < length given. given ! i \<in> {None, shards ! i}" "ds \<le> int (length (filter (\<lambda>x. x \<noteq> None) given))"
    for ds ps data shards given
  proof -
    have d: "0 < ds" "0 \<le> ps" "data \<noteq> []" "shards = replicate (nat (ds + ps)) (Some data)"
      using that(1,2) by (auto simp: ref_libs_def rs_code_def split: if_splits)
    have "first_some given = Some data \<and> given \<noteq> []"
      using that(3-5) d by (intro ref_recovers[of ds data given ps]) auto
    moreover have "elems x \<noteq> [] \<longleftrightarrow> x \<noteq> None" if "x \<in> set given" for x
      using that \<open>length given = length shards\<close> \<open>\<forall>i < length given. _\<close> d by (auto simp: in_set_conv_nth)
    then have "filter (\<lambda>x. elems x \<noteq> []) given = filter (\<lambda>x. x \<noteq> None) given" by (intro filter_cong) auto
    ultimately show ?thesis using that(5) by (cases given) (auto simp: ref_libs_def)
  qed
  show "t \<le> t' \<Longrightarrow> tl_current ref_libs t \<le> tl_current ref_libs t'" for t t'
    by (simp add: ref_libs_def nat_mono zdiv_mono1)
qed (auto simp: ref_libs_def rs_code_def unary split: if_splits)

lemma ref_refuses: "refuses ref_libs"
  unfolding refuses_def
proof (intro conjI allI impI)
  fix m :: "char \<Rightarrow> char slice option" and i :: char
  assume "m i = Some None"
  then have "m (char_of (of_char i :: nat)) = Some None" "of_char i \<in> set [0..<256]"
    using nat_of_char_less_256[of i] by auto
  then have "list_ex (\<lambda>i. m (char_of (i :: nat)) = Some None) [0..<256]" unfolding list_ex_iff by blast
  then show "\<exists>e. sh_combine ref_libs m = Inl e" by (simp add: ref_libs_def)
next
  fix r secret n k parts assume "sh_split ref_libs r secret n k = Inr parts"
  then have "n \<le> 255" "parts = map (\<lambda>i. (char_of (i + 1 :: nat), secret)) [0..<nat n]" by (auto simp: ref_libs_def split: if_splits)
  moreover have "char_of (j + 1) \<noteq> CHR 0x00" if "j < nat n" "n \<le> 255" for j :: nat
  proof
    assume "char_of (j + 1) = CHR 0x00"
    then have "(of_char (char_of (j + 1) :: char) :: nat) = of_char (CHR 0x00)" by (rule arg_cong)
    then show False using that by (simp add: take_bit_eq_mod)
  qed
  ultimately show "CHR 0x00 \<notin> fst ` set parts" by (auto simp: image_iff) metis+
qed (simp add: ref_libs_def)

end
