(* ===== verification/File_Reconstruct.thy ===== *)
theory File_Reconstruct
  imports Chunk_Net File_Libs
begin

text \<open>
  Downloads: \<open>StreamReconstruct\<close> and \<open>GetRoundForTime\<close> of \<open>internal/service/file_management.go\<close>. The
  loop over the chunks of a block is \<open>fetch_chunks\<close>, the one over the nodes of a chunk \<open>try_nodes\<close>;
  the writer is a function on its own state. \<open>sealed\<close> says what a block of a manifest was made of,
  and the theorems say what a download of such blocks writes, whatever nodes are missing;
  \<open>StreamReconstruct_locked\<close> says that it writes nothing before the round, whatever the nodes answer.
\<close>

subsection \<open>One block\<close>

record fetch =
  ft_shards :: "char slice list"
  ft_keyParts :: "char \<Rightarrow> char slice option"
  ft_received :: int

definition originalChunkInfo :: "Chunk list \<Rightarrow> bytes \<Rightarrow> Chunk option" where
  "originalChunkInfo chunks = fold (\<lambda>c m. m(chk_ChunkId c \<mapsto> c)) chunks Map.empty"

text \<open>A chunk id that is not in the manifest is looked up as Go's zero \<open>Chunk\<close>.\<close>

fun try_nodes ::
  "'w gnet \<Rightarrow> (bytes \<Rightarrow> Chunk option) \<Rightarrow> Chunk \<Rightarrow> bytes list \<Rightarrow> fetch \<Rightarrow> 'w client \<Rightarrow> fetch res \<times> 'w client" where
  "try_nodes gnet info chunkMeta [] st s = (Inr st, s)"
| "try_nodes gnet info chunkMeta (nodeAddr # nodes) st s =
     (case RequestChunk gnet nodeAddr (chk_ChunkId chunkMeta) s of
        (Inl _, s1) \<Rightarrow> try_nodes gnet info chunkMeta nodes st s1
      | (Inr chunkReq, s1) \<Rightarrow>
          (let originalInfo = (case info (crq_ChunkId chunkReq) of None \<Rightarrow> zero_Chunk | Some c \<Rightarrow> c);
               j = chk_ShardIndex originalInfo
           in if j < 0 \<or> int (length (ft_shards st)) \<le> j then (Inl (Panic ''index out of range''), s1)
              else if ft_shards st ! nat j \<noteq> None then try_nodes gnet info chunkMeta nodes st s1
              else (Inr \<lparr>ft_shards = (ft_shards st)[nat j := crq_Shard chunkReq],
                      ft_keyParts = (ft_keyParts st)(chk_KeyIndexPart originalInfo \<mapsto> chk_KeyPart originalInfo),
                      ft_received = ft_received st + 1\<rparr>, s1)))"

fun fetch_chunks ::
  "'w gnet \<Rightarrow> (bytes \<Rightarrow> Chunk option) \<Rightarrow> int \<Rightarrow> Chunk list \<Rightarrow> fetch \<Rightarrow> 'w client \<Rightarrow> fetch res \<times> 'w client" where
  "fetch_chunks gnet info shardsRequired [] st s = (Inr st, s)"
| "fetch_chunks gnet info shardsRequired (chunkMeta # chunks) st s =
     (if ft_received st \<ge> shardsRequired then (Inr st, s)
      else (case try_nodes gnet info chunkMeta (elems (chk_Nodes chunkMeta)) st s of
          (Inl e, s1) \<Rightarrow> (Inl e, s1)
        | (Inr st1, s1) \<Rightarrow> fetch_chunks gnet info shardsRequired chunks st1 s1))"

definition block_of :: "FileManifest \<Rightarrow> int \<Rightarrow> FileBlock" where
  "block_of m i = (case map_of (elems (man_Split m)) i of None \<Rightarrow> zero_FileBlock | Some b \<Rightarrow> b)"

definition no_shards :: "int \<Rightarrow> fetch" where
  "no_shards n = \<lparr>ft_shards = replicate (nat n) None, ft_keyParts = Map.empty, ft_received = 0\<rparr>"

text \<open>The code from \<open>enc.Reconstruct\<close> on; \<open>now\<close> is the time at which the relay is asked.\<close>

definition open_block :: "file_lib \<Rightarrow> crypto_lib \<Rightarrow> int \<Rightarrow> int \<Rightarrow> int \<Rightarrow> FileBlock \<Rightarrow> fetch \<Rightarrow> bytes res" where
  "open_block L C now ds ps blockData st =
     (case rs_reconstruct L ds ps (ft_shards st) of Inl _ \<Rightarrow> Inl (Err ''reconstruction failed'')
      | Inr shards \<Rightarrow>
     (case rs_join L ds ps shards (blk_EncryptedBlockSize blockData) of Inl _ \<Rightarrow> Inl (Err ''failed to join shards'')
      | Inr encryptedBlock \<Rightarrow>
     (case sh_combine L (ft_keyParts st) of Inl _ \<Rightarrow> Inl (Err ''failed to combine Shamir key'')
      | Inr encryptedAESKey \<Rightarrow>
     (case tl_decrypt L now encryptedAESKey of Inl _ \<Rightarrow> Inl (Err ''failed to unlock key with drand'')
      | Inr plainAESKey \<Rightarrow>
     (case DecryptGCM C encryptedBlock plainAESKey of Inl _ \<Rightarrow> Inl (Err ''failed to decrypt block AES'')
      | Inr decryptedBlock \<Rightarrow> Inr decryptedBlock)))))"

definition reconstruct_block ::
  "file_lib \<Rightarrow> crypto_lib \<Rightarrow> 'w gnet \<Rightarrow> int \<Rightarrow> FileManifest \<Rightarrow> int \<Rightarrow> 'w client \<Rightarrow> bytes res \<times> 'w client" where
  "reconstruct_block L C gnet now fileManifest i s =
     (let ds = rsc_DataShards (man_ReedSolomonConfig fileManifest);
          ps = rsc_ParityShards (man_ReedSolomonConfig fileManifest);
          blockData = block_of fileManifest i;
          chunks = elems (blk_Chunks blockData)
      in if ds + ps < 0 then (Inl (Panic ''makeslice: len out of range''), s)
         else (case fetch_chunks gnet (originalChunkInfo chunks) ds chunks (no_shards (ds + ps)) s of
             (Inl e, s1) \<Rightarrow> (Inl e, s1)
           | (Inr st, s1) \<Rightarrow>
               if ft_received st < ds then (Inl (Err ''insufficient data for block''), s1)
               else (open_block L C now ds ps blockData st, s1)))"

subsection \<open>All blocks\<close>

type_synonym 'o writer = "bytes \<Rightarrow> 'o \<Rightarrow> string option \<times> 'o"

text \<open>\<open>clock i\<close> is the time at which the relay is asked for the \<open>i\<close>-th block.\<close>

fun reconstruct_blocks ::
  "file_lib \<Rightarrow> crypto_lib \<Rightarrow> 'w gnet \<Rightarrow> 'o writer \<Rightarrow> (int \<Rightarrow> int) \<Rightarrow> FileManifest \<Rightarrow> int list \<Rightarrow> 'o \<Rightarrow> 'w client
    \<Rightarrow> fault option \<times> 'o \<times> 'w client" where
  "reconstruct_blocks L C gnet wr clock m [] out s = (None, out, s)"
| "reconstruct_blocks L C gnet wr clock m (i # is) out s =
     (case reconstruct_block L C gnet (clock i) m i s of
        (Inl e, s1) \<Rightarrow> (Some e, out, s1)
      | (Inr decryptedBlock, s1) \<Rightarrow>
          (case wr decryptedBlock out of
             (Some _, out1) \<Rightarrow> (Some (Err ''client connection lost''), out1, s1)
           | (None, out1) \<Rightarrow> reconstruct_blocks L C gnet wr clock m is out1 s1))"

definition relay :: "nat \<Rightarrow> bytes" where
  "relay r = DrandRelays ! (r mod length DrandRelays)"

definition StreamReconstruct ::
  "file_lib \<Rightarrow> crypto_lib \<Rightarrow> 'w gnet \<Rightarrow> 'o writer \<Rightarrow> (int \<Rightarrow> int) \<Rightarrow> nat \<Rightarrow> FileManifest \<Rightarrow> 'o \<Rightarrow> 'w client
    \<Rightarrow> fault option \<times> 'o \<times> 'w client" where
  "StreamReconstruct L C gnet wr clock r fileManifest out s =
     (if \<not> tl_network L (relay r) DrandChainHash then (Some (Err ''network tlock error''), out, s)
      else if \<not> rs_new L (rsc_DataShards (man_ReedSolomonConfig fileManifest)) (rsc_ParityShards (man_ReedSolomonConfig fileManifest))
      then (Some (Err ''Reed-Solomon creation error''), out, s)
      else reconstruct_blocks L C gnet wr clock fileManifest (map int [0..<nat (man_Blocks fileManifest)]) out s)"

text \<open>Round 0 comes back without an error: the \<open>err\<close> of that branch is nil.\<close>

definition GetRoundForTime :: "file_lib \<Rightarrow> (bytes \<Rightarrow> int option) \<Rightarrow> nat \<Rightarrow> bytes \<Rightarrow> nat res" where
  "GetRoundForTime L parse r releaseTimeStr =
     (case parse releaseTimeStr of None \<Rightarrow> Inl (Err ''parsing time'')
      | Some targetTime \<Rightarrow>
          if \<not> tl_network L (relay r) DrandChainHash then Inl (Err ''network'')
          else Inr (tl_current L targetTime))"

text \<open>A writer that takes everything.\<close>

definition write_buf :: "bytes writer" where
  "write_buf b out = (None, out @ b)"

subsection \<open>Blocks that were sealed\<close>

text \<open>
  The block \<open>blk\<close> of a manifest was made from \<open>plain\<close>: encrypted under a key that is locked until
  \<open>round\<close>, coded into \<open>shards\<close>, with the parts of the locked key in the chunks.
\<close>

definition sealed ::
  "file_lib \<Rightarrow> crypto_lib \<Rightarrow> int \<Rightarrow> int \<Rightarrow> nat \<Rightarrow> bytes \<Rightarrow> FileBlock \<Rightarrow> char slice list \<Rightarrow> (char \<times> bytes) list \<Rightarrow> bool" where
  "sealed L C ds ps round plain blk shards parts \<longleftrightarrow> (\<exists>key encrypted r r' ct.
     DecryptGCM C encrypted key = Inr plain \<and> tl_encrypt L r key round = Inr ct \<and> sh_split L r' ct (ds + ps) ds = Inr parts
     \<and> rs_code L ds ps encrypted shards \<and> blk_EncryptedBlockSize blk = int (length encrypted)
     \<and> map chk_ShardIndex (elems (blk_Chunks blk)) = map int [0..<length shards]
     \<and> map (\<lambda>c. (chk_KeyIndexPart c, chk_KeyPart c)) (elems (blk_Chunks blk)) = map (\<lambda>(k, v). (k, Some v)) parts
     \<and> distinct (map chk_ChunkId (elems (blk_Chunks blk))))"

text \<open>Whatever a node serves under the id of a chunk is the shard of that chunk; it may serve nothing.\<close>

definition honest :: "(bytes \<Rightarrow> bytes \<Rightarrow> bytes option) \<Rightarrow> FileBlock \<Rightarrow> char slice list \<Rightarrow> bool" where
  "honest h blk shards \<longleftrightarrow> (\<forall>j < length shards. \<forall>addr v. h addr (chk_ChunkId (elems (blk_Chunks blk) ! j)) = Some v
     \<longrightarrow> (\<exists>req. v = served req \<and> ok_ChunkRequest req \<and> crq_ChunkId req = chk_ChunkId (elems (blk_Chunks blk) ! j)
           \<and> pb_bytes (crq_Shard req) = shards ! j))"

definition available :: "(bytes \<Rightarrow> bytes \<Rightarrow> bytes option) \<Rightarrow> Chunk \<Rightarrow> bool" where
  "available h c \<longleftrightarrow> (\<exists>a \<in> set (elems (chk_Nodes c)). h a (chk_ChunkId c) \<noteq> None)"

definition obtainable :: "(bytes \<Rightarrow> bytes \<Rightarrow> bytes option) \<Rightarrow> FileBlock \<Rightarrow> nat" where
  "obtainable h blk = length (filter (available h) (elems (blk_Chunks blk)))"

definition fetched :: "(char \<times> bytes) list \<Rightarrow> char slice list \<Rightarrow> nat set \<Rightarrow> fetch" where
  "fetched parts shards J = \<lparr>ft_shards = map (\<lambda>j. if j \<in> J then shards ! j else None) [0..<length shards],
     ft_keyParts = part_map parts |` ((\<lambda>j. fst (parts ! j)) ` J), ft_received = int (card J)\<rparr>"

lemma info_other: "k \<notin> chk_ChunkId ` set cs \<Longrightarrow> fold (\<lambda>c m. m(chk_ChunkId c \<mapsto> c)) cs m k = m k"
  by (induction cs arbitrary: m) auto

lemma info_in:
  "distinct (map chk_ChunkId cs) \<Longrightarrow> c \<in> set cs \<Longrightarrow> fold (\<lambda>c m. m(chk_ChunkId c \<mapsto> c)) cs m (chk_ChunkId c) = Some c"
  by (induction cs arbitrary: m) (auto simp: info_other)

lemma originalChunkInfo_nth:
  "distinct (map chk_ChunkId cs) \<Longrightarrow> j < length cs \<Longrightarrow> originalChunkInfo cs (chk_ChunkId (cs ! j)) = Some (cs ! j)"
  by (simp add: originalChunkInfo_def info_in)

lemma fetched_empty: "fetched parts shards {} = no_shards (int (length shards))"
  by (simp add: fetched_def no_shards_def map_replicate_const)

lemma fetched_insert:
  assumes "j < length shards" "length parts = length shards" "distinct (map fst parts)" "j \<notin> J" "finite J"
  shows "\<lparr>ft_shards = (ft_shards (fetched parts shards J))[j := shards ! j],
      ft_keyParts = (ft_keyParts (fetched parts shards J))(fst (parts ! j) \<mapsto> Some (snd (parts ! j))),
      ft_received = ft_received (fetched parts shards J) + 1\<rparr> = fetched parts shards (insert j J)"
proof -
  have "part_map parts (fst (parts ! j)) = Some (Some (snd (parts ! j)))"
    using assms(1-3) by (simp add: part_map_def)
  then have "(part_map parts |` A)(fst (parts ! j) \<mapsto> Some (snd (parts ! j))) = part_map parts |` insert (fst (parts ! j)) A" for A
    by (auto simp: fun_eq_iff restrict_map_def)
  then show ?thesis
    using assms by (auto simp: fetched_def intro!: nth_equalityI simp: nth_list_update)
qed

text \<open>What the fetching loops need of a sealed block.\<close>

definition coded :: "FileBlock \<Rightarrow> char slice list \<Rightarrow> (char \<times> bytes) list \<Rightarrow> bool" where
  "coded blk shards parts \<longleftrightarrow> length (elems (blk_Chunks blk)) = length shards \<and> length parts = length shards
     \<and> distinct (map fst parts) \<and> distinct (map chk_ChunkId (elems (blk_Chunks blk)))
     \<and> (\<forall>j < length shards. elems (shards ! j) \<noteq> [] \<and> chk_ShardIndex (elems (blk_Chunks blk) ! j) = int j
         \<and> chk_KeyIndexPart (elems (blk_Chunks blk) ! j) = fst (parts ! j)
         \<and> chk_KeyPart (elems (blk_Chunks blk) ! j) = Some (snd (parts ! j)))"

lemma coded_some: "coded blk shards parts \<Longrightarrow> j < length shards \<Longrightarrow> shards ! j \<noteq> None"
  by (cases "shards ! j") (auto simp: coded_def)

lemma honestD:
  assumes "honest h blk shards" "j < length shards" "h addr (chk_ChunkId (elems (blk_Chunks blk) ! j)) = Some v"
  obtains req where "v = served req" "ok_ChunkRequest req" "crq_ChunkId req = chk_ChunkId (elems (blk_Chunks blk) ! j)"
    "pb_bytes (crq_Shard req) = shards ! j"
  using assms unfolding honest_def by blast

context file_lib_ok
begin

lemma sealed_coded:
  assumes "sealed L C ds ps round plain blk shards parts" "rs_new L ds ps"
  shows "coded blk shards parts" "int (length shards) = ds + ps"
proof -
  obtain encrypted r' ct where s: "sh_split L r' ct (ds + ps) ds = Inr parts" "rs_code L ds ps encrypted shards"
    "map chk_ShardIndex (elems (blk_Chunks blk)) = map int [0..<length shards]"
    "map (\<lambda>c. (chk_KeyIndexPart c, chk_KeyPart c)) (elems (blk_Chunks blk)) = map (\<lambda>(k, v). (k, Some v)) parts"
    "distinct (map chk_ChunkId (elems (blk_Chunks blk)))"
    using assms(1) by (auto simp: sealed_def)
  have n: "length (elems (blk_Chunks blk)) = length shards" using arg_cong[OF s(3), of length] by simp
  have k: "length parts = length shards" using arg_cong[OF s(4), of length] n by simp
  have "chk_ShardIndex (elems (blk_Chunks blk) ! j) = int j
      \<and> (chk_KeyIndexPart (elems (blk_Chunks blk) ! j), chk_KeyPart (elems (blk_Chunks blk) ! j)) = (fst (parts ! j), Some (snd (parts ! j)))"
    if "j < length shards" for j
    using that arg_cong[OF s(3), of "\<lambda>l. l ! j"] arg_cong[OF s(4), of "\<lambda>l. l ! j"] n k by (simp add: case_prod_beta)
  then show "coded blk shards parts"
    using s(5) n k sh_parts[OF s(1)] rs_shards[OF assms(2) s(2)] by (auto simp: coded_def)
  show "int (length shards) = ds + ps" using rs_shards[OF assms(2) s(2)] by simp
qed

lemma open_block_sealed:
  assumes "sealed L C ds ps round plain blk shards parts" "rs_new L ds ps"
    and "J \<subseteq> {..<length shards}" "ds \<le> int (card J)"
  shows "open_block L C now ds ps blk (fetched parts shards J)
    = (if round \<le> tl_current L now then Inr plain else Inl (Err ''failed to unlock key with drand''))"
proof -
  obtain key encrypted r r' ct where s: "DecryptGCM C encrypted key = Inr plain" "tl_encrypt L r key round = Inr ct"
    "sh_split L r' ct (ds + ps) ds = Inr parts" "rs_code L ds ps encrypted shards" "blk_EncryptedBlockSize blk = int (length encrypted)"
    using assms(1) by (auto simp: sealed_def)
  note c = sealed_coded(1)[OF assms(1,2)]
  have fin: "finite J" using assms(3) finite_subset by blast
  have "length (filter (\<lambda>x. x \<noteq> None) (ft_shards (fetched parts shards J))) = card J"
  proof -
    have "{i. i < length (ft_shards (fetched parts shards J)) \<and> ft_shards (fetched parts shards J) ! i \<noteq> None} = J"
      using assms(3) coded_some[OF c] by (auto simp: fetched_def split: if_splits)
    then show ?thesis by (simp only: length_filter_conv_card)
  qed
  moreover have "length (ft_shards (fetched parts shards J)) = length shards"
    "\<forall>i < length (ft_shards (fetched parts shards J)). ft_shards (fetched parts shards J) ! i \<in> {None, shards ! i}"
    by (simp_all add: fetched_def)
  ultimately obtain full where full: "rs_reconstruct L ds ps (ft_shards (fetched parts shards J)) = Inr full"
    "rs_join L ds ps full (int (length encrypted)) = Inr encrypted"
    using rs_recovers[OF assms(2) s(4), of "ft_shards (fetched parts shards J)"] assms(4) by auto
  have "inj_on (\<lambda>j. fst (parts ! j)) J"
    using c assms(3) by (auto simp: coded_def inj_on_def distinct_conv_nth) (metis lessThan_iff nth_map subsetD)
  moreover have "dom (ft_keyParts (fetched parts shards J)) = (\<lambda>j. fst (parts ! j)) ` J"
    using c assms(3) by (auto simp: fetched_def part_map_def coded_def dom_map_of_conv_image_fst subset_iff image_iff)
      (metis nth_mem prod.collapse)
  ultimately have "card (dom (ft_keyParts (fetched parts shards J))) = card J" by (simp add: card_image)
  moreover have "ft_keyParts (fetched parts shards J) \<subseteq>\<^sub>m part_map parts"
    by (auto simp: fetched_def map_le_def)
  ultimately have "sh_combine L (ft_keyParts (fetched parts shards J)) = Inr ct"
    using sh_recovers[OF s(3)] assms(4) by simp
  then show ?thesis
    using full s(1,5) tl_unlocks[OF s(2), of now] tl_locked[OF s(2), of now] by (auto simp: open_block_def not_le)
qed

end

context chunk_net
begin

lemma try_nodes_honest:
  assumes "coded blk shards parts" "honest (holds s) blk shards" "inv s"
    and "J \<subseteq> {..<length shards}" "j < length shards" "j \<notin> J" "c = elems (blk_Chunks blk) ! j"
  shows "\<exists>s1. try_nodes gnet (originalChunkInfo (elems (blk_Chunks blk))) c ns (fetched parts shards J) s
      = (Inr (fetched parts shards (if \<exists>a \<in> set ns. holds s a (chk_ChunkId c) \<noteq> None then insert j J else J)), s1)
    \<and> inv s1 \<and> holds s1 = holds s"
  using assms(2,3)
proof (induction ns arbitrary: s)
  case (Cons a ns)
  define s1 where "s1 = snd (RequestChunk gnet a (chk_ChunkId c) s)"
  have s1: "inv s1" "holds s1 = holds s" using get_inv get_same Cons.prems(2) by (auto simp: s1_def)
  show ?case
  proof (cases "holds s a (chk_ChunkId c)")
    case None
    obtain e where "RequestChunk gnet a (chk_ChunkId c) s = (Inl e, s1)"
      using get_none[OF Cons.prems(2) None] by (metis prod.collapse s1_def)
    then show ?thesis using Cons.IH[of s1] Cons.prems(1) s1 None by simp
  next
    case (Some v)
    obtain req where req: "v = served req" "ok_ChunkRequest req" "crq_ChunkId req = chk_ChunkId c" "pb_bytes (crq_Shard req) = shards ! j"
      using honestD[OF Cons.prems(1) assms(5)] Some assms(7) by metis
    have r: "RequestChunk gnet a (chk_ChunkId c) s = (Inr (kept req), s1)"
      using RequestChunk_served[OF Cons.prems(2) Some[unfolded req(1)] req(2)] by (metis prod.collapse s1_def)
    have "originalChunkInfo (elems (blk_Chunks blk)) (chk_ChunkId c) = Some c"
      using assms(1,5,7) by (simp add: coded_def originalChunkInfo_nth)
    then show ?thesis
      using r req s1 Some assms(1,4-7) fetched_insert[of j shards parts J]
      by (simp add: coded_def fetched_def finite_subset)
  qed
qed simp

lemma fetch_chunks_honest:
  assumes "coded blk shards parts"
  defines "chunks \<equiv> elems (blk_Chunks blk)"
  shows "honest h blk shards \<Longrightarrow> holds s = h \<Longrightarrow> inv s \<Longrightarrow> m + length xs = length shards \<Longrightarrow> xs = drop m chunks
    \<Longrightarrow> J = {j. j < m \<and> available h (chunks ! j)} \<Longrightarrow> \<exists>K s1.
      fetch_chunks gnet (originalChunkInfo chunks) need xs (fetched parts shards J) s = (Inr (fetched parts shards K), s1)
      \<and> inv s1 \<and> holds s1 = h \<and> K \<subseteq> {j. j < length shards \<and> available h (chunks ! j)}
      \<and> (need \<le> int (card K) \<or> K = {j. j < length shards \<and> available h (chunks ! j)})"
proof (induction xs arbitrary: m J s)
  case (Cons c xs)
  have lt: "m < length shards" using Cons.prems(4) by simp
  have "drop m chunks = chunks ! m # drop (Suc m) chunks"
    using lt assms(1) by (simp add: Cons_nth_drop_Suc coded_def chunks_def)
  then have m: "m < length shards" "c = chunks ! m" "xs = drop (Suc m) chunks"
    using lt Cons.prems(5) by simp_all
  show ?case
  proof (cases "need \<le> int (card J)")
    case True
    then have "fetch_chunks gnet (originalChunkInfo chunks) need (c # xs) (fetched parts shards J) s = (Inr (fetched parts shards J), s)"
      by (simp add: fetched_def)
    moreover have "J \<subseteq> {j. j < length shards \<and> available h (chunks ! j)}" using Cons.prems(6) m(1) by auto
    ultimately show ?thesis using Cons.prems(2,3) True by blast
  next
    case False
    have sub: "J \<subseteq> {..<length shards}" "m \<notin> J" and hon: "honest (holds s) blk shards"
      using Cons.prems(1,2,6) lt by auto
    note nin = sub(2) and sub = sub(1)
    define J1 where "J1 = (if available h c then insert m J else J)"
    have "\<exists>s1. try_nodes gnet (originalChunkInfo chunks) c (elems (chk_Nodes c)) (fetched parts shards J) s
        = (Inr (fetched parts shards J1), s1) \<and> inv s1 \<and> holds s1 = h"
      using try_nodes_honest[OF assms(1) hon Cons.prems(3) sub m(1) nin m(2)[unfolded chunks_def], of "elems (chk_Nodes c)"]
      unfolding J1_def available_def chunks_def Cons.prems(2) .
    then obtain s1 where s1: "try_nodes gnet (originalChunkInfo chunks) c (elems (chk_Nodes c)) (fetched parts shards J) s
        = (Inr (fetched parts shards J1), s1)" "inv s1" "holds s1 = h" by blast
    have "J1 = {j. j < Suc m \<and> available h (chunks ! j)}"
      using Cons.prems(6) m(2) by (auto simp: J1_def less_Suc_eq)
    from Cons.IH[OF Cons.prems(1) s1(3,2) _ m(3) this] s1(1) Cons.prems(4) False
    show ?thesis by (simp add: fetched_def)
  qed
qed auto

end

locale download = chunk_net gnet inv holds + file_lib_ok L
  for gnet :: "'w gnet" and inv holds L
begin

lemma reconstruct_block_honest:
  assumes "sealed L C ds ps round plain (block_of M i) shards parts" "rs_new L ds ps" "honest h (block_of M i) shards"
    and "inv s" "holds s = h" "ds = rsc_DataShards (man_ReedSolomonConfig M)" "ps = rsc_ParityShards (man_ReedSolomonConfig M)"
  shows "\<exists>s1. reconstruct_block L C gnet now M i s =
      ((if int (obtainable h (block_of M i)) < ds then Inl (Err ''insufficient data for block'')
        else if round \<le> tl_current L now then Inr plain else Inl (Err ''failed to unlock key with drand'')), s1)
    \<and> inv s1 \<and> holds s1 = h"
proof -
  let ?cs = "elems (blk_Chunks (block_of M i))"
  define A where "A = {j. j < length shards \<and> available h (?cs ! j)}"
  note c = sealed_coded[OF assms(1,2)]
  have n: "length ?cs = length shards" using c(1) by (simp add: coded_def)
  have cardA: "card A = obtainable h (block_of M i)"
    by (simp add: A_def obtainable_def length_filter_conv_card n)
  obtain K s1 where K: "fetch_chunks gnet (originalChunkInfo ?cs) ds ?cs (no_shards (ds + ps)) s = (Inr (fetched parts shards K), s1)"
    "inv s1" "holds s1 = h" "K \<subseteq> A" "ds \<le> int (card K) \<or> K = A"
    using fetch_chunks_honest[OF c(1) assms(3,5,4), of 0 ?cs "{}" ds] n fetched_empty[of parts shards] c(2) by (auto simp: A_def)
  have "finite A" by (simp add: A_def)
  then have "card K \<le> card A" using K(4) card_mono by blast
  then have few: "int (card K) < ds \<longleftrightarrow> int (obtainable h (block_of M i)) < ds" using K(5) cardA by auto
  have "K \<subseteq> {..<length shards}" using K(4) by (auto simp: A_def)
  moreover have "ft_received (fetched parts shards K) = int (card K)" by (simp add: fetched_def)
  moreover have "\<not> ds + ps < 0" using rs_params[OF assms(2)] by simp
  ultimately have "reconstruct_block L C gnet now M i s =
      ((if int (obtainable h (block_of M i)) < ds then Inl (Err ''insufficient data for block'')
        else if round \<le> tl_current L now then Inr plain else Inl (Err ''failed to unlock key with drand'')), s1)"
    using K(1) few open_block_sealed[OF assms(1,2), of K now] assms(6,7)
    by (cases "ds \<le> int (card K)") (simp_all add: reconstruct_block_def Let_def not_less)
  then show ?thesis using K(2,3) by blast
qed

end

subsection \<open>A whole file\<close>

text \<open>
  Every block of the manifest is sealed until \<open>round\<close>, and the nodes serve nothing but its shards. A
  block is ready when enough of its chunks can be had and the round has come.
\<close>

definition sealed_file ::
  "file_lib \<Rightarrow> crypto_lib \<Rightarrow> (bytes \<Rightarrow> bytes \<Rightarrow> bytes option) \<Rightarrow> nat \<Rightarrow> FileManifest \<Rightarrow> bytes list \<Rightarrow> bool" where
  "sealed_file L C h round m plains \<longleftrightarrow> man_Blocks m = int (length plains)
     \<and> rs_new L (rsc_DataShards (man_ReedSolomonConfig m)) (rsc_ParityShards (man_ReedSolomonConfig m))
     \<and> (\<forall>i < length plains. \<exists>shards parts.
          sealed L C (rsc_DataShards (man_ReedSolomonConfig m)) (rsc_ParityShards (man_ReedSolomonConfig m)) round
            (plains ! i) (block_of m (int i)) shards parts
          \<and> honest h (block_of m (int i)) shards)"

definition enough :: "(bytes \<Rightarrow> bytes \<Rightarrow> bytes option) \<Rightarrow> FileManifest \<Rightarrow> nat \<Rightarrow> bool" where
  "enough h m i \<longleftrightarrow> rsc_DataShards (man_ReedSolomonConfig m) \<le> int (obtainable h (block_of m (int i)))"

definition ready ::
  "file_lib \<Rightarrow> (bytes \<Rightarrow> bytes \<Rightarrow> bytes option) \<Rightarrow> nat \<Rightarrow> (int \<Rightarrow> int) \<Rightarrow> FileManifest \<Rightarrow> nat \<Rightarrow> bool" where
  "ready L h round clock m i \<longleftrightarrow> enough h m i \<and> round \<le> tl_current L (clock (int i))"

definition stopped_by ::
  "(bytes \<Rightarrow> bytes \<Rightarrow> bytes option) \<Rightarrow> FileManifest \<Rightarrow> nat \<Rightarrow> fault" where
  "stopped_by h m i = (if enough h m i then Err ''failed to unlock key with drand'' else Err ''insufficient data for block'')"

lemma takeWhile_upt:
  fixes n :: nat and P :: "nat \<Rightarrow> bool"
  defines "d \<equiv> takeWhile P [0..<n]"
  shows "d = [0..<length d]" "length d \<le> n" "list_all P [0..<n] \<longleftrightarrow> length d = n"
proof -
  have t: "d = take (length d) [0..<n]" unfolding d_def by (rule takeWhile_eq_take)
  show le: "length d \<le> n" unfolding d_def using length_takeWhile_le[of P "[0..<n]"] by simp
  then show "d = [0..<length d]" using t by simp
  have "list_all P d" unfolding d_def by (auto simp: list_all_iff dest: set_takeWhileD)
  moreover have "list_all P [0..<n] \<Longrightarrow> d = [0..<n]" unfolding d_def by (simp add: list_all_iff takeWhile_eq_all_conv)
  ultimately show "list_all P [0..<n] \<longleftrightarrow> length d = n"
    using t by (metis diff_zero length_upt order_refl take_all_iff)
qed

context download
begin

lemma reconstruct_blocks_sealed:
  fixes clock :: "int \<Rightarrow> int"
  assumes "sealed_file L C h round m plains"
  defines "is_ready \<equiv> ready L h round clock m"
  shows "inv s \<Longrightarrow> holds s = h \<Longrightarrow> \<forall>j \<in> set js. j < length plains \<Longrightarrow> \<exists>s1.
    reconstruct_blocks L C gnet write_buf clock m (map int js) out s =
      (if list_all is_ready js then None else Some (stopped_by h m (js ! length (takeWhile is_ready js))),
       out @ concat (map (\<lambda>j. plains ! j) (takeWhile is_ready js)), s1) \<and> inv s1 \<and> holds s1 = h"
proof (induction js arbitrary: out s)
  case (Cons j js)
  obtain shards parts where blk: "rs_new L (rsc_DataShards (man_ReedSolomonConfig m)) (rsc_ParityShards (man_ReedSolomonConfig m))"
    "sealed L C (rsc_DataShards (man_ReedSolomonConfig m)) (rsc_ParityShards (man_ReedSolomonConfig m)) round
       (plains ! j) (block_of m (int j)) shards parts" "honest h (block_of m (int j)) shards"
    using assms(1) Cons.prems(3) unfolding sealed_file_def by (metis list.set_intros(1))
  obtain s1 where s1: "reconstruct_block L C gnet (clock (int j)) m (int j) s =
      (if is_ready j then Inr (plains ! j) else Inl (stopped_by h m j), s1)" "inv s1" "holds s1 = h"
    using reconstruct_block_honest[OF blk(2,1,3) Cons.prems(1,2) refl refl, of "clock (int j)"]
    by (auto simp: is_ready_def ready_def enough_def stopped_by_def not_le)
  show ?case
  proof (cases "is_ready j")
    case True
    then show ?thesis
      using Cons.IH[OF s1(2,3), of "out @ plains ! j"] Cons.prems(3) s1(1)
      by (cases "list_all is_ready js") (simp_all add: write_buf_def)
  qed (use s1 in simp)
qed simp

lemma StreamReconstruct_sealed:
  fixes clock :: "int \<Rightarrow> int"
  assumes "sealed_file L C h round m plains" "inv s" "holds s = h" "tl_network L (relay r) DrandChainHash"
  defines "done \<equiv> takeWhile (ready L h round clock m) [0..<length plains]"
  shows "\<exists>s1. StreamReconstruct L C gnet write_buf clock r m out s =
      (if length done = length plains then None else Some (stopped_by h m (length done)),
       out @ concat (take (length done) plains), s1) \<and> inv s1 \<and> holds s1 = h"
proof -
  have n: "nat (man_Blocks m) = length plains" using assms(1) by (simp add: sealed_file_def)
  note pre = takeWhile_upt[of "ready L h round clock m" "length plains", folded done_def]
  have "map (\<lambda>j. plains ! j) done = take (length done) plains"
    using pre(1,2) by (metis map_nth take_map take_upt add_0)
  moreover have "length done < length plains \<Longrightarrow> [0..<length plains] ! length done = length done" by simp
  ultimately show ?thesis
    using reconstruct_blocks_sealed[OF assms(1,2,3), of "[0..<length plains]" clock out] assms(1,4) n pre(2,3)
    by (auto simp: StreamReconstruct_def sealed_file_def done_def split: if_splits)
qed

end

subsection \<open>Nodes that answer anything\<close>

text \<open>
  What the fetching loops keep for any network, that is, for nodes that answer with any chunk at all:
  the key part of every shard with content is there, or the nil part of the zero \<open>Chunk\<close>, which
  stands for the ids that are not in the manifest, is; and there is nothing but these parts.
\<close>

definition parts_taken :: "FileBlock \<Rightarrow> char slice list \<Rightarrow> (char \<times> bytes) list \<Rightarrow> fetch \<Rightarrow> bool" where
  "parts_taken blk shards parts st \<longleftrightarrow> length (ft_shards st) = length shards
     \<and> (\<forall>j < length shards. elems (ft_shards st ! j) \<noteq> []
          \<longrightarrow> ft_keyParts st (fst (parts ! j)) = Some (Some (snd (parts ! j))) \<or> ft_keyParts st (CHR 0x00) = Some None)
     \<and> (\<forall>i x. ft_keyParts st i = Some x \<longrightarrow> i = CHR 0x00 \<and> x = None \<or> (\<exists>v. x = Some v \<and> (i, v) \<in> set parts))"

lemma originalChunkInfo_in: "originalChunkInfo cs k = Some c \<Longrightarrow> c \<in> set cs"
proof -
  have "fold (\<lambda>c m. m(chk_ChunkId c \<mapsto> c)) cs m k = Some c \<Longrightarrow> c \<in> set cs \<or> m k = Some c" for m
    by (induction cs arbitrary: m) (fastforce split: if_splits)+
  from this[of Map.empty] show "originalChunkInfo cs k = Some c \<Longrightarrow> c \<in> set cs" by (simp add: originalChunkInfo_def)
qed

lemma parts_taken_start: "parts_taken blk shards parts (no_shards (int (length shards)))"
  by (simp add: parts_taken_def no_shards_def)

lemma parts_taken_zero:
  assumes "parts_taken blk shards parts st" "CHR 0x00 \<notin> fst ` set parts" "length parts = length shards"
  shows "parts_taken blk shards parts \<lparr>ft_shards = (ft_shards st)[j := x], ft_keyParts = (ft_keyParts st)(CHR 0x00 \<mapsto> None), ft_received = n\<rparr>"
  using assms by (auto simp: parts_taken_def)

lemma parts_taken_chunk:
  assumes "parts_taken blk shards parts st" "CHR 0x00 \<notin> fst ` set parts" "coded blk shards parts" "c \<in> set (elems (blk_Chunks blk))"
  shows "parts_taken blk shards parts \<lparr>ft_shards = (ft_shards st)[nat (chk_ShardIndex c) := x],
    ft_keyParts = (ft_keyParts st)(chk_KeyIndexPart c \<mapsto> chk_KeyPart c), ft_received = n\<rparr>"
proof -
  obtain j where j: "j < length shards" "c = elems (blk_Chunks blk) ! j"
    using assms(3,4) by (auto simp: coded_def in_set_conv_nth)
  have c: "chk_ShardIndex c = int j" "chk_KeyIndexPart c = fst (parts ! j)" "chk_KeyPart c = Some (snd (parts ! j))"
    "length parts = length shards" "distinct (map fst parts)"
    using assms(3) j by (simp_all add: coded_def)
  have in_parts: "parts ! j \<in> set parts" using j(1) c(4) by simp
  then have nz: "fst (parts ! j) \<noteq> CHR 0x00" using assms(2) by (metis image_eqI)
  have other: "fst (parts ! i) \<noteq> fst (parts ! j)" if "i < length shards" "i \<noteq> j" for i
    using that j(1) c(4,5) by (auto simp: distinct_conv_nth)
  show ?thesis
    using assms(1) j(1) c(1-3) in_parts nz other unfolding parts_taken_def by (auto simp: nth_list_update split: if_splits)
qed

lemma try_nodes_parts:
  assumes "CHR 0x00 \<notin> fst ` set parts" "coded blk shards parts"
  shows "parts_taken blk shards parts st \<Longrightarrow> try_nodes gnet (originalChunkInfo (elems (blk_Chunks blk))) meta ns st s = (Inr st1, s1)
    \<Longrightarrow> parts_taken blk shards parts st1"
proof (induction ns arbitrary: s)
  case (Cons a ns)
  obtain x s2 where r: "RequestChunk gnet a (chk_ChunkId meta) s = (x, s2)" by (metis surj_pair)
  show ?case
  proof (cases x)
    case (Inl e)
    then show ?thesis using Cons r by simp
  next
    case (Inr q)
    let ?info = "originalChunkInfo (elems (blk_Chunks blk)) (crq_ChunkId q)"
    have "length parts = length shards" using assms(2) by (simp add: coded_def)
    note zero = parts_taken_zero[OF Cons.prems(1) assms(1) this]
    show ?thesis
    proof (cases ?info)
      case None
      then show ?thesis
        using Cons.IH[OF Cons.prems(1), of s2] Cons.prems(2) r Inr zero[of 0 "crq_Shard q" "ft_received st + 1"]
        by (auto simp: Let_def zero_Chunk_def split: if_splits)
    next
      case (Some c)
      note chunk = parts_taken_chunk[OF Cons.prems(1) assms originalChunkInfo_in[OF Some], of "crq_Shard q" "ft_received st + 1"]
      show ?thesis
        using Cons.IH[OF Cons.prems(1), of s2] Cons.prems(2) r Inr Some chunk
        by (auto simp: Let_def split: if_splits)
    qed
  qed
qed simp

lemma fetch_chunks_parts:
  assumes "CHR 0x00 \<notin> fst ` set parts" "coded blk shards parts"
  shows "parts_taken blk shards parts st \<Longrightarrow> fetch_chunks gnet (originalChunkInfo (elems (blk_Chunks blk))) need cs st s = (Inr st1, s1)
    \<Longrightarrow> parts_taken blk shards parts st1"
proof (induction cs arbitrary: st s)
  case (Cons c cs)
  show ?case
  proof (cases "need \<le> ft_received st")
    case False
    then obtain st2 s2 where t: "try_nodes gnet (originalChunkInfo (elems (blk_Chunks blk))) c (elems (chk_Nodes c)) st s = (Inr st2, s2)"
        "fetch_chunks gnet (originalChunkInfo (elems (blk_Chunks blk))) need cs st2 s2 = (Inr st1, s1)"
      using Cons.prems(2) by (auto split: prod.splits sum.splits)
    show ?thesis by (rule Cons.IH[OF try_nodes_parts[OF assms Cons.prems(1) t(1)] t(2)])
  qed (use Cons.prems in simp)
qed simp

context file_lib_ok
begin

text \<open>
  Shards enough to reconstruct from mean parts enough for the locked key, or a nil part that makes
  \<open>Combine\<close> fail.
\<close>

lemma parts_taken_combines:
  assumes "parts_taken blk shards parts st" "coded blk shards parts" "refuses L" "sh_split L r' ct n ds = Inr parts"
    and "ds \<le> int (length (filter (\<lambda>x. elems x \<noteq> []) (ft_shards st)))"
  shows "(\<exists>e. sh_combine L (ft_keyParts st) = Inl e) \<or> sh_combine L (ft_keyParts st) = Inr ct"
proof (cases "ft_keyParts st (CHR 0x00) = Some None")
  case True
  then show ?thesis using assms(3) unfolding refuses_def by blast
next
  case False
  let ?J = "{j. j < length (ft_shards st) \<and> elems (ft_shards st ! j) \<noteq> []}"
  have zero: "CHR 0x00 \<notin> fst ` set parts" using assms(3,4) unfolding refuses_def by blast
  have p: "distinct (map fst parts)" "length parts = length shards" "length (ft_shards st) = length shards"
    using assms(1,2) by (simp_all add: coded_def parts_taken_def)
  have sub: "ft_keyParts st \<subseteq>\<^sub>m part_map parts"
    unfolding map_le_def
  proof
    fix i assume "i \<in> dom (ft_keyParts st)"
    then obtain x where x: "ft_keyParts st i = Some x" by blast
    then have "i = CHR 0x00 \<and> x = None \<or> (\<exists>v. x = Some v \<and> (i, v) \<in> set parts)"
      using assms(1) unfolding parts_taken_def by blast
    then show "ft_keyParts st i = part_map parts i"
      using False x p(1) by (auto simp: part_map_def map_of_eq_Some_iff)
  qed
  then have "finite (dom (ft_keyParts st))"
    by (rule finite_subset[OF map_le_implies_dom_le]) (simp add: part_map_def finite_dom_map_of dom_map_option_comp[unfolded comp_def])
  moreover have "(\<lambda>j. fst (parts ! j)) ` ?J \<subseteq> dom (ft_keyParts st)"
    using assms(1) False p(3) unfolding parts_taken_def by auto
  moreover have "inj_on (\<lambda>j. fst (parts ! j)) ?J"
    using p by (auto simp: inj_on_def distinct_conv_nth)
  ultimately have "card ?J \<le> card (dom (ft_keyParts st))" by (metis (no_types, lifting) card_image card_mono)
  then have "ds \<le> int (card (dom (ft_keyParts st)))"
    using assms(5) by (simp add: length_filter_conv_card)
  then show ?thesis using sh_recovers[OF assms(4) sub] by simp
qed

lemma open_block_locked:
  assumes "sealed L C ds ps round plain blk shards parts" "rs_new L ds ps" "refuses L" "tl_current L now < round"
    and "parts_taken blk shards parts st"
  shows "\<exists>e. open_block L C now ds ps blk st = Inl e"
proof -
  obtain key r r' ct where s: "tl_encrypt L r key round = Inr ct" "sh_split L r' ct (ds + ps) ds = Inr parts"
    using assms(1) by (auto simp: sealed_def)
  obtain e where locked: "tl_decrypt L now ct = Inl e" using tl_locked[OF s(1) assms(4)] by blast
  note few = assms(3)[unfolded refuses_def, THEN conjunct1, rule_format, of ds ps "ft_shards st"]
  show ?thesis
  proof (cases "int (length (filter (\<lambda>x. elems x \<noteq> []) (ft_shards st))) < ds")
    case True
    then obtain e where "rs_reconstruct L ds ps (ft_shards st) = Inl e" using few assms(2) by blast
    then show ?thesis by (simp add: open_block_def)
  next
    case False
    then have "(\<exists>e. sh_combine L (ft_keyParts st) = Inl e) \<or> sh_combine L (ft_keyParts st) = Inr ct"
      by (intro parts_taken_combines[OF assms(5) sealed_coded(1)[OF assms(1,2)] assms(3) s(2)]) simp
    then have key: "\<exists>e. (case sh_combine L (ft_keyParts st) of Inl _ \<Rightarrow> Inl (Err ''failed to combine Shamir key'')
        | Inr k \<Rightarrow> (case tl_decrypt L now k of Inl _ \<Rightarrow> Inl (Err ''failed to unlock key with drand'') | Inr plain \<Rightarrow> f plain)) = Inl e"
        for f :: "bytes \<Rightarrow> bytes res"
      using locked by (elim disjE exE) simp_all
    show ?thesis
    proof (cases "rs_reconstruct L ds ps (ft_shards st)")
      case (Inr full)
      then show ?thesis
        using key by (cases "rs_join L ds ps full (blk_EncryptedBlockSize blk)") (simp_all add: open_block_def)
    qed (simp add: open_block_def)
  qed
qed

lemma StreamReconstruct_locked:
  fixes clock :: "int \<Rightarrow> int"
  assumes "sealed_file L C h round m plains" "plains \<noteq> []" "refuses L" "tl_current L (clock 0) < round"
  shows "\<exists>e s1. StreamReconstruct L C gnet wr clock r m out s = (Some e, out, s1)"
proof -
  let ?ds = "rsc_DataShards (man_ReedSolomonConfig m)" and ?ps = "rsc_ParityShards (man_ReedSolomonConfig m)"
  have n: "map int [0..<nat (man_Blocks m)] = 0 # map int [1..<length plains]"
    using assms(1,2) by (simp add: sealed_file_def upt_rec)
  have rs: "rs_new L ?ds ?ps" using assms(1) by (simp add: sealed_file_def)
  have "0 < length plains" using assms(2) by simp
  then obtain shards parts where sealed: "sealed L C ?ds ?ps round (plains ! 0) (block_of m (int 0)) shards parts"
    using assms(1) unfolding sealed_file_def by blast
  note coded = sealed_coded[OF sealed rs]
  have zero: "CHR 0x00 \<notin> fst ` set parts"
    using sealed assms(3) unfolding sealed_def refuses_def by blast
  have "\<exists>e s1. reconstruct_block L C gnet (clock 0) m 0 s = (Inl e, s1)"
  proof -
    let ?cs = "elems (blk_Chunks (block_of m 0))"
    obtain f s1 where f: "fetch_chunks gnet (originalChunkInfo ?cs) ?ds ?cs (no_shards (?ds + ?ps)) s = (f, s1)" by (metis surj_pair)
    show ?thesis
    proof (cases f)
      case (Inr st)
      then have "parts_taken (block_of m 0) shards parts st"
        using fetch_chunks_parts[OF zero coded(1)[simplified] parts_taken_start] f coded(2) by simp
      then show ?thesis
        using open_block_locked[OF sealed rs assms(3,4)] f Inr by (auto simp: reconstruct_block_def Let_def)
    qed (use f in \<open>simp add: reconstruct_block_def Let_def\<close>)
  qed
  then show ?thesis by (auto simp: StreamReconstruct_def n)
qed

end

subsection \<open>A concrete file\<close>

text \<open>A store with the given chunks, and the network of one node that has it.\<close>

definition ref_chunks :: "ChunkRequest list \<Rightarrow> (bytes, bytes) RBT.rbt" where
  "ref_chunks reqs = fold (\<lambda>q. RBT.insert (makeKey ns_chunks (crq_ChunkId q)) (served q)) reqs RBT.empty"

lemma ref_chunks_lookup:
  "RBT.lookup (fold (\<lambda>q. RBT.insert (makeKey ns_chunks (crq_ChunkId q)) (served q)) reqs t) (makeKey ns_chunks k)
    = (case map_of (rev (map (\<lambda>q. (crq_ChunkId q, served q)) reqs)) k of Some v \<Rightarrow> Some v | None \<Rightarrow> RBT.lookup t (makeKey ns_chunks k))"
  by (induction reqs arbitrary: t) (auto simp: map_add_def split: option.split)

definition ref_client :: "ChunkRequest list \<Rightarrow> (bytes, bytes) RBT.rbt nodes client" where
  "ref_client reqs = (empty_pool, [''n:1001'' \<mapsto> ref_chunks reqs])"

abbreviation "ref_net \<equiv> node_net (ref_env ''n'' []) (\<lambda>_. False)"
abbreviation "ref_holds \<equiv> node_holds (ref_env ''n'' []) (\<lambda>_. False)"

lemma ref_holds_n1:
  "ref_holds (ref_client reqs) ''n:1'' k
    = (if utf8_ok k then map_of (rev (map (\<lambda>q. (crq_ChunkId q, served q)) reqs)) k else None)"
  by (simp add: node_holds_def ref_client_def ref_grpc_address mem_view ref_chunks_def ref_chunks_lookup split: option.split)

lemma ref_holds_some:
  assumes "ref_holds (ref_client reqs) addr k = Some v"
  shows "\<exists>q \<in> set reqs. crq_ChunkId q = k \<and> v = served q"
proof -
  obtain t where t: "grpc_address addr = Inr t" "t = ''n:1001''"
    using assms by (auto simp: node_holds_def ref_client_def split: sum.splits if_splits)
  then have "ref_holds (ref_client reqs) addr k = ref_holds (ref_client reqs) ''n:1'' k"
    by (simp add: node_holds_def ref_grpc_address)
  then have "map_of (rev (map (\<lambda>q. (crq_ChunkId q, served q)) reqs)) k = Some v"
    using assms by (simp add: ref_holds_n1 split: if_splits)
  then show ?thesis by (auto dest!: map_of_SomeD)
qed

definition ref_encrypted :: bytes where
  "ref_encrypted = replicate 12 CHR ''n'' @ ''data''"

definition ref_locked :: bytes where
  "ref_locked = CHR ''.'' # CHR '':'' # replicate 32 CHR ''k''"

definition ref_chunk_req :: "nat \<Rightarrow> ChunkRequest" where
  "ref_chunk_req j = zero_ChunkRequest\<lparr>crq_ChunkId := [char_of (97 + j)], crq_Shard := Some ref_encrypted\<rparr>"

definition ref_block :: FileBlock where
  "ref_block = \<lparr>blk_EncryptedBlockSize = int (length ref_encrypted),
     blk_Chunks = Some (map (\<lambda>j. \<lparr>chk_ChunkId = [char_of (97 + j)], chk_KeyIndexPart = char_of (j + 1),
        chk_KeyPart = Some ref_locked, chk_ShardIndex = int j, chk_Nodes = Some [''n:1'']\<rparr>) [0..<5])\<rparr>"

definition ref_manifest :: FileManifest where
  "ref_manifest = zero_FileManifest\<lparr>man_Blocks := 1,
     man_ReedSolomonConfig := \<lparr>rsc_DataShards = 3, rsc_ParityShards = 2\<rparr>, man_Split := Some [(0, ref_block)]\<rparr>"

lemma upt5: "[0..<5] = [0, 1, 2, 3, 4::nat]"
  by (simp add: upt_rec)

lemma ref_sealed:
  "sealed ref_libs ref_crypto 3 2 1 ''data'' ref_block (replicate 5 (Some ref_encrypted))
    (map (\<lambda>j. (char_of (j + 1), ref_locked)) [0..<5])"
  unfolding sealed_def
proof (intro exI conjI)
  show "DecryptGCM ref_crypto ref_encrypted (replicate 32 CHR ''k'') = Inr ''data''"
    by (simp add: DecryptGCM_def ref_encrypted_def aes_key_ok_def nonceSize_def ref_crypto_def)
  show "tl_encrypt ref_libs 0 (replicate 32 CHR ''k'') 1 = Inr ref_locked" by (simp add: ref_libs_def ref_locked_def)
  show "sh_split ref_libs 0 ref_locked (3 + 2) 3 = Inr (map (\<lambda>j. (char_of (j + 1), ref_locked)) [0..<5])"
    by (simp add: ref_libs_def ref_locked_def)
  show "rs_code ref_libs 3 2 ref_encrypted (replicate 5 (Some ref_encrypted))"
    by (simp add: rs_code_def ref_libs_def ref_encrypted_def)
qed (simp_all add: ref_block_def ref_encrypted_def upt5 char_of_eq_iff)

abbreviation "ref_file_client \<equiv> ref_client (map ref_chunk_req [0..<3])"

lemma ref_honest: "honest (ref_holds ref_file_client) ref_block (replicate 5 (Some ref_encrypted))"
  unfolding honest_def
proof (intro allI impI)
  fix j addr v
  assume j: "j < length (replicate 5 (Some ref_encrypted))"
    and h: "ref_holds ref_file_client addr (chk_ChunkId (elems (blk_Chunks ref_block) ! j)) = Some v"
  then obtain q where q: "q \<in> set (map ref_chunk_req [0..<3])" "crq_ChunkId q = chk_ChunkId (elems (blk_Chunks ref_block) ! j)" "v = served q"
    using ref_holds_some by blast
  moreover have "ok_ChunkRequest q"
    using q(1) by (auto simp: ref_chunk_req_def ok_ChunkRequest_def zero_ChunkRequest_def in_int64_def upt_rec)
  moreover have "pb_bytes (crq_Shard q) = replicate 5 (Some ref_encrypted) ! j"
    using q(1) j by (auto simp: ref_chunk_req_def pb_bytes_def ref_encrypted_def)
  ultimately show "\<exists>req. v = served req \<and> ok_ChunkRequest req \<and> crq_ChunkId req = chk_ChunkId (elems (blk_Chunks ref_block) ! j)
      \<and> pb_bytes (crq_Shard req) = replicate 5 (Some ref_encrypted) ! j" by blast
qed

lemma ref_obtainable: "obtainable (ref_holds ref_file_client) ref_block = 3"
  by (simp add: obtainable_def available_def ref_block_def upt5 ref_holds_n1 ref_chunk_req_def upt_rec char_of_eq_iff)

lemma ref_sealed_file: "sealed_file ref_libs ref_crypto (ref_holds ref_file_client) 1 ref_manifest [''data'']"
proof -
  have "block_of ref_manifest 0 = ref_block" by (simp add: block_of_def ref_manifest_def)
  then show ?thesis
    using ref_sealed ref_honest by (auto simp: sealed_file_def ref_manifest_def ref_libs_def)
qed

subsection \<open>Properties\<close>

text \<open>
  C4: a download writes exactly the blocks up to the first one that is not ready, in order. It
  succeeds iff all blocks are ready; otherwise it fails with the reason of the first that is not,
  fewer obtainable chunks than data shards or a round that has not come, after the blocks before it
  were already written. Which nodes are missing makes no other difference.
\<close>

theorem StreamReconstruct_exact:
  fixes clock :: "int \<Rightarrow> int"
  assumes "badger_ok (env_bg env)" "file_lib_ok L" "client_ok bad s" "tl_network L (relay r) DrandChainHash"
    and "sealed_file L C (node_holds env bad s) round m plains"
    and "k = length (takeWhile (ready L (node_holds env bad s) round clock m) [0..<length plains])"
  shows "\<exists>s1. StreamReconstruct L C (node_net env bad) write_buf clock r m out s =
    (if k = length plains then None else Some (stopped_by (node_holds env bad s) m k), out @ concat (take k plains), s1)"
proof -
  have "download (node_net env bad) (client_ok bad) (node_holds env bad) L"
    using node_net_laws[OF assms(1)] assms(2) by (simp add: download_def)
  from download.StreamReconstruct_sealed[OF this assms(5,3) refl assms(4), of clock out]
  show ?thesis unfolding assms(6) by blast
qed

theorem StreamReconstruct_exact_witness:
  "\<exists>s1. StreamReconstruct ref_libs ref_crypto ref_net write_buf (\<lambda>_. 60000000000) 0 ref_manifest [] ref_file_client = (None, ''data'', s1)"
proof -
  have e: "enough (ref_holds ref_file_client) ref_manifest 0"
    using ref_obtainable by (simp add: enough_def block_of_def ref_manifest_def)
  then have "ready ref_libs (ref_holds ref_file_client) 1 (\<lambda>_. 60000000000) ref_manifest 0"
    by (simp add: ready_def ref_libs_def)
  then have k: "1 = length (takeWhile (ready ref_libs (ref_holds ref_file_client) 1 (\<lambda>_. 60000000000) ref_manifest) [0..<length [''data'']])"
    by simp
  have "badger_ok (env_bg (ref_env ''n'' []))" using reliable_ok mem_reliable by simp
  from StreamReconstruct_exact[OF this ref_libs.file_lib_ok_axioms _ _ ref_sealed_file k, of 0 "[]"]
  show ?thesis by (simp add: ref_client_def ref_libs_def)
qed

end
