(* ===== verification/File_Seal.thy ===== *)
theory File_Seal
  imports File_Reconstruct "HOL-Library.Multiset"
begin

text \<open>
  The parts of an upload that run alone: cutting the file into blocks, choosing nodes
  (\<open>pickRandomItems\<close>), and what a crypto worker of \<open>StreamAndUploadFile\<close> makes of one block
  (\<open>seal_block\<close>): the entry of the manifest and the jobs for the upload workers. The main lemma says
  that this entry is sealed in the sense of \<open>File_Reconstruct\<close>.
\<close>

subsection \<open>Blocks\<close>

text \<open>
  The reading loop: \<open>io.ReadFull\<close> fills the buffer, or returns what is left with
  \<open>io.ErrUnexpectedEOF\<close>, or nothing with \<open>io.EOF\<close>.
\<close>

function read_blocks :: "nat \<Rightarrow> bytes \<Rightarrow> bytes list" where
  "read_blocks blockSize rest =
     (if rest = [] \<or> blockSize = 0 then []
      else if length rest < blockSize then [rest]
      else take blockSize rest # read_blocks blockSize (drop blockSize rest))"
  by pat_completeness auto
termination by (relation "measure (length \<circ> snd)") auto

declare read_blocks.simps [simp del]

lemma concat_read_blocks: "0 < b \<Longrightarrow> concat (read_blocks b f) = f"
proof (induction b f rule: read_blocks.induct)
  case (1 b f)
  then show ?case by (subst read_blocks.simps) auto
qed

lemma length_read_blocks: "0 < b \<Longrightarrow> length (read_blocks b f) = (length f + b - 1) div b"
proof (induction b f rule: read_blocks.induct)
  case (1 b f)
  consider "f = []" | "f \<noteq> []" "length f < b" | "f \<noteq> []" "b \<le> length f" by linarith
  then show ?case
  proof cases
    case 2
    then have "(length f + b - 1) div b = 1"
      using 1(2) by (cases f) (auto intro!: div_nat_eqI)
    then show ?thesis using 2 by (subst read_blocks.simps) auto
  next
    case 3
    then have "length f + b - 1 = (length f - b + b - 1) + b" using 1(2) by linarith
    then have "(length f + b - 1) div b = (length f - b + b - 1) div b + 1" using 1(2) by (metis div_add_self2 less_irrefl)
    then show ?thesis using 3 1 by (subst read_blocks.simps) auto
  qed (use 1(2) in \<open>simp add: read_blocks.simps\<close>)
qed

lemma read_blocks_nonempty: "x \<in> set (read_blocks b f) \<Longrightarrow> x \<noteq> []"
proof (induction b f rule: read_blocks.induct)
  case (1 b f)
  then show ?case by (subst (asm) (2) read_blocks.simps) (auto split: if_splits)
qed

subsection \<open>Choosing nodes\<close>

text \<open>The \<open>i\<close>-th draw is \<open>draw i\<close>; the list shrinks by moving its last element into the hole.\<close>

fun pick_items :: "(nat \<Rightarrow> nat) \<Rightarrow> nat \<Rightarrow> nat \<Rightarrow> 'a list \<Rightarrow> 'a list \<Rightarrow> 'a list" where
  "pick_items draw i 0 lst selected = selected"
| "pick_items draw i (Suc n) lst selected =
     (let randomIndex = draw i mod length lst
      in pick_items draw (Suc i) n (butlast (lst[randomIndex := last lst])) (selected @ [lst ! randomIndex]))"

definition pickRandomItems :: "(nat \<Rightarrow> nat) \<Rightarrow> 'a list \<Rightarrow> int \<Rightarrow> 'a list res" where
  "pickRandomItems draw originalList n =
     (if n < 0 then Inl (Panic ''makeslice: cap out of range'')
      else Inr (pick_items draw 0 (min (nat n) (length originalList)) originalList []))"

lemma swap_out:
  assumes "k < length xs"
  shows "mset xs = add_mset (xs ! k) (mset (butlast (xs[k := last xs])))"
proof (cases "k = length xs - 1")
  case True
  then have "xs[k := last xs] = xs" using assms by (metis last_conv_nth length_greater_0_conv less_zeroE list_update_id neq0_conv)
  moreover have "xs = butlast xs @ [xs ! k]"
    using True assms by (metis append_butlast_last_id last_conv_nth list.size(3) not_less_zero)
  then have "mset xs = add_mset (xs ! k) (mset (butlast xs))"
    by (metis add_mset_add_single mset.simps(1) mset.simps(2) mset_append)
  ultimately show ?thesis by simp
next
  case False
  have ne: "xs \<noteq> []" using assms by auto
  have b: "butlast (xs[k := last xs]) = (butlast xs)[k := last xs]"
    using False assms by (simp add: butlast_list_update)
  have k: "k < length (butlast xs)" using assms False by simp
  have "mset xs = add_mset (last xs) (mset (butlast xs))"
    using ne by (metis append_butlast_last_id add_mset_add_single mset.simps mset_append)
  moreover have "xs ! k \<in># mset (butlast xs)" using k by (metis nth_butlast nth_mem_mset)
  moreover have "mset ((butlast xs)[k := last xs]) = add_mset (last xs) (mset (butlast xs) - {#xs ! k#})"
    using k by (simp add: mset_update nth_butlast)
  ultimately show ?thesis unfolding b by (simp add: add_mset_commute)
qed

lemma pick_items_mset:
  "n \<le> length lst \<Longrightarrow> length (pick_items draw i n lst sel) = length sel + n
    \<and> mset (pick_items draw i n lst sel) \<subseteq># mset sel + mset lst"
proof (induction n arbitrary: i lst sel)
  case (Suc n)
  define k where "k = draw i mod length lst"
  have "0 < length lst" using Suc.prems by linarith
  then have k: "k < length lst" by (simp only: k_def mod_less_divisor)
  show ?case
    using Suc.IH[of "butlast (lst[k := last lst])" "Suc i" "sel @ [lst ! k]"] Suc.prems swap_out[OF k]
    by (simp add: k_def[symmetric] Let_def)
qed simp

lemma pickRandomItems_props:
  assumes "pickRandomItems draw xs n = Inr ys"
  shows "length ys = min (nat n) (length xs)" "mset ys \<subseteq># mset xs"
  using assms pick_items_mset[of "min (nat n) (length xs)" xs draw 0 "[]"]
  by (auto simp: pickRandomItems_def split: if_splits)

subsection \<open>One block\<close>

text \<open>
  The random choices a crypto worker makes for a block, and what all workers of an upload share.
  Chunk ids are numbered: \<open>ul_uuid k\<close> is the \<open>k\<close>-th id that is generated. The key file is read again
  for each signature; \<open>ul_reads\<close> are the read errors that can occur, with \<open>\<lambda>_. None\<close> for none.
\<close>

record choices =
  cc_key :: "nat \<Rightarrow> bytes"
  cc_lock :: nat
  cc_nonce :: "nat \<Rightarrow> bytes res"
  cc_share :: nat
  cc_pick :: "nat \<Rightarrow> nat \<Rightarrow> nat"
  cc_now :: int

record upload =
  ul_libs :: file_lib
  ul_fileId :: bytes
  ul_releaseTime :: bytes
  ul_round :: nat
  ul_nodes :: "bytes list"
  ul_uuid :: "nat \<Rightarrow> bytes"
  ul_reads :: "(bytes \<Rightarrow> string option) set"

type_synonym upload_job = "ChunkRequest \<times> bytes list"

definition chunk_request :: "'e env \<Rightarrow> upload \<Rightarrow> int \<Rightarrow> bytes \<Rightarrow> char slice \<Rightarrow> ChunkRequest" where
  "chunk_request env U createdAt chunkId payload =
     \<lparr>crq_Address = self_address (env_cfg env), crq_PublicKey = cfg_PublicKey (env_cfg env), crq_Signature = None,
      crq_ChunkId = chunkId, crq_FileId = ul_fileId U, crq_CreatedAt = createdAt,
      crq_Shard = Some (elems payload), crq_ReleaseDate = ul_releaseTime U\<rparr>"

text \<open>The loop over the shards: an index past the shards or the parts of the key panics.\<close>

fun make_chunks ::
  "'e env \<Rightarrow> upload \<Rightarrow> choices \<Rightarrow> nat \<Rightarrow> char slice list \<Rightarrow> (char \<times> bytes) list \<Rightarrow> nat list
    \<Rightarrow> (Chunk \<times> upload_job) list res" where
  "make_chunks env U c k dataChunks keyParts [] = Inr []"
| "make_chunks env U c k dataChunks keyParts (j # js) =
     (if length dataChunks \<le> j \<or> length keyParts \<le> j then Inl (Panic ''index out of range'')
      else (case pickRandomItems (cc_pick c j) (ul_nodes U) ChunksTolerance of
          Inl e \<Rightarrow> Inl e
        | Inr selectedNodes \<Rightarrow>
            (let (currentIndex, rawKeyPart) = keyParts ! j;
                 chunkId = ul_uuid U (k + j);
                 chunkMeta = \<lparr>chk_ChunkId = chunkId, chk_KeyIndexPart = currentIndex, chk_KeyPart = Some rawKeyPart,
                    chk_ShardIndex = int j, chk_Nodes = Some selectedNodes\<rparr>;
                 job = (chunk_request env U (cc_now c) chunkId (dataChunks ! j), selectedNodes)
             in case make_chunks env U c k dataChunks keyParts js of
                  Inl e \<Rightarrow> Inl e
                | Inr rest \<Rightarrow> Inr ((chunkMeta, job) # rest))))"

definition lift_err :: "string + 'a \<Rightarrow> 'a res" where
  "lift_err r = (case r of Inl e \<Rightarrow> Inl (Err e) | Inr x \<Rightarrow> Inr x)"

definition res_bind :: "'a res \<Rightarrow> ('a \<Rightarrow> 'b res) \<Rightarrow> 'b res" where
  "res_bind r f = (case r of Inl e \<Rightarrow> Inl e | Inr x \<Rightarrow> f x)"

definition seal_block ::
  "'e env \<Rightarrow> upload \<Rightarrow> choices \<Rightarrow> nat \<Rightarrow> bytes \<Rightarrow> (FileBlock \<times> upload_job list) res" where
  "seal_block env U c k data =
     (let L = ul_libs U; key = GenerateRandomAESKey (cc_key c) in
      res_bind (lift_err (tl_encrypt L (cc_lock c) key (ul_round U))) (\<lambda>encryptedKey.
      res_bind (EncryptGCM (env_C env) (cc_nonce c) data key) (\<lambda>encryptedBlock.
      res_bind (lift_err (rs_split L DataShards ParityShards encryptedBlock)) (\<lambda>chunks.
      res_bind (lift_err (rs_encode L DataShards ParityShards chunks)) (\<lambda>dataChunks.
      res_bind (lift_err (sh_split L (cc_share c) encryptedKey TotalShards DataShards)) (\<lambda>keyParts.
      res_bind (make_chunks env U c k dataChunks keyParts [0..<nat TotalShards]) (\<lambda>made.
      Inr (\<lparr>blk_EncryptedBlockSize = int (length encryptedBlock), blk_Chunks = Some (map fst made)\<rparr>,
           map snd made))))))))"

lemma res_bind_Inr: "res_bind r f = Inr y \<longleftrightarrow> (\<exists>x. r = Inr x \<and> f x = Inr y)"
  by (auto simp: res_bind_def split: sum.split)

lemma res_bind_Inl: "res_bind r f = Inl e \<longleftrightarrow> r = Inl e \<or> (\<exists>x. r = Inr x \<and> f x = Inl e)"
  by (auto simp: res_bind_def split: sum.split)

lemma lift_err_Inl: "lift_err r = Inl e \<longleftrightarrow> (\<exists>m. r = Inl m \<and> e = Err m)"
  by (auto simp: lift_err_def split: sum.split)

lemma lift_err_Inr: "lift_err r = Inr x \<longleftrightarrow> r = Inr x"
  by (auto simp: lift_err_def split: sum.split)

lemma make_chunks_nth:
  assumes "make_chunks env U c k dataChunks keyParts js = Inr made"
  shows "length made = length js \<and> (\<forall>i < length js. js ! i < length dataChunks \<and> js ! i < length keyParts
    \<and> (\<exists>ns. pickRandomItems (cc_pick c (js ! i)) (ul_nodes U) ChunksTolerance = Inr ns
        \<and> made ! i = (\<lparr>chk_ChunkId = ul_uuid U (k + js ! i), chk_KeyIndexPart = fst (keyParts ! (js ! i)),
              chk_KeyPart = Some (snd (keyParts ! (js ! i))), chk_ShardIndex = int (js ! i), chk_Nodes = Some ns\<rparr>,
            (chunk_request env U (cc_now c) (ul_uuid U (k + js ! i)) (dataChunks ! (js ! i)), ns))))"
  using assms
proof (induction js arbitrary: made)
  case (Cons j js)
  then show ?case
    by (auto simp: Let_def case_prod_beta nth_Cons split: if_splits sum.splits nat.split)
qed simp

lemma make_chunks_works:
  assumes "\<forall>j \<in> set js. j < length dataChunks \<and> j < length keyParts"
  shows "\<exists>made. make_chunks env U c k dataChunks keyParts js = Inr made"
  using assms
proof (induction js)
  case (Cons j js)
  moreover have "\<exists>ns. pickRandomItems (cc_pick c j) (ul_nodes U) ChunksTolerance = Inr ns"
    by (simp add: pickRandomItems_def ChunksTolerance_def)
  ultimately show ?case by (auto simp: case_prod_beta Let_def)
qed simp

text \<open>What the random choices must look like: \<open>crypto/rand\<close> gives the bytes asked for and, as of Go 1.24,
  never fails; the time is a Unix time.\<close>

definition fair :: "choices \<Rightarrow> bool" where
  "fair c \<longleftrightarrow> (\<forall>n. length (cc_key c n) = n) \<and> (\<forall>n. \<exists>b. cc_nonce c n = Inr b \<and> length b = n) \<and> in_int64 (cc_now c)"

text \<open>
  The job of a chunk carries the shard that the manifest refers to, under the same id, for the
  nodes that the manifest names.
\<close>

definition job_of :: "'e env \<Rightarrow> upload \<Rightarrow> Chunk \<Rightarrow> char slice \<Rightarrow> upload_job \<Rightarrow> bool" where
  "job_of env U ch shard job \<longleftrightarrow> (\<exists>t. in_int64 t \<and> fst job = chunk_request env U t (chk_ChunkId ch) shard)
     \<and> chk_Nodes ch = Some (snd job) \<and> length (snd job) = min 3 (length (ul_nodes U)) \<and> set (snd job) \<subseteq> set (ul_nodes U)"

text \<open>The encrypted block is the nonce and what GCM makes of the data.\<close>

definition sealed_size :: "crypto_lib \<Rightarrow> bytes \<Rightarrow> FileBlock \<Rightarrow> bool" where
  "sealed_size C data blk \<longleftrightarrow> (\<exists>key nonce. length nonce = nonceSize
     \<and> blk_EncryptedBlockSize blk = int (length (nonce @ gcm_seal C key nonce data)))"

lemma EncryptGCM_size: "EncryptGCM C r data key = Inr enc \<Longrightarrow> \<forall>n. \<exists>b. r n = Inr b \<and> length b = n
    \<Longrightarrow> \<exists>nonce. length nonce = nonceSize \<and> enc = nonce @ gcm_seal C key nonce data"
  by (drule spec[of _ nonceSize]) (auto simp: EncryptGCM_def split: if_splits)

lemma total_shards: "[0..<nat TotalShards] = [0..<5]" "TotalShards = 5"
  by (simp_all add: config_consts)

lemma seal_block_sealed:
  assumes "file_lib_ok (ul_libs U)" "crypto_ok (env_C env)" "rs_new (ul_libs U) DataShards ParityShards"
    and "inj (ul_uuid U)" "fair c" "seal_block env U c k data = Inr (blk, jobs)"
  shows "\<exists>shards parts. sealed (ul_libs U) (env_C env) DataShards ParityShards (ul_round U) data blk shards parts
    \<and> length shards = 5 \<and> map chk_ChunkId (elems (blk_Chunks blk)) = map (\<lambda>j. ul_uuid U (k + j)) [0..<5]
    \<and> length jobs = 5 \<and> (\<forall>j < 5. job_of env U (elems (blk_Chunks blk) ! j) (shards ! j) (jobs ! j))
    \<and> sealed_size (env_C env) data blk"
proof -
  let ?L = "ul_libs U" and ?key = "GenerateRandomAESKey (cc_key c)"
  obtain ct enc chunks shards parts made where s:
    "tl_encrypt ?L (cc_lock c) ?key (ul_round U) = Inr ct" "EncryptGCM (env_C env) (cc_nonce c) data ?key = Inr enc"
    "rs_split ?L DataShards ParityShards enc = Inr chunks" "rs_encode ?L DataShards ParityShards chunks = Inr shards"
    "sh_split ?L (cc_share c) ct TotalShards DataShards = Inr parts"
    "make_chunks env U c k shards parts [0..<5] = Inr made"
    "blk = \<lparr>blk_EncryptedBlockSize = int (length enc), blk_Chunks = Some (map fst made)\<rparr>" "jobs = map snd made"
    using assms(6) by (auto simp: seal_block_def res_bind_Inr lift_err_Inr Let_def total_shards)
  have code: "rs_code ?L DataShards ParityShards enc shards" using s(3,4) by (simp add: rs_code_def)
  have n: "length shards = 5" "length parts = 5" "distinct (map fst parts)"
    using file_lib_ok.rs_shards[OF assms(1,3) code] file_lib_ok.sh_parts[OF assms(1) s(5)] by (auto simp: config_consts)
  have m: "length made = 5" "\<forall>j < 5. \<exists>ns. pickRandomItems (cc_pick c j) (ul_nodes U) ChunksTolerance = Inr ns
        \<and> made ! j = (\<lparr>chk_ChunkId = ul_uuid U (k + j), chk_KeyIndexPart = fst (parts ! j),
              chk_KeyPart = Some (snd (parts ! j)), chk_ShardIndex = int j, chk_Nodes = Some ns\<rparr>,
            (chunk_request env U (cc_now c) (ul_uuid U (k + j)) (shards ! j), ns))"
    using make_chunks_nth[OF s(6)] by auto
  have gcm: "DecryptGCM (env_C env) enc ?key = Inr data"
  proof -
    show ?thesis
      using s(2) crypto_ok.gcm[OF assms(2)] assms(5)[unfolded fair_def, THEN conjunct2, THEN conjunct1, THEN spec, of nonceSize]
      by (auto simp: EncryptGCM_def DecryptGCM_def split: if_splits)
  qed
  have ids: "map chk_ChunkId (elems (blk_Chunks blk)) = map (\<lambda>j. ul_uuid U (k + j)) [0..<5]"
    using m by (intro nth_equalityI) (auto simp: s(7))
  have "sealed ?L (env_C env) DataShards ParityShards (ul_round U) data blk shards parts"
    unfolding sealed_def
  proof (intro exI conjI)
    show "DecryptGCM (env_C env) enc ?key = Inr data" by (rule gcm)
    show "tl_encrypt ?L (cc_lock c) ?key (ul_round U) = Inr ct" by (rule s(1))
    show "sh_split ?L (cc_share c) ct (DataShards + ParityShards) DataShards = Inr parts"
      using s(5) by (simp add: TotalShards_def)
    show "map chk_ShardIndex (elems (blk_Chunks blk)) = map int [0..<length shards]"
      using m by (intro nth_equalityI) (auto simp: s(7) n)
    show "map (\<lambda>c. (chk_KeyIndexPart c, chk_KeyPart c)) (elems (blk_Chunks blk)) = map (\<lambda>(k, v). (k, Some v)) parts"
      using m by (intro nth_equalityI) (auto simp: s(7) n case_prod_beta)
    show "distinct (map chk_ChunkId (elems (blk_Chunks blk)))"
    proof -
      have "inj_on (\<lambda>j. ul_uuid U (k + j)) {0..<5}"
        by (rule inj_onI) (drule injD[OF assms(4)], simp)
      then show ?thesis unfolding ids by (simp add: distinct_map)
    qed
  qed (use code s(7) in simp_all)
  moreover have "job_of env U (elems (blk_Chunks blk) ! j) (shards ! j) (jobs ! j)" if "j < 5" for j
  proof -
    obtain ns where ns: "pickRandomItems (cc_pick c j) (ul_nodes U) ChunksTolerance = Inr ns"
      "made ! j = (\<lparr>chk_ChunkId = ul_uuid U (k + j), chk_KeyIndexPart = fst (parts ! j),
              chk_KeyPart = Some (snd (parts ! j)), chk_ShardIndex = int j, chk_Nodes = Some ns\<rparr>,
            (chunk_request env U (cc_now c) (ul_uuid U (k + j)) (shards ! j), ns))"
      using m(2)[rule_format, OF \<open>j < 5\<close>] by blast
    have "set ns \<subseteq> set (ul_nodes U)" "length ns = min 3 (length (ul_nodes U))"
      using pickRandomItems_props[OF ns(1)] set_mset_mono[of "mset ns" "mset (ul_nodes U)"] by (simp_all add: ChunksTolerance_def)
    then show ?thesis using ns(2) m(1) that assms(5) by (auto simp: job_of_def s(7,8) fair_def)
  qed
  moreover have "sealed_size (env_C env) data blk"
  proof -
    obtain nonce where "length nonce = nonceSize" "enc = nonce @ gcm_seal (env_C env) ?key nonce data"
      using EncryptGCM_size[OF s(2)] assms(5) by (auto simp: fair_def)
    then show ?thesis unfolding sealed_size_def by (metis FileBlock.select_convs(1) s(7))
  qed
  ultimately show ?thesis using n ids m(1) s(8) by auto
qed

lemma fairD:
  assumes "fair c"
  shows "length (GenerateRandomAESKey (cc_key c)) = 32" "\<exists>nonce. cc_nonce c nonceSize = Inr nonce \<and> length nonce = nonceSize"
  using assms by (auto simp: fair_def GenerateRandomAESKey_def)

text \<open>With packages that work there is nothing that can fail.\<close>

lemma seal_block_works:
  assumes "file_lib_ok (ul_libs U)" "rs_new (ul_libs U) DataShards ParityShards" "fair c"
    and "\<And>r key. \<exists>ct. tl_encrypt (ul_libs U) r key (ul_round U) = Inr ct"
  shows "\<exists>blk jobs. seal_block env U c k data = Inr (blk, jobs)"
proof -
  let ?L = "ul_libs U" and ?key = "GenerateRandomAESKey (cc_key c)"
  obtain ct where ct: "tl_encrypt ?L (cc_lock c) ?key (ul_round U) = Inr ct" using assms(4) by blast
  obtain nonce where nonce: "cc_nonce c nonceSize = Inr nonce" "length nonce = nonceSize" using fairD(2)[OF assms(3)] by blast
  define enc where "enc = nonce @ gcm_seal (env_C env) ?key nonce data"
  have enc: "EncryptGCM (env_C env) (cc_nonce c) data ?key = Inr enc" "enc \<noteq> []"
    using nonce fairD(1)[OF assms(3)] by (auto simp: EncryptGCM_def aes_key_ok_def enc_def nonceSize_def)
  obtain shards where shards: "rs_code ?L DataShards ParityShards enc shards"
    using file_lib_ok.rs_works[OF assms(1,2) enc(2)] by blast
  then obtain chunks where chunks: "rs_split ?L DataShards ParityShards enc = Inr chunks" "rs_encode ?L DataShards ParityShards chunks = Inr shards"
    by (auto simp: rs_code_def split: sum.splits)
  obtain parts where parts: "sh_split ?L (cc_share c) ct TotalShards DataShards = Inr parts"
    using file_lib_ok.sh_works[OF assms(1) file_lib_ok.tl_nonempty[OF assms(1) ct], of DataShards TotalShards] by (auto simp: config_consts)
  have n: "length shards = 5" "length parts = 5"
    using file_lib_ok.rs_shards[OF assms(1,2) shards] file_lib_ok.sh_parts[OF assms(1) parts] by (auto simp: config_consts)
  obtain made where "make_chunks env U c k shards parts [0..<5] = Inr made"
    using make_chunks_works[of "[0..<5]" shards parts env U c k] n by auto
  then show ?thesis
    using ct enc(1) chunks parts by (simp add: seal_block_def res_bind_def lift_err_def Let_def total_shards)
qed

lemma seal_block_errors:
  assumes "file_lib_ok (ul_libs U)" "rs_new (ul_libs U) DataShards ParityShards" "fair c"
  shows "seal_block env U c k data \<noteq> Inl (Panic p)"
proof
  let ?L = "ul_libs U" and ?key = "GenerateRandomAESKey (cc_key c)"
  assume "seal_block env U c k data = Inl (Panic p)"
  then consider "EncryptGCM (env_C env) (cc_nonce c) data ?key = Inl (Panic p)"
    | ct enc chunks shards parts where "rs_split ?L DataShards ParityShards enc = Inr chunks"
      "rs_encode ?L DataShards ParityShards chunks = Inr shards" "sh_split ?L (cc_share c) ct TotalShards DataShards = Inr parts"
      "make_chunks env U c k shards parts [0..<5] = Inl (Panic p)"
    by (auto simp: seal_block_def res_bind_Inl lift_err_Inl lift_err_Inr Let_def total_shards)
  then show False
  proof cases
    case 1
    then show False using assms(3)[unfolded fair_def, THEN conjunct2, THEN conjunct1, THEN spec, of nonceSize]
      by (auto simp: EncryptGCM_def split: if_splits)
  next
    case 2
    have "rs_code ?L DataShards ParityShards enc shards" using 2(1,2) by (simp add: rs_code_def)
    then have "length shards = 5" "length parts = 5"
      using file_lib_ok.rs_shards[OF assms(1,2)] file_lib_ok.sh_parts[OF assms(1) 2(3)] by (fastforce simp: config_consts)+
    then show False using make_chunks_works[of "[0..<5]" shards parts env U c k] 2(4) by auto
  qed
qed

subsection \<open>Properties\<close>

text \<open>
  \<open>pickRandomItems\<close> returns, for any draws, as many items as are asked for or all there are, none
  more often than the list has it.
\<close>

theorem pickRandomItems_selects:
  assumes "0 \<le> n"
  shows "\<exists>ys. pickRandomItems draw xs n = Inr ys \<and> length ys = min (nat n) (length xs) \<and> mset ys \<subseteq># mset xs
    \<and> (distinct xs \<longrightarrow> distinct ys)"
proof -
  obtain ys where ys: "pickRandomItems draw xs n = Inr ys" using assms by (simp add: pickRandomItems_def)
  obtain zs where "mset xs = mset (ys @ zs)"
    using pickRandomItems_props(2)[OF ys] by (metis ex_mset mset_append subset_mset.add_diff_inverse)
  then have "distinct ys" if "distinct xs"
    using that mset_eq_imp_distinct_iff by fastforce
  then show ?thesis using pickRandomItems_props[OF ys] ys by blast
qed

theorem pickRandomItems_selects_witness:
  "\<exists>ys. pickRandomItems (\<lambda>i. i) [''a'', ''b''] 3 = Inr ys \<and> length ys = 2 \<and> distinct ys"
  using pickRandomItems_selects[of 3 "\<lambda>i. i" "[''a'', ''b'']"] by auto

end
