(* ===== verification/Upload_Pipeline.thy ===== *)
theory Upload_Pipeline
  imports File_Seal
begin

text \<open>
  The concurrent part of \<open>StreamAndUploadFile\<close>: the reader, the crypto workers and the upload workers
  with the two channels between them, the error channel, the map of successful uploads and the
  manifest. The state is a record, the workers take turns in any order: \<open>pipe_step\<close> has one rule per
  thing that a goroutine can do next; a send waits for room in its channel, as Go's buffered channels
  do. The theorems are about all runs: they end, no run gets stuck before the end, and
  (\<open>Upload_Result\<close>) at the end every block of the file is in the manifest with its chunks on the nodes
  that the manifest names.
\<close>

subsection \<open>State\<close>

datatype crypto_worker = CIdle | CPush nat FileBlock "upload_job list" | CStopped
datatype upload_worker = UIdle | UTry ChunkRequest "bytes list"
datatype phase = Reading | Draining | Uploading | Joined | ReadFailed | Crashed

text \<open>
  \<open>pp_input\<close> is what the reader will still get from the file: blocks, or a read error. \<open>pp_ids\<close>
  counts the chunk ids; the phase is where the main goroutine is.
\<close>

record 'w pipe =
  pp_phase :: phase
  pp_input :: "(string + bytes) list"
  pp_next :: nat
  pp_cryptoJobs :: "(nat \<times> bytes) list"
  pp_crypto :: "crypto_worker list"
  pp_uploadJobs :: "upload_job list"
  pp_upload :: "upload_worker list"
  pp_err :: "fault option"
  pp_success :: "bytes \<Rightarrow> bytes option"
  pp_split :: "(int \<times> FileBlock) list"
  pp_ids :: nat
  pp_client :: "'w client"

definition cryptoCap :: nat where "cryptoCap = nat (TotalShards * 2)"
definition uploadCap :: nat where "uploadCap = nat (TotalShards * 4)"

text \<open>\<open>select { case errChan <- err: default: }\<close> on a channel with room for one error.\<close>

definition report :: "fault \<Rightarrow> 'w pipe \<Rightarrow> 'w pipe" where
  "report e s = (if pp_err s = None then s\<lparr>pp_err := Some e\<rparr> else s)"

text \<open>A crypto worker that gets no Reed-Solomon coder reports that and returns.\<close>

definition start_pipe :: "upload \<Rightarrow> nat \<Rightarrow> nat \<Rightarrow> (string + bytes) list \<Rightarrow> 'w client \<Rightarrow> 'w pipe" where
  "start_pipe U cryptoWorkerCount uploadWorkerCount input client =
     (let rs = rs_new (ul_libs U) DataShards ParityShards in
      \<lparr>pp_phase = Reading, pp_input = input, pp_next = 0, pp_cryptoJobs = [],
       pp_crypto = replicate cryptoWorkerCount (if rs then CIdle else CStopped),
       pp_uploadJobs = [], pp_upload = replicate uploadWorkerCount UIdle,
       pp_err = (if rs \<or> cryptoWorkerCount = 0 then None else Some (Err ''rs error'')),
       pp_success = Map.empty, pp_split = [], pp_ids = 0, pp_client = client\<rparr>)"

definition sign_with :: "'e env \<Rightarrow> (bytes \<Rightarrow> string option) \<Rightarrow> bytes \<Rightarrow> bytes res" where
  "sign_with env re m = SignMessage (env_C env) (env_cfg env) ((env_disk env)\<lparr>dsk_read_err := re\<rparr>) m"

definition saved :: "string + ChunkResponse \<Rightarrow> bool" where
  "saved r = (case r of Inl _ \<Rightarrow> False | Inr rsp \<Rightarrow> rpc_Success rsp)"

subsection \<open>Steps\<close>

inductive pipe_step :: "'e env \<Rightarrow> upload \<Rightarrow> 'w gnet \<Rightarrow> 'w pipe \<Rightarrow> 'w pipe \<Rightarrow> bool" for env U gnet where
  read: "pp_phase s = Reading \<Longrightarrow> pp_input s = Inr b # rest \<Longrightarrow> length (pp_cryptoJobs s) < cryptoCap \<Longrightarrow>
    pipe_step env U gnet s (s\<lparr>pp_input := rest, pp_next := Suc (pp_next s), pp_cryptoJobs := pp_cryptoJobs s @ [(pp_next s, b)]\<rparr>)"
| read_error: "pp_phase s = Reading \<Longrightarrow> pp_input s = Inl e # rest \<Longrightarrow>
    pipe_step env U gnet s (s\<lparr>pp_phase := ReadFailed\<rparr>)"
| read_end: "pp_phase s = Reading \<Longrightarrow> pp_input s = [] \<Longrightarrow>
    pipe_step env U gnet s (s\<lparr>pp_phase := Draining\<rparr>)"
| crypto_joined: "pp_phase s = Draining \<Longrightarrow>
    (\<forall>w \<in> set (pp_crypto s). w = CStopped \<or> w = CIdle \<and> pp_cryptoJobs s = []) \<Longrightarrow>
    pipe_step env U gnet s (s\<lparr>pp_phase := Uploading\<rparr>)"
| upload_joined: "pp_phase s = Uploading \<Longrightarrow> (\<forall>w \<in> set (pp_upload s). w = UIdle \<and> pp_uploadJobs s = []) \<Longrightarrow>
    pipe_step env U gnet s (s\<lparr>pp_phase := Joined\<rparr>)"
| crypto_take: "pp_phase s \<noteq> Crashed \<Longrightarrow> i < length (pp_crypto s) \<Longrightarrow> pp_crypto s ! i = CIdle \<Longrightarrow>
    pp_cryptoJobs s = (b, data) # rest \<Longrightarrow> fair c \<Longrightarrow> seal_block env U c (pp_ids s) data = Inr (blk, jobs) \<Longrightarrow>
    pipe_step env U gnet s (s\<lparr>pp_cryptoJobs := rest, pp_ids := pp_ids s + 5, pp_crypto := (pp_crypto s)[i := CPush b blk jobs]\<rparr>)"
| crypto_error: "pp_phase s \<noteq> Crashed \<Longrightarrow> i < length (pp_crypto s) \<Longrightarrow> pp_crypto s ! i = CIdle \<Longrightarrow>
    pp_cryptoJobs s = (b, data) # rest \<Longrightarrow> fair c \<Longrightarrow> seal_block env U c (pp_ids s) data = Inl (Err e) \<Longrightarrow>
    pipe_step env U gnet s (report (Err e) (s\<lparr>pp_cryptoJobs := rest, pp_ids := pp_ids s + 5\<rparr>))"
| crypto_panic: "pp_phase s \<noteq> Crashed \<Longrightarrow> i < length (pp_crypto s) \<Longrightarrow> pp_crypto s ! i = CIdle \<Longrightarrow>
    pp_cryptoJobs s = (b, data) # rest \<Longrightarrow> fair c \<Longrightarrow> seal_block env U c (pp_ids s) data = Inl (Panic e) \<Longrightarrow>
    pipe_step env U gnet s (s\<lparr>pp_phase := Crashed\<rparr>)"
| crypto_push: "pp_phase s \<noteq> Crashed \<Longrightarrow> i < length (pp_crypto s) \<Longrightarrow> pp_crypto s ! i = CPush b blk (job # jobs) \<Longrightarrow>
    length (pp_uploadJobs s) < uploadCap \<Longrightarrow>
    pipe_step env U gnet s (s\<lparr>pp_uploadJobs := pp_uploadJobs s @ [job], pp_crypto := (pp_crypto s)[i := CPush b blk jobs]\<rparr>)"
| crypto_store: "pp_phase s \<noteq> Crashed \<Longrightarrow> i < length (pp_crypto s) \<Longrightarrow> pp_crypto s ! i = CPush b blk [] \<Longrightarrow>
    pipe_step env U gnet s (s\<lparr>pp_split := gm_put (int b) blk (pp_split s), pp_crypto := (pp_crypto s)[i := CIdle]\<rparr>)"
| upload_take: "pp_phase s \<noteq> Crashed \<Longrightarrow> i < length (pp_upload s) \<Longrightarrow> pp_upload s ! i = UIdle \<Longrightarrow>
    pp_uploadJobs s = (req, nodes) # rest \<Longrightarrow> re \<in> ul_reads U \<Longrightarrow>
    sign_with env re (marshal enc_ChunkRequest req) = Inr signature \<Longrightarrow>
    pipe_step env U gnet s (s\<lparr>pp_uploadJobs := rest, pp_upload := (pp_upload s)[i := UTry (req\<lparr>crq_Signature := Some signature\<rparr>) nodes]\<rparr>)"
| upload_skip: "pp_phase s \<noteq> Crashed \<Longrightarrow> i < length (pp_upload s) \<Longrightarrow> pp_upload s ! i = UIdle \<Longrightarrow>
    pp_uploadJobs s = (req, nodes) # rest \<Longrightarrow> re \<in> ul_reads U \<Longrightarrow>
    sign_with env re (marshal enc_ChunkRequest req) = Inl e \<Longrightarrow>
    pipe_step env U gnet s (s\<lparr>pp_uploadJobs := rest\<rparr>)"
| upload_saved: "pp_phase s \<noteq> Crashed \<Longrightarrow> i < length (pp_upload s) \<Longrightarrow> pp_upload s ! i = UTry req (nodeAddr # nodes) \<Longrightarrow>
    save_at gnet nodeAddr req (pp_client s) = (r, client1) \<Longrightarrow> saved r \<Longrightarrow>
    pipe_step env U gnet s (s\<lparr>pp_success := (pp_success s)(crq_ChunkId req \<mapsto> nodeAddr), pp_client := client1,
      pp_upload := (pp_upload s)[i := UIdle]\<rparr>)"
| upload_next: "pp_phase s \<noteq> Crashed \<Longrightarrow> i < length (pp_upload s) \<Longrightarrow> pp_upload s ! i = UTry req (nodeAddr # nodes) \<Longrightarrow>
    save_at gnet nodeAddr req (pp_client s) = (r, client1) \<Longrightarrow> \<not> saved r \<Longrightarrow>
    pipe_step env U gnet s (s\<lparr>pp_client := client1, pp_upload := (pp_upload s)[i := UTry req nodes]\<rparr>)"
| upload_failed: "pp_phase s \<noteq> Crashed \<Longrightarrow> i < length (pp_upload s) \<Longrightarrow> pp_upload s ! i = UTry req [] \<Longrightarrow>
    pipe_step env U gnet s (report (Err ''failed to upload chunk'') (s\<lparr>pp_upload := (pp_upload s)[i := UIdle]\<rparr>))"

inductive pipe_run :: "'e env \<Rightarrow> upload \<Rightarrow> 'w gnet \<Rightarrow> 'w pipe \<Rightarrow> 'w pipe \<Rightarrow> bool" for env U gnet where
  run_refl: "pipe_run env U gnet s s"
| run_step: "pipe_run env U gnet s t \<Longrightarrow> pipe_step env U gnet t u \<Longrightarrow> pipe_run env U gnet s u"

subsection \<open>Every run ends\<close>

text \<open>
  What is left to do, in steps: a block costs at most 32 (5 chunks, each pushed, taken, tried at up
  to 3 nodes and given up), and reading it one more.
\<close>

definition tries :: "upload_job \<Rightarrow> nat" where
  "tries job = length (snd job) + 2"

fun crypto_work :: "crypto_worker \<Rightarrow> nat" where
  "crypto_work (CPush b blk jobs) = 1 + (\<Sum>job \<leftarrow> jobs. tries job + 1)"
| "crypto_work _ = 0"

fun upload_work :: "upload_worker \<Rightarrow> nat" where
  "upload_work (UTry req nodes) = length nodes + 1"
| "upload_work UIdle = 0"

fun phase_work :: "phase \<Rightarrow> nat" where
  "phase_work Reading = 4"
| "phase_work Draining = 3"
| "phase_work Uploading = 2"
| "phase_work Joined = 1"
| "phase_work ReadFailed = 1"
| "phase_work Crashed = 0"

definition work :: "'w pipe \<Rightarrow> nat" where
  "work s = phase_work (pp_phase s) + 33 * length (pp_input s) + 32 * length (pp_cryptoJobs s)
     + sum_list (map crypto_work (pp_crypto s)) + sum_list (map tries (pp_uploadJobs s))
     + sum_list (map upload_work (pp_upload s))"

lemma sum_list_update_nat:
  "i < length xs \<Longrightarrow> sum_list (map f (xs[i := x])) + (f (xs ! i) :: nat) = sum_list (map f xs) + f x"
proof (induction xs arbitrary: i)
  case (Cons y ys)
  then show ?case by (cases i) (auto simp: algebra_simps)
qed simp

lemma seal_block_jobs:
  assumes "seal_block env U c k data = Inr (blk, jobs)"
  shows "length jobs = 5" "\<forall>job \<in> set jobs. length (snd job) \<le> 3"
proof -
  obtain shards parts made where m: "make_chunks env U c k shards parts [0..<5] = Inr made" "jobs = map snd made"
    using assms by (auto simp: seal_block_def res_bind_Inr Let_def total_shards)
  note n = make_chunks_nth[OF m(1)]
  show "length jobs = 5" using n m(2) by simp
  show "\<forall>job \<in> set jobs. length (snd job) \<le> 3"
  proof
    fix job assume "job \<in> set jobs"
    then obtain i where i: "i < length made" "job = snd (made ! i)" by (auto simp: m(2) in_set_conv_nth)
    then obtain ns where "pickRandomItems (cc_pick c i) (ul_nodes U) ChunksTolerance = Inr ns" "snd job = ns"
      using n by fastforce
    then show "length (snd job) \<le> 3" using pickRandomItems_props(1) by (fastforce simp: ChunksTolerance_def)
  qed
qed

lemma sealed_work: "seal_block env U c k data = Inr (blk, jobs) \<Longrightarrow> crypto_work (CPush b blk jobs) < 32"
proof -
  assume s: "seal_block env U c k data = Inr (blk, jobs)"
  have "(\<Sum>job \<leftarrow> jobs. tries job + 1) \<le> (\<Sum>job \<leftarrow> jobs. 6)"
    using seal_block_jobs(2)[OF s] by (intro sum_list_mono) (auto simp: tries_def)
  also have "\<dots> = 30" using seal_block_jobs(1)[OF s] by (simp add: sum_list_triv)
  finally show ?thesis by simp
qed

lemma step_works: "pipe_step env U gnet s t \<Longrightarrow> work t < work s"
proof (induction rule: pipe_step.induct)
  case (crypto_take s i b data rest c blk jobs)
  then show ?case
    using sum_list_update_nat[of i "pp_crypto s" crypto_work "CPush b blk jobs"] sealed_work[of env U c "pp_ids s" data blk jobs b]
    by (simp add: work_def)
next
  case (crypto_panic s i b data rest c e)
  then show ?case by (cases "pp_phase s") (auto simp: work_def)
next
  case (crypto_push s i b blk job jobs)
  then show ?case
    using sum_list_update_nat[of i "pp_crypto s" crypto_work "CPush b blk jobs"] by (simp add: work_def)
next
  case (crypto_store s i b blk)
  then show ?case
    using sum_list_update_nat[of i "pp_crypto s" crypto_work CIdle] by (simp add: work_def)
next
  case (upload_take s i req nodes rest re signature)
  then show ?case
    using sum_list_update_nat[of i "pp_upload s" upload_work "UTry (req\<lparr>crq_Signature := Some signature\<rparr>) nodes"]
    by (simp add: work_def tries_def)
next
  case (upload_saved s i req nodeAddr nodes r client1)
  then show ?case
    using sum_list_update_nat[of i "pp_upload s" upload_work UIdle] by (simp add: work_def)
next
  case (upload_next s i req nodeAddr nodes r client1)
  then show ?case
    using sum_list_update_nat[of i "pp_upload s" upload_work "UTry req nodes"] by (simp add: work_def)
next
  case (upload_failed s i req)
  then show ?case
    using sum_list_update_nat[of i "pp_upload s" upload_work UIdle] by (simp add: work_def report_def)
qed (simp_all add: work_def report_def tries_def)

subsection \<open>No run gets stuck\<close>

definition staffed :: "upload \<Rightarrow> 'w pipe \<Rightarrow> bool" where
  "staffed U s \<longleftrightarrow> pp_crypto s \<noteq> [] \<and> CStopped \<notin> set (pp_crypto s) \<and> pp_upload s \<noteq> [] \<and> ul_reads U \<noteq> {}"

lemma report_simps [simp]:
  "pp_phase (report e s) = pp_phase s" "pp_input (report e s) = pp_input s" "pp_next (report e s) = pp_next s"
  "pp_cryptoJobs (report e s) = pp_cryptoJobs s" "pp_crypto (report e s) = pp_crypto s"
  "pp_uploadJobs (report e s) = pp_uploadJobs s" "pp_upload (report e s) = pp_upload s"
  "pp_err (report e s) \<noteq> None" "pp_success (report e s) = pp_success s" "pp_split (report e s) = pp_split s"
  "pp_ids (report e s) = pp_ids s" "pp_client (report e s) = pp_client s"
  by (simp_all add: report_def)

lemma fair_exists: "\<exists>c. fair c"
proof -
  have "fair \<lparr>cc_key = (\<lambda>n. replicate n CHR ''k''), cc_lock = 0, cc_nonce = (\<lambda>n. Inr (replicate n CHR ''n'')),
      cc_share = 0, cc_pick = (\<lambda>_ _. 0), cc_now = 0\<rparr>"
    by (simp add: fair_def in_int64_def)
  then show ?thesis by blast
qed

lemma try_steps:
  assumes "pp_phase s \<noteq> Crashed" "i < length (pp_upload s)" "pp_upload s ! i = UTry req nodes"
  shows "\<exists>t. pipe_step env U gnet s t"
proof (cases nodes)
  case Nil
  then show ?thesis using assms pipe_step.upload_failed by blast
next
  case (Cons a ns)
  obtain r c1 where "save_at gnet a req (pp_client s) = (r, c1)" by (metis surj_pair)
  then show ?thesis
    using assms Cons pipe_step.upload_saved[of s i req a ns gnet r c1] pipe_step.upload_next[of s i req a ns gnet r c1]
    by (cases "saved r") blast+
qed

lemma take_steps:
  assumes "pp_phase s \<noteq> Crashed" "i < length (pp_upload s)" "pp_upload s ! i = UIdle" "pp_uploadJobs s \<noteq> []" "re \<in> ul_reads U"
  shows "\<exists>t. pipe_step env U gnet s t"
proof -
  obtain req nodes rest where j: "pp_uploadJobs s = (req, nodes) # rest" using assms(4) by (metis list.exhaust surj_pair)
  then show ?thesis
    using assms pipe_step.upload_take[OF assms(1-3) j assms(5)] pipe_step.upload_skip[OF assms(1-3) j assms(5)]
    by (cases "sign_with env re (marshal enc_ChunkRequest req)") blast+
qed

lemma push_steps:
  assumes "pp_phase s \<noteq> Crashed" "i < length (pp_crypto s)" "pp_crypto s ! i = CPush b blk jobs" "pp_uploadJobs s = []"
  shows "\<exists>t. pipe_step env U gnet s t"
proof (cases jobs)
  case Nil
  then show ?thesis using assms pipe_step.crypto_store by blast
next
  case (Cons job js)
  then have "length (pp_uploadJobs s) < uploadCap" using assms(4) by (simp add: uploadCap_def config_consts)
  then show ?thesis using assms Cons pipe_step.crypto_push by blast
qed

lemma seal_steps:
  assumes "pp_phase s \<noteq> Crashed" "i < length (pp_crypto s)" "pp_crypto s ! i = CIdle" "pp_cryptoJobs s \<noteq> []"
  shows "\<exists>t. pipe_step env U gnet s t"
proof -
  obtain b data rest where j: "pp_cryptoJobs s = (b, data) # rest" using assms(4) by (metis list.exhaust surj_pair)
  obtain c where c: "fair c" using fair_exists by blast
  show ?thesis
  proof (cases "seal_block env U c (pp_ids s) data")
    case (Inl e)
    then show ?thesis
      using pipe_step.crypto_error[OF assms(1-3) j c] pipe_step.crypto_panic[OF assms(1-3) j c] by (cases e) blast+
  next
    case (Inr r)
    then show ?thesis using pipe_step.crypto_take[OF assms(1-3) j c] by (metis surj_pair)
  qed
qed

lemma pipe_progress:
  assumes "pp_phase s \<in> {Reading, Draining, Uploading}" "staffed U s"
  shows "\<exists>t. pipe_step env U gnet s t"
proof -
  have p: "pp_phase s \<noteq> Crashed" using assms(1) by auto
  obtain re where re: "re \<in> ul_reads U" using assms(2) by (auto simp: staffed_def)
  consider (trying) i req nodes where "i < length (pp_upload s)" "pp_upload s ! i = UTry req nodes"
    | (idle) "\<forall>w \<in> set (pp_upload s). w = UIdle"
    by (metis in_set_conv_nth upload_worker.exhaust)
  then show ?thesis
  proof cases
    case trying
    then show ?thesis using try_steps[OF p] by blast
  next
    case idle
    show ?thesis
    proof (cases "pp_uploadJobs s = []")
      case False
      then show ?thesis
        using take_steps[OF p _ _ False re, of 0] idle assms(2) by (auto simp: staffed_def)
    next
      case True
      consider (push) i b blk jobs where "i < length (pp_crypto s)" "pp_crypto s ! i = CPush b blk jobs"
        | (free) "\<forall>w \<in> set (pp_crypto s). w = CIdle"
        using assms(2) by (metis in_set_conv_nth crypto_worker.exhaust staffed_def)
      then show ?thesis
      proof cases
        case push
        then show ?thesis using push_steps[OF p _ _ True] by blast
      next
        case free
        show ?thesis
        proof (cases "pp_cryptoJobs s = []")
          case False
          then show ?thesis using seal_steps[OF p _ _ False, of 0] free assms(2) by (auto simp: staffed_def)
        next
          case none: True
          show ?thesis
          proof (cases "pp_phase s")
            case Reading
            have "length (pp_cryptoJobs s) < cryptoCap" using none by (simp add: cryptoCap_def config_consts)
            then show ?thesis
              using pipe_step.read[OF Reading] pipe_step.read_error[OF Reading] pipe_step.read_end[OF Reading]
              by (metis list.exhaust sum.exhaust)
          next
            case Draining
            then show ?thesis using pipe_step.crypto_joined[OF Draining] free none by blast
          next
            case Uploading
            then show ?thesis using pipe_step.upload_joined[OF Uploading] idle True by blast
          qed (use assms(1) in auto)
        qed
      qed
    qed
  qed
qed

lemma staffed_step: "pipe_step env U gnet s t \<Longrightarrow> staffed U s \<Longrightarrow> staffed U t"
  by (induction rule: pipe_step.induct) (auto simp: staffed_def dest: set_update_subset_insert[THEN subsetD])

lemma run_invariant:
  assumes "pipe_run env U gnet s t" "P s" "\<And>s t. pipe_step env U gnet s t \<Longrightarrow> P s \<Longrightarrow> P t"
  shows "P t"
  using assms(1,2) by (induction rule: pipe_run.induct) (blast intro: assms(3))+

lemma run_trans: "pipe_run env U gnet t u \<Longrightarrow> pipe_run env U gnet s t \<Longrightarrow> pipe_run env U gnet s u"
  by (induction rule: pipe_run.induct) (blast intro: pipe_run.run_step)+

lemma run_to_end:
  "staffed U s \<Longrightarrow> \<exists>t. pipe_run env U gnet s t \<and> pp_phase t \<notin> {Reading, Draining, Uploading}"
proof (induction "work s" arbitrary: s rule: less_induct)
  case less
  show ?case
  proof (cases "pp_phase s \<in> {Reading, Draining, Uploading}")
    case True
    obtain t where t: "pipe_step env U gnet s t" using pipe_progress[OF True less.prems] by blast
    then obtain u where "pipe_run env U gnet t u" "pp_phase u \<notin> {Reading, Draining, Uploading}"
      using less.hyps[OF step_works[OF t]] staffed_step[OF t less.prems] by blast
    then show ?thesis using t run_trans pipe_run.run_refl pipe_run.run_step by metis
  qed (blast intro: pipe_run.run_refl)
qed

lemma no_infinite_run: "\<not> (\<forall>n :: nat. pipe_step env U gnet (f n) (f (Suc n)))"
proof
  assume r: "\<forall>n. pipe_step env U gnet (f n) (f (Suc n))"
  have "work (f n) + n \<le> work (f 0)" for n
  proof (induction n)
    case (Suc n)
    then show ?case using step_works[OF r[rule_format, of n]] by simp
  qed simp
  from this[of "Suc (work (f 0))"] show False by simp
qed

text \<open>A run of \<open>n\<close> steps; it cannot have more steps than there was work to do.\<close>

lemma steps_work: "(pipe_step env U gnet ^^ n) s t \<Longrightarrow> work t + n \<le> work s"
proof (induction n arbitrary: t)
  case (Suc n)
  then obtain u where "(pipe_step env U gnet ^^ n) s u" "pipe_step env U gnet u t" by auto
  then show ?case using Suc.IH[of u] step_works by fastforce
qed simp

lemma run_steps: "pipe_run env U gnet s t \<Longrightarrow> \<exists>n. (pipe_step env U gnet ^^ n) s t"
proof (induction rule: pipe_run.induct)
  case (run_step s t u)
  then obtain n where "(pipe_step env U gnet ^^ n) s t" by blast
  then have "(pipe_step env U gnet ^^ Suc n) s u" using run_step(2) by auto
  then show ?case by blast
qed (blast intro: relpowp_0_I)

lemma start_staffed:
  assumes "0 < nc" "0 < nu" "rs_new (ul_libs U) DataShards ParityShards" "ul_reads U \<noteq> {}"
  shows "staffed U (start_pipe U nc nu input client)"
  using assms by (simp add: staffed_def start_pipe_def Let_def)

lemma start_work: "work (start_pipe U nc nu input client) = 33 * length input + 4"
proof -
  have "sum_list (map f (replicate n x)) = n * f x" for f :: "'a \<Rightarrow> nat" and n x by (induction n) auto
  then show ?thesis by (simp add: work_def start_pipe_def Let_def)
qed

text \<open>An upload by the reference node.\<close>

definition ref_upload :: "bytes list \<Rightarrow> upload" where
  "ref_upload nodes = \<lparr>ul_libs = ref_libs, ul_fileId = ''f'', ul_releaseTime = ''2030'', ul_round = 1, ul_nodes = nodes,
     ul_uuid = (\<lambda>k. replicate (Suc k) CHR ''u''), ul_reads = {dsk_read_err (env_disk (ref_env ''n'' []))}\<rparr>"

abbreviation "ref_start \<equiv> start_pipe (ref_upload [''n:1'']) 2 10 [Inr ''data''] (ref_client [])"

lemma ref_new: "rs_new (ul_libs (ref_upload nodes)) DataShards ParityShards"
  by (simp add: ref_upload_def ref_libs_def config_consts)

lemma ref_reads: "ul_reads (ref_upload nodes) \<noteq> {}"
  by (simp add: ref_upload_def)

lemma ref_read:
  "pipe_step env U gnet ref_start
    (ref_start\<lparr>pp_input := [], pp_next := Suc 0, pp_cryptoJobs := [(0, ''data'')]\<rparr>)"
  using pipe_step.read[of ref_start "''data''" "[]" env U gnet] by (simp add: start_pipe_def Let_def cryptoCap_def config_consts)

subsection \<open>Properties\<close>

text \<open>
  C7: the pipeline ends and is free of deadlock, for every number of workers, every file, every
  network and every interleaving: a run of an upload of \<open>n\<close> blocks has at most \<open>33 n + 4\<close> steps, a
  run that has not ended has a next step, and from every reachable state the end is reachable.
\<close>

theorem pipeline_ends:
  assumes "0 < nc" "0 < nu" "rs_new (ul_libs U) DataShards ParityShards" "ul_reads U \<noteq> {}"
    and "(pipe_step env U gnet ^^ n) (start_pipe U nc nu input client) s"
  shows "n \<le> 33 * length input + 4
    \<and> (pp_phase s \<in> {Reading, Draining, Uploading} \<longrightarrow> (\<exists>t. pipe_step env U gnet s t))
    \<and> (\<exists>t. pipe_run env U gnet s t \<and> pp_phase t \<in> {Joined, ReadFailed, Crashed})"
proof -
  have "staffed U (start_pipe U nc nu input client)" by (rule start_staffed[OF assms(1-4)])
  with assms(5) have st: "staffed U s"
    by (induction n arbitrary: s) (auto dest: staffed_step)
  have "\<exists>t. pipe_run env U gnet s t \<and> pp_phase t \<in> {Joined, ReadFailed, Crashed}"
    using run_to_end[OF st, of env gnet] by (metis insertCI phase.exhaust)
  then show ?thesis using steps_work[OF assms(5)] start_work[of U nc nu input client] pipe_progress[OF _ st] by auto
qed

theorem pipeline_ends_witness:
  "\<exists>t. pipe_run (ref_env ''n'' []) (ref_upload [''n:1'']) ref_net
      (ref_start\<lparr>pp_input := [], pp_next := Suc 0, pp_cryptoJobs := [(0, ''data'')]\<rparr>) t
    \<and> pp_phase t \<in> {Joined, ReadFailed, Crashed}"
proof -
  have "(pipe_step (ref_env ''n'' []) (ref_upload [''n:1'']) ref_net ^^ 1) ref_start
      (ref_start\<lparr>pp_input := [], pp_next := Suc 0, pp_cryptoJobs := [(0, ''data'')]\<rparr>)"
    using ref_read by (metis relpowp_1)
  then show ?thesis using pipeline_ends[OF _ _ ref_new ref_reads] by (metis zero_less_numeral)
qed

end
