(* ===== verification/Upload_Invariant.thy ===== *)
theory Upload_Invariant
  imports Upload_Pipeline
begin

text \<open>
  What is true in every state of an upload whose file can be read. The invariant refers to \<open>made\<close>,
  the blocks that were sealed so far with their shards and jobs; it is not part of the state. Blocks
  are taken from the channel in the order they were read, and a block takes five chunk ids, so the
  \<open>b\<close>-th block has the ids from \<open>5 * b\<close> on.
\<close>

type_synonym made = "nat \<Rightarrow> (FileBlock \<times> char slice list \<times> upload_job list) option"

definition job_in :: "made \<Rightarrow> upload_job \<Rightarrow> bool" where
  "job_in made job \<longleftrightarrow> (\<exists>b blk shards jobs. made b = Some (blk, shards, jobs) \<and> job \<in> set jobs)"

lemma job_inI: "made b = Some (blk, shards, jobs) \<Longrightarrow> job \<in> set jobs \<Longrightarrow> job_in made job"
  unfolding job_in_def by blast

definition job_id :: "upload_job \<Rightarrow> bytes" where
  "job_id job = crq_ChunkId (fst job)"

text \<open>A block that was sealed by a worker which took the ids from \<open>5 * b\<close> on.\<close>

definition made_ok :: "'e env \<Rightarrow> upload \<Rightarrow> bytes list \<Rightarrow> nat \<Rightarrow> FileBlock \<Rightarrow> char slice list \<Rightarrow> upload_job list \<Rightarrow> bool" where
  "made_ok env U blocks b blk shards jobs \<longleftrightarrow>
     (\<exists>parts. sealed (ul_libs U) (env_C env) DataShards ParityShards (ul_round U) (blocks ! b) blk shards parts)
     \<and> length shards = 5 \<and> map chk_ChunkId (elems (blk_Chunks blk)) = map (\<lambda>j. ul_uuid U (5 * b + j)) [0..<5]
     \<and> length jobs = 5 \<and> (\<forall>j < 5. job_of env U (elems (blk_Chunks blk) ! j) (shards ! j) (jobs ! j))
     \<and> sealed_size (env_C env) (blocks ! b) blk"

text \<open>Signing can fail, and a chunk whose request cannot be signed is dropped without an error.\<close>

definition lossy :: "'e env \<Rightarrow> upload \<Rightarrow> bool" where
  "lossy env U \<longleftrightarrow> (\<exists>re \<in> ul_reads U. \<exists>m e. sign_with env re m = Inl e)"

subsection \<open>The parts of the invariant\<close>

definition taken :: "'w pipe \<Rightarrow> nat" where
  "taken s = pp_ids s div 5"

definition queue_inv :: "bytes list \<Rightarrow> 'w pipe \<Rightarrow> bool" where
  "queue_inv blocks s \<longleftrightarrow> pp_ids s = 5 * taken s \<and> taken s \<le> pp_next s \<and> pp_next s \<le> length blocks
     \<and> pp_input s = map Inr (drop (pp_next s) blocks)
     \<and> pp_cryptoJobs s = map (\<lambda>b. (b, blocks ! b)) [taken s..<pp_next s]
     \<and> CStopped \<notin> set (pp_crypto s) \<and> pp_crypto s \<noteq> [] \<and> pp_upload s \<noteq> []"

definition phase_inv :: "'w pipe \<Rightarrow> bool" where
  "phase_inv s \<longleftrightarrow> pp_phase s \<notin> {ReadFailed, Crashed}
     \<and> (pp_phase s \<noteq> Reading \<longrightarrow> pp_input s = [])
     \<and> (pp_phase s \<in> {Uploading, Joined} \<longrightarrow> pp_cryptoJobs s = [] \<and> (\<forall>w \<in> set (pp_crypto s). w = CIdle))
     \<and> (pp_phase s = Joined \<longrightarrow> pp_uploadJobs s = [] \<and> (\<forall>w \<in> set (pp_upload s). w = UIdle))"

definition made_inv :: "'e env \<Rightarrow> upload \<Rightarrow> bytes list \<Rightarrow> made \<Rightarrow> 'w pipe \<Rightarrow> bool" where
  "made_inv env U blocks made s \<longleftrightarrow> (\<forall>b. made b \<noteq> None \<longrightarrow> b < taken s)
     \<and> (\<forall>b < taken s. made b = None \<longrightarrow> pp_err s \<noteq> None)
     \<and> (\<forall>b blk shards jobs. made b = Some (blk, shards, jobs) \<longrightarrow> made_ok env U blocks b blk shards jobs)"

definition split_inv :: "made \<Rightarrow> 'w pipe \<Rightarrow> bool" where
  "split_inv made s \<longleftrightarrow> gomap_ok (pp_split s)
     \<and> (\<forall>b blk js. CPush b blk js \<in> set (pp_crypto s) \<longrightarrow> (\<exists>shards jobs. made b = Some (blk, shards, jobs) \<and> set js \<subseteq> set jobs))
     \<and> (\<forall>i blk. map_of (pp_split s) i = Some blk \<longrightarrow> (\<exists>b shards jobs. i = int b \<and> made b = Some (blk, shards, jobs)))
     \<and> (\<forall>b blk shards jobs. made b = Some (blk, shards, jobs) \<longrightarrow>
          map_of (pp_split s) (int b) = Some blk \<or> (\<exists>js. CPush b blk js \<in> set (pp_crypto s)))"

definition jobs_inv :: "made \<Rightarrow> 'w pipe \<Rightarrow> bool" where
  "jobs_inv made s \<longleftrightarrow> (\<forall>job \<in> set (pp_uploadJobs s). job_in made job)
     \<and> (\<forall>req nodes. UTry req nodes \<in> set (pp_upload s) \<longrightarrow>
          (\<exists>job. job_in made job \<and> fst job = req\<lparr>crq_Signature := None\<rparr> \<and> set nodes \<subseteq> set (snd job)))"

text \<open>The job waits with its crypto worker, in the channel, or with an upload worker.\<close>

definition busy :: "'w pipe \<Rightarrow> upload_job \<Rightarrow> bool" where
  "busy s job \<longleftrightarrow> job \<in> set (pp_uploadJobs s)
     \<or> (\<exists>b blk js. CPush b blk js \<in> set (pp_crypto s) \<and> job \<in> set js)
     \<or> (\<exists>req nodes. UTry req nodes \<in> set (pp_upload s) \<and> fst job = req\<lparr>crq_Signature := None\<rparr>)"

definition status_inv :: "'e env \<Rightarrow> upload \<Rightarrow> made \<Rightarrow> 'w pipe \<Rightarrow> bool" where
  "status_inv env U made s \<longleftrightarrow> (\<forall>job. job_in made job \<longrightarrow>
     pp_err s \<noteq> None \<or> lossy env U \<or> pp_success s (job_id job) \<noteq> None \<or> busy s job)"

definition net_inv ::
  "upload \<Rightarrow> ('w client \<Rightarrow> bool) \<Rightarrow> ('w client \<Rightarrow> bytes \<Rightarrow> bytes \<Rightarrow> bytes option) \<Rightarrow> made \<Rightarrow> 'w pipe \<Rightarrow> bool" where
  "net_inv U ok holds made s \<longleftrightarrow> ok (pp_client s)
     \<and> (\<forall>a k v. holds (pp_client s) a (ul_uuid U k) = Some v \<longrightarrow>
          (\<exists>job. job_in made job \<and> job_id job = ul_uuid U k \<and> v = served (fst job)))
     \<and> (\<forall>k a. pp_success s k = Some a \<longrightarrow>
          (\<exists>job. job_in made job \<and> job_id job = k \<and> a \<in> set (snd job) \<and> holds (pp_client s) a k = Some (served (fst job))))"

definition pipe_inv ::
  "'e env \<Rightarrow> upload \<Rightarrow> ('w client \<Rightarrow> bool) \<Rightarrow> ('w client \<Rightarrow> bytes \<Rightarrow> bytes \<Rightarrow> bytes option) \<Rightarrow> bytes list
    \<Rightarrow> made \<Rightarrow> 'w pipe \<Rightarrow> bool" where
  "pipe_inv env U ok holds blocks made s \<longleftrightarrow> queue_inv blocks s \<and> phase_inv s \<and> made_inv env U blocks made s
     \<and> split_inv made s \<and> jobs_inv made s \<and> status_inv env U made s \<and> net_inv U ok holds made s"

lemmas inv_defs = queue_inv_def phase_inv_def made_inv_def split_inv_def jobs_inv_def status_inv_def busy_def net_inv_def taken_def

lemma busyE:
  assumes "busy s job"
  obtains (queued) "job \<in> set (pp_uploadJobs s)"
  | (sealing) b blk js where "CPush b blk js \<in> set (pp_crypto s)" "job \<in> set js"
  | (trying) req nodes where "UTry req nodes \<in> set (pp_upload s)" "fst job = req\<lparr>crq_Signature := None\<rparr>"
  using assms unfolding busy_def by blast

lemma busyI:
  "job \<in> set (pp_uploadJobs s) \<Longrightarrow> busy s job"
  "CPush b blk js \<in> set (pp_crypto s) \<Longrightarrow> job \<in> set js \<Longrightarrow> busy s job"
  "UTry req nodes \<in> set (pp_upload s) \<Longrightarrow> fst job = req\<lparr>crq_Signature := None\<rparr> \<Longrightarrow> busy s job"
  unfolding busy_def by blast+

subsection \<open>Members of updated lists\<close>

lemma update_old: "x \<in> set xs \<Longrightarrow> i < length xs \<Longrightarrow> x \<noteq> xs ! i \<Longrightarrow> x \<in> set (xs[i := y])"
  by (metis in_set_conv_nth length_list_update nth_list_update_neq)

lemma update_new: "i < length xs \<Longrightarrow> y \<in> set (xs[i := y])"
  by (simp add: set_update_memI)

lemma update_mem: "x \<in> set (xs[i := y]) \<Longrightarrow> x = y \<or> x \<in> set xs"
  using set_update_subset_insert by fastforce

lemma update_keeps: "x \<in> set xs \<Longrightarrow> xs ! i \<noteq> x \<Longrightarrow> x \<in> set (xs[i := y])"
  by (cases "i < length xs") (auto intro: update_old simp: list_update_beyond)

subsection \<open>Identity of jobs\<close>

lemma made_ok_job:
  assumes "made_ok env U blocks b blk shards jobs" "job \<in> set jobs"
  obtains j where "j < 5" "job = jobs ! j" "job_id job = ul_uuid U (5 * b + j)"
    "elems (blk_Chunks blk) ! j \<in> set (elems (blk_Chunks blk))" "chk_ChunkId (elems (blk_Chunks blk) ! j) = job_id job"
    "job_of env U (elems (blk_Chunks blk) ! j) (shards ! j) job"
proof -
  obtain j where j: "j < 5" "job = jobs ! j" using assms by (metis in_set_conv_nth made_ok_def)
  have o: "job_of env U (elems (blk_Chunks blk) ! j) (shards ! j) job" using assms(1) j by (simp add: made_ok_def)
  have ids: "map chk_ChunkId (elems (blk_Chunks blk)) = map (\<lambda>j. ul_uuid U (5 * b + j)) [0..<5]"
    using assms(1) by (simp add: made_ok_def)
  have n: "length (elems (blk_Chunks blk)) = 5" using arg_cong[OF ids, of length] by (simp only: length_map length_upt)
  have c: "chk_ChunkId (elems (blk_Chunks blk) ! j) = ul_uuid U (5 * b + j)"
    using arg_cong[OF ids, of "\<lambda>l. l ! j"] j(1) n by simp
  moreover have "job_id job = chk_ChunkId (elems (blk_Chunks blk) ! j)"
    using o by (auto simp: job_of_def job_id_def chunk_request_def)
  ultimately show ?thesis using that j o n by simp
qed

lemma job_unique:
  assumes "made_inv env U blocks made s" "inj (ul_uuid U)" "job_in made job" "job_in made job'" "job_id job = job_id job'"
  shows "job = job'"
proof -
  obtain b blk shards jobs where m: "made b = Some (blk, shards, jobs)" "job \<in> set jobs" using assms(3) by (auto simp: job_in_def)
  obtain b' blk' shards' jobs' where m': "made b' = Some (blk', shards', jobs')" "job' \<in> set jobs'" using assms(4) by (auto simp: job_in_def)
  have o: "made_ok env U blocks b blk shards jobs" "made_ok env U blocks b' blk' shards' jobs'"
    using assms(1) m(1) m'(1) by (auto simp: made_inv_def)
  obtain j where j: "j < 5" "job = jobs ! j" "job_id job = ul_uuid U (5 * b + j)" using made_ok_job[OF o(1) m(2)] by metis
  obtain j' where j': "j' < 5" "job' = jobs' ! j'" "job_id job' = ul_uuid U (5 * b' + j')" using made_ok_job[OF o(2) m'(2)] by metis
  have "5 * b + j = 5 * b' + j'" using assms(2,5) j(3) j'(3) by (metis injD)
  then have "b = b'" "j = j'" using j(1) j'(1) by presburger+
  then show ?thesis using m(1) m'(1) j(2) j'(2) by simp
qed

lemma job_signature:
  assumes "made_inv env U blocks made s" "job_in made job"
  shows "crq_Signature (fst job) = None" "\<exists>k. job_id job = ul_uuid U k"
proof -
  obtain b blk shards jobs where m: "made b = Some (blk, shards, jobs)" "job \<in> set jobs" using assms(2) by (auto simp: job_in_def)
  have "made_ok env U blocks b blk shards jobs" using assms(1) m(1) by (auto simp: made_inv_def)
  from made_ok_job[OF this m(2)] obtain j where "job_id job = ul_uuid U (5 * b + j)"
    "job_of env U (elems (blk_Chunks blk) ! j) (shards ! j) job" by metis
  then show "crq_Signature (fst job) = None" "\<exists>k. job_id job = ul_uuid U k"
    by (auto simp: job_of_def chunk_request_def)
qed

subsection \<open>Each step keeps the invariant\<close>

lemma queue_head:
  assumes "queue_inv blocks s" "pp_cryptoJobs s = (b, data) # rest"
  shows "b = taken s" "data = blocks ! b" "b < pp_next s" "b < length blocks" "rest = map (\<lambda>b. (b, blocks ! b)) [Suc b..<pp_next s]"
proof -
  have m: "map (\<lambda>b. (b, blocks ! b)) [taken s..<pp_next s] = (b, data) # rest" "pp_next s \<le> length blocks"
    using assms by (simp_all add: queue_inv_def)
  then have lt: "taken s < pp_next s" by (cases "taken s < pp_next s") auto
  then show "b = taken s" "data = blocks ! b" "b < pp_next s" "b < length blocks" "rest = map (\<lambda>b. (b, blocks ! b)) [Suc b..<pp_next s]"
    using m by (auto simp: upt_conv_Cons)
qed

lemma queue_take:
  assumes "queue_inv blocks s" "pp_cryptoJobs s = (b, data) # rest" "CStopped \<notin> set ws" "ws \<noteq> []"
  shows "queue_inv blocks (s\<lparr>pp_cryptoJobs := rest, pp_ids := pp_ids s + 5, pp_crypto := ws\<rparr>)"
proof -
  have t: "taken (s\<lparr>pp_cryptoJobs := r, pp_ids := n, pp_crypto := ws\<rparr>) = n div 5" for r n
    by (simp add: taken_def)
  show ?thesis using queue_head[OF assms(1,2)] assms by (simp add: queue_inv_def t)
qed

lemma queue_step: "pipe_step env U gnet s t \<Longrightarrow> queue_inv blocks s \<Longrightarrow> queue_inv blocks t"
proof (induction rule: pipe_step.induct)
  case (read s b rest)
  then have i: "map Inr (drop (pp_next s) blocks) = Inr b # rest" by (simp add: queue_inv_def)
  then have "drop (pp_next s) blocks \<noteq> []" by auto
  then have n: "pp_next s < length blocks" by simp
  then have "drop (pp_next s) blocks = blocks ! pp_next s # drop (Suc (pp_next s)) blocks" by (simp add: Cons_nth_drop_Suc)
  then show ?case using read i n by (auto simp: queue_inv_def taken_def)
next
  case (crypto_take s i b data rest c blk jobs)
  have "CStopped \<notin> set ((pp_crypto s)[i := CPush b blk jobs])"
    using crypto_take(7) by (auto simp: queue_inv_def dest: update_mem)
  moreover have "(pp_crypto s)[i := CPush b blk jobs] \<noteq> []" using crypto_take(2) by auto
  ultimately show ?case by (rule queue_take[OF crypto_take(7,4)])
next
  case (crypto_error s i b data rest c e)
  have "queue_inv blocks (s\<lparr>pp_cryptoJobs := rest, pp_ids := pp_ids s + 5, pp_crypto := pp_crypto s\<rparr>)"
    using crypto_error(7) by (intro queue_take[OF crypto_error(7,4)]) (auto simp: queue_inv_def)
  then show ?case by (simp add: queue_inv_def taken_def)
qed (auto simp: queue_inv_def taken_def dest: update_mem)


locale uploading = chunk_net gnet netok holds + file_lib_ok "ul_libs U"
  for gnet :: "'w gnet" and netok holds and U :: upload +
  fixes env :: "'e env" and blocks :: "bytes list"
  assumes crypto: "crypto_ok (env_C env)"
    and coder: "rs_new (ul_libs U) DataShards ParityShards"
    and ids_inj: "inj (ul_uuid U)"
begin

lemma no_panic: "fair c \<Longrightarrow> seal_block env U c k data \<noteq> Inl (Panic p)"
  using seal_block_errors[OF file_lib_ok_axioms coder] .

lemma phase_step: "pipe_step env U gnet s t \<Longrightarrow> queue_inv blocks s \<Longrightarrow> phase_inv s \<Longrightarrow> phase_inv t"
proof (induction rule: pipe_step.induct)
  case (crypto_joined s)
  then have "\<forall>w \<in> set (pp_crypto s). w = CIdle \<and> pp_cryptoJobs s = []" "pp_crypto s \<noteq> []" by (auto simp: queue_inv_def)
  then show ?case using crypto_joined by (cases "pp_crypto s") (auto simp: phase_inv_def)
next
  case (upload_joined s)
  then have "pp_upload s \<noteq> []" by (simp add: queue_inv_def)
  then show ?case using upload_joined by (cases "pp_upload s") (auto simp: phase_inv_def)
next
  case (crypto_panic s i b data rest c e)
  then show ?case using no_panic by blast
next
  case (read_error s e rest)
  then have "Inl e \<in> set (map Inr (drop (pp_next s) blocks))" by (metis list.set_intros(1) queue_inv_def)
  then show ?case by auto
next
  case (crypto_push s i b blk job jobs)
  then have "CPush b blk (job # jobs) \<in> set (pp_crypto s)" by (metis nth_mem)
  then show ?case using crypto_push(6) by (auto simp: phase_inv_def)
next
  case (crypto_store s i b blk)
  then have "CPush b blk [] \<in> set (pp_crypto s)" by (metis nth_mem)
  then show ?case using crypto_store(5) by (auto simp: phase_inv_def)
next
  case (upload_take s i req nodes rest re signature)
  then show ?case by (auto simp: phase_inv_def)
next
  case (upload_saved s i req nodeAddr nodes r client1)
  then show ?case by (auto simp: phase_inv_def dest: update_mem)
next
  case (upload_next s i req nodeAddr nodes r client1)
  then have "UTry req (nodeAddr # nodes) \<in> set (pp_upload s)" by (metis nth_mem)
  then show ?case using upload_next(7) by (auto simp: phase_inv_def)
next
  case (upload_failed s i req)
  then show ?case by (auto simp: phase_inv_def dest: update_mem)
qed (simp_all add: phase_inv_def)

lemma made_sealed:
  assumes "queue_inv blocks s" "pp_cryptoJobs s = (b, data) # rest" "fair c" "seal_block env U c (pp_ids s) data = Inr (blk, jobs)"
  shows "\<exists>shards. made_ok env U blocks b blk shards jobs"
proof -
  have "pp_ids s = 5 * b" "data = blocks ! b"
    using queue_head[OF assms(1,2)] assms(1) by (simp_all add: queue_inv_def)
  then show ?thesis
    using seal_block_sealed[OF file_lib_ok_axioms crypto coder ids_inj assms(3,4)] by (auto simp: made_ok_def)
qed

text \<open>A sealed block joins the others when its worker has it; nothing else changes.\<close>

lemma take_made:
  assumes "made_inv env U blocks made s" "queue_inv blocks s" "pp_cryptoJobs s = (b, data) # rest"
  shows "made b = None" "job_in made job \<Longrightarrow> job_in (made(b := e)) job"
    "job_in (made(b \<mapsto> (blk, shards, jobs))) job \<longleftrightarrow> job_in made job \<or> job \<in> set jobs"
proof -
  show n: "made b = None" using assms(1) queue_head(1)[OF assms(2,3)] unfolding made_inv_def by (metis less_irrefl)
  show keep: "job_in made job \<Longrightarrow> job_in (made(b := e)) job" for job e
    using n unfolding job_in_def by (metis fun_upd_apply option.distinct(1))
  show "job_in (made(b \<mapsto> (blk, shards, jobs))) job \<longleftrightarrow> job_in made job \<or> job \<in> set jobs"
  proof
    show "job_in (made(b \<mapsto> (blk, shards, jobs))) job \<Longrightarrow> job_in made job \<or> job \<in> set jobs"
      by (auto simp: job_in_def split: if_splits)
    have "job \<in> set jobs \<Longrightarrow> job_in (made(b \<mapsto> (blk, shards, jobs))) job"
      unfolding job_in_def by (intro exI[of _ b] exI[of _ blk] exI[of _ shards] exI[of _ jobs]) simp
    then show "job_in made job \<or> job \<in> set jobs \<Longrightarrow> job_in (made(b \<mapsto> (blk, shards, jobs))) job"
      using keep by blast
  qed
qed

end

text \<open>What a part of the invariant does not mention may change.\<close>

lemma made_frame:
  "made_inv env U blocks made s \<Longrightarrow> pp_ids t = pp_ids s \<Longrightarrow> (pp_err s \<noteq> None \<longrightarrow> pp_err t \<noteq> None) \<Longrightarrow> made_inv env U blocks made t"
  by (auto simp: made_inv_def taken_def)

lemma split_frame: "split_inv made s \<Longrightarrow> pp_split t = pp_split s \<Longrightarrow> pp_crypto t = pp_crypto s \<Longrightarrow> split_inv made t"
  by (simp add: split_inv_def)

lemma jobs_frame: "jobs_inv made s \<Longrightarrow> pp_uploadJobs t = pp_uploadJobs s \<Longrightarrow> pp_upload t = pp_upload s \<Longrightarrow> jobs_inv made t"
  by (simp add: jobs_inv_def)

lemma status_move:
  assumes "status_inv env U made s" "pp_err s \<noteq> None \<longrightarrow> pp_err t \<noteq> None" "dom (pp_success s) \<subseteq> dom (pp_success t)"
    and "\<And>job. job_in made job \<Longrightarrow> busy s job \<Longrightarrow> lossy env U \<or> pp_success t (job_id job) \<noteq> None \<or> busy t job"
  shows "status_inv env U made t"
  using assms unfolding status_inv_def dom_def by blast

lemma status_frame:
  "status_inv env U made s \<Longrightarrow> (pp_err s \<noteq> None \<longrightarrow> pp_err t \<noteq> None) \<Longrightarrow> pp_success t = pp_success s
    \<Longrightarrow> pp_uploadJobs t = pp_uploadJobs s \<Longrightarrow> pp_crypto t = pp_crypto s \<Longrightarrow> pp_upload t = pp_upload s \<Longrightarrow> status_inv env U made t"
  by (rule status_move) (auto simp: busy_def)

lemma status_error: "pp_err t \<noteq> None \<Longrightarrow> status_inv env U made t"
  by (simp add: status_inv_def)

lemma net_frame: "net_inv U ok holds made s \<Longrightarrow> pp_client t = pp_client s \<Longrightarrow> pp_success t = pp_success s \<Longrightarrow> net_inv U ok holds made t"
  by (simp add: net_inv_def)

lemma jobs_mono:
  "jobs_inv made s \<Longrightarrow> (\<And>job. job_in made job \<Longrightarrow> job_in made' job) \<Longrightarrow> pp_uploadJobs t = pp_uploadJobs s
    \<Longrightarrow> pp_upload t = pp_upload s \<Longrightarrow> jobs_inv made' t"
  unfolding jobs_inv_def by metis

lemma net_mono:
  "net_inv U ok holds made s \<Longrightarrow> (\<And>job. job_in made job \<Longrightarrow> job_in made' job) \<Longrightarrow> pp_client t = pp_client s
    \<Longrightarrow> pp_success t = pp_success s \<Longrightarrow> net_inv U ok holds made' t"
  unfolding net_inv_def by metis

lemmas frames = made_frame split_frame jobs_frame status_frame net_frame

lemma push_inv:
  assumes "split_inv made s" "jobs_inv made s" "status_inv env U made s"
    and "i < length (pp_crypto s)" "pp_crypto s ! i = CPush b blk (job # jobs)"
  defines "t \<equiv> s\<lparr>pp_uploadJobs := pp_uploadJobs s @ [job], pp_crypto := (pp_crypto s)[i := CPush b blk jobs]\<rparr>"
  shows "split_inv made t \<and> jobs_inv made t \<and> status_inv env U made t"
proof -
  have w: "CPush b blk (job # jobs) \<in> set (pp_crypto s)" using assms(4,5) by (metis nth_mem)
  have new: "CPush b blk jobs \<in> set (pp_crypto t)" using assms(4) by (simp add: t_def update_new)
  have old: "w' \<in> set (pp_crypto t)" if "w' \<in> set (pp_crypto s)" "w' \<noteq> CPush b blk (job # jobs)" for w'
    using that assms(4,5) by (simp add: t_def update_old)
  have from_old: "w' = CPush b blk jobs \<or> w' \<in> set (pp_crypto s)" if "w' \<in> set (pp_crypto t)" for w'
    using that by (auto simp: t_def dest: update_mem)
  obtain shards all where m: "made b = Some (blk, shards, all)" "set (job # jobs) \<subseteq> set all"
    using assms(1) w unfolding split_inv_def by blast
  have "split_inv made t"
    unfolding split_inv_def
  proof (intro conjI allI impI)
    show "gomap_ok (pp_split t)" using assms(1) by (simp add: t_def split_inv_def)
    show "\<exists>b shards jobs. i = int b \<and> made b = Some (blk, shards, jobs)" if "map_of (pp_split t) i = Some blk" for i blk
      using assms(1) that by (simp add: t_def split_inv_def)
    show "\<exists>shards jobs. made b' = Some (blk', shards, jobs) \<and> set js \<subseteq> set jobs" if "CPush b' blk' js \<in> set (pp_crypto t)" for b' blk' js
      using from_old[OF that] assms(1) m by (auto simp: split_inv_def)
    show "map_of (pp_split t) (int b') = Some blk' \<or> (\<exists>js. CPush b' blk' js \<in> set (pp_crypto t))"
      if "made b' = Some (blk', shards', jobs')" for b' blk' shards' jobs'
    proof -
      have "map_of (pp_split s) (int b') = Some blk' \<or> (\<exists>js. CPush b' blk' js \<in> set (pp_crypto s))"
        using assms(1) that unfolding split_inv_def by blast
      then show ?thesis using old new by (auto simp: t_def)
    qed
  qed
  moreover have "jobs_inv made t"
    using assms(2) m by (auto simp: jobs_inv_def t_def job_in_def)
  moreover have "status_inv env U made t"
  proof (rule status_move[OF assms(3)])
    fix j assume "job_in made j" and j: "busy s j"
    have "j = job \<or> (\<exists>b blk js. CPush b blk js \<in> set (pp_crypto t) \<and> j \<in> set js)"
      if "CPush b' blk' js \<in> set (pp_crypto s)" "j \<in> set js" for b' blk' js
      using that old[OF that(1)] new by (cases "CPush b' blk' js = CPush b blk (job # jobs)") auto
    then show "lossy env U \<or> pp_success t (job_id j) \<noteq> None \<or> busy t j"
      using j by (simp add: t_def busy_def) blast
  qed (simp_all add: t_def)
  ultimately show ?thesis by blast
qed

lemma take_split:
  assumes "split_inv made s" "made b = None" "i < length (pp_crypto s)" "pp_crypto s ! i = CIdle"
    and t: "pp_split t = pp_split s" "pp_crypto t = (pp_crypto s)[i := CPush b blk jobs]"
  shows "split_inv (made(b \<mapsto> (blk, shards, jobs))) t"
proof -
  let ?made = "made(b \<mapsto> (blk, shards, jobs))"
  have old: "w \<in> set (pp_crypto t)" if "w \<in> set (pp_crypto s)" "w \<noteq> CIdle" for w
    using that assms(3,4) by (simp add: t update_old)
  have new: "CPush b blk jobs \<in> set (pp_crypto t)" using assms(3) by (simp add: t update_new)
  have from_old: "w = CPush b blk jobs \<or> w \<in> set (pp_crypto s)" if "w \<in> set (pp_crypto t)" for w
    using that by (auto simp: t dest: update_mem)
  show ?thesis
    unfolding split_inv_def
  proof (intro conjI allI impI)
    show "gomap_ok (pp_split t)" using assms(1) by (simp add: t split_inv_def)
    show "\<exists>shards jobs. ?made b' = Some (blk', shards, jobs) \<and> set js \<subseteq> set jobs" if "CPush b' blk' js \<in> set (pp_crypto t)" for b' blk' js
    proof (cases "CPush b' blk' js = CPush b blk jobs")
      case False
      then have "\<exists>shards jobs. made b' = Some (blk', shards, jobs) \<and> set js \<subseteq> set jobs"
        using from_old[OF that] assms(1) unfolding split_inv_def by blast
      then show ?thesis using assms(2) by auto
    qed auto
    show "\<exists>b shards jobs. k = int b \<and> ?made b = Some (blk', shards, jobs)" if kb: "map_of (pp_split t) k = Some blk'" for k blk'
    proof -
      obtain b' shards' jobs' where "k = int b'" "made b' = Some (blk', shards', jobs')"
        using assms(1) kb[unfolded t] unfolding split_inv_def by blast
      then show ?thesis using assms(2) by (intro exI[of _ b']) auto
    qed
    show "map_of (pp_split t) (int b') = Some blk' \<or> (\<exists>js. CPush b' blk' js \<in> set (pp_crypto t))"
      if "?made b' = Some (blk', shards', jobs')" for b' blk' shards' jobs'
    proof (cases "b' = b")
      case True
      then show ?thesis using that new by auto
    next
      case False
      then have "map_of (pp_split s) (int b') = Some blk' \<or> (\<exists>js. CPush b' blk' js \<in> set (pp_crypto s))"
        using assms(1) that unfolding split_inv_def by simp
      then show ?thesis using old by (auto simp: t)
    qed
  qed
qed

lemma store_inv:
  assumes "split_inv made s" "status_inv env U made s"
    and "i < length (pp_crypto s)" "pp_crypto s ! i = CPush b blk []"
  defines "t \<equiv> s\<lparr>pp_split := gm_put (int b) blk (pp_split s), pp_crypto := (pp_crypto s)[i := CIdle]\<rparr>"
  shows "split_inv made t \<and> status_inv env U made t"
proof -
  have w: "CPush b blk [] \<in> set (pp_crypto s)" using assms(3,4) by (metis nth_mem)
  have old: "w' \<in> set (pp_crypto t)" if "w' \<in> set (pp_crypto s)" "w' \<noteq> CPush b blk []" for w'
    using that assms(3,4) by (simp add: t_def update_old)
  have from_old: "w' = CIdle \<or> w' \<in> set (pp_crypto s)" if "w' \<in> set (pp_crypto t)" for w'
    using that by (auto simp: t_def dest: update_mem)
  obtain shards all where m: "made b = Some (blk, shards, all)"
    using assms(1) w unfolding split_inv_def by blast
  have sp: "map_of (pp_split t) = (map_of (pp_split s))(int b \<mapsto> blk)" by (simp add: t_def map_of_gm_put)
  have "split_inv made t"
    unfolding split_inv_def
  proof (intro conjI allI impI)
    show "gomap_ok (pp_split t)" using assms(1) by (simp add: t_def split_inv_def gm_put_ok)
    show "\<exists>b shards jobs. i = int b \<and> made b = Some (blk', shards, jobs)" if "map_of (pp_split t) i = Some blk'" for i blk'
      using assms(1) that m unfolding sp split_inv_def by (metis fun_upd_apply option.inject)
    show "\<exists>shards jobs. made b' = Some (blk', shards, jobs) \<and> set js \<subseteq> set jobs" if "CPush b' blk' js \<in> set (pp_crypto t)" for b' blk' js
      using from_old[OF that] assms(1) by (auto simp: split_inv_def)
    show "map_of (pp_split t) (int b') = Some blk' \<or> (\<exists>js. CPush b' blk' js \<in> set (pp_crypto t))"
      if "made b' = Some (blk', shards', jobs')" for b' blk' shards' jobs'
    proof (cases "b' = b")
      case True
      then show ?thesis using m that by (simp add: sp)
    next
      case False
      have "map_of (pp_split s) (int b') = Some blk' \<or> (\<exists>js. CPush b' blk' js \<in> set (pp_crypto s))"
        using assms(1) that unfolding split_inv_def by blast
      then show ?thesis using old False by (auto simp: sp)
    qed
  qed
  moreover have "status_inv env U made t"
  proof (rule status_move[OF assms(2)])
    fix j assume "job_in made j" and j: "busy s j"
    have "CPush b' blk' js \<in> set (pp_crypto t)" if "CPush b' blk' js \<in> set (pp_crypto s)" "j \<in> set js" for b' blk' js
      using that old[OF that(1)] by (cases js) auto
    then show "lossy env U \<or> pp_success t (job_id j) \<noteq> None \<or> busy t j"
      using j by (simp add: t_def busy_def) blast
  qed (simp_all add: t_def)
  ultimately show ?thesis by blast
qed

lemma take_request_inv:
  fixes sg :: bytes
  assumes "jobs_inv made s" "status_inv env U made s" "made_inv env U blocks made s"
    and "i < length (pp_upload s)" "pp_upload s ! i = UIdle" "pp_uploadJobs s = (req, nodes) # rest"
  defines "t \<equiv> s\<lparr>pp_uploadJobs := rest, pp_upload := (pp_upload s)[i := UTry (req\<lparr>crq_Signature := Some sg\<rparr>) nodes]\<rparr>"
  shows "jobs_inv made t \<and> status_inv env U made t"
proof -
  have job: "job_in made (req, nodes)" using assms(1,6) by (simp add: jobs_inv_def)
  then have sg: "req\<lparr>crq_Signature := None\<rparr> = req" using job_signature(1)[OF assms(3)] by fastforce
  have new: "UTry (req\<lparr>crq_Signature := Some sg\<rparr>) nodes \<in> set (pp_upload t)" using assms(4) by (simp add: t_def update_new)
  have old: "w \<in> set (pp_upload t)" if "w \<in> set (pp_upload s)" "w \<noteq> UIdle" for w
    using that assms(4,5) by (simp add: t_def update_old)
  have from_old: "w = UTry (req\<lparr>crq_Signature := Some sg\<rparr>) nodes \<or> w \<in> set (pp_upload s)" if "w \<in> set (pp_upload t)" for w
    using that by (auto simp: t_def dest: update_mem)
  have "jobs_inv made t"
    unfolding jobs_inv_def
  proof (intro conjI allI impI ballI)
    show "job_in made j" if "j \<in> set (pp_uploadJobs t)" for j
      using that assms(1,6) by (simp add: t_def jobs_inv_def)
    show "\<exists>job. job_in made job \<and> fst job = req'\<lparr>crq_Signature := None\<rparr> \<and> set nodes' \<subseteq> set (snd job)"
      if "UTry req' nodes' \<in> set (pp_upload t)" for req' nodes'
      using from_old[OF that] assms(1) job sg by (fastforce simp: jobs_inv_def)
  qed
  moreover have "status_inv env U made t"
  proof (rule status_move[OF assms(2)])
    fix j assume j: "busy s j"
    have new_busy: "busy t (req, nodes)" using busyI(3)[OF new, of "(req, nodes)"] sg by simp
    from j have "busy t j"
    proof (cases rule: busyE)
      case queued
      then show ?thesis using new_busy busyI(1)[of j t] assms(6) by (auto simp: t_def)
    next
      case (sealing b blk js)
      then show ?thesis by (intro busyI(2)[of b blk js]) (simp_all add: t_def)
    next
      case (trying req' nodes')
      then show ?thesis using busyI(3)[OF old[OF trying(1)]] by simp
    qed
    then show "lossy env U \<or> pp_success t (job_id j) \<noteq> None \<or> busy t j" by blast
  qed (simp_all add: t_def)
  ultimately show ?thesis by blast
qed

text \<open>What an upload worker tries is a job, and what its save leaves behind is that job's chunk.\<close>

lemma tried_job:
  assumes "jobs_inv made s" "made_inv env U blocks made s" "i < length (pp_upload s)" "pp_upload s ! i = UTry req nodes"
  obtains job where "job_in made job" "fst job = req\<lparr>crq_Signature := None\<rparr>" "set nodes \<subseteq> set (snd job)"
    "job_id job = crq_ChunkId req" "served (fst job) = served req"
proof -
  have "UTry req nodes \<in> set (pp_upload s)" using assms(3,4) by (metis nth_mem)
  then obtain job where "job_in made job" "fst job = req\<lparr>crq_Signature := None\<rparr>" "set nodes \<subseteq> set (snd job)"
    using assms(1) unfolding jobs_inv_def by blast
  then show ?thesis using that by (simp add: job_id_def)
qed

context uploading
begin

lemma save_net:
  assumes "net_inv U netok holds made s" "made_inv env U blocks made s" "job_in made job" "job_id job = crq_ChunkId req"
    "served (fst job) = served req" "save_at gnet a req (pp_client s) = (r, c1)"
  shows "netok c1" "holds c1 b (ul_uuid U k) = Some v \<Longrightarrow> \<exists>job. job_in made job \<and> job_id job = ul_uuid U k \<and> v = served (fst job)"
    "pp_success s k' = Some b' \<Longrightarrow> \<exists>job. job_in made job \<and> job_id job = k' \<and> b' \<in> set (snd job) \<and> holds c1 b' k' = Some (served (fst job))"
proof -
  have ok: "netok (pp_client s)" using assms(1) by (simp add: net_inv_def)
  have c1: "c1 = snd (save_at gnet a req (pp_client s))" using assms(6) by simp
  show "netok c1" using save_inv[OF ok] by (simp add: c1)
  have any: "holds c1 b k = holds (pp_client s) b k \<or> k = job_id job \<and> holds c1 b k = Some (served (fst job))" for b k
    using save_any[OF ok, of a req b k] assms(4,5) by (simp add: c1)
  show "\<exists>job. job_in made job \<and> job_id job = ul_uuid U k \<and> v = served (fst job)" if "holds c1 b (ul_uuid U k) = Some v"
    using any[of b "ul_uuid U k"] that assms(1,3) unfolding net_inv_def by (metis option.inject)
  show "\<exists>job. job_in made job \<and> job_id job = k' \<and> b' \<in> set (snd job) \<and> holds c1 b' k' = Some (served (fst job))"
    if k': "pp_success s k' = Some b'"
  proof -
    obtain j where j: "job_in made j" "job_id j = k'" "b' \<in> set (snd j)" "holds (pp_client s) b' k' = Some (served (fst j))"
      using assms(1) k' unfolding net_inv_def by blast
    then have "holds c1 b' k' = Some (served (fst j))"
      using any[of b' k'] job_unique[OF assms(2) ids_inj j(1) assms(3)] by auto
    then show ?thesis using j by blast
  qed
qed

lemma save_step:
  assumes "net_inv U netok holds made s" "made_inv env U blocks made s" "jobs_inv made s" "status_inv env U made s"
    and "i < length (pp_upload s)" "pp_upload s ! i = UTry req (a # nodes)" "save_at gnet a req (pp_client s) = (r, c1)" "saved r"
  defines "t \<equiv> s\<lparr>pp_success := (pp_success s)(crq_ChunkId req \<mapsto> a), pp_client := c1, pp_upload := (pp_upload s)[i := UIdle]\<rparr>"
  shows "jobs_inv made t \<and> status_inv env U made t \<and> net_inv U netok holds made t"
proof -
  obtain job where job: "job_in made job" "fst job = req\<lparr>crq_Signature := None\<rparr>" "set (a # nodes) \<subseteq> set (snd job)"
    "job_id job = crq_ChunkId req" "served (fst job) = served req"
    using tried_job[OF assms(3,2,5,6)] by metis
  note net = save_net[OF assms(1,2) job(1,4,5) assms(7)]
  have old: "w \<in> set (pp_upload t)" if "w \<in> set (pp_upload s)" "w \<noteq> UTry req (a # nodes)" for w
    using that assms(5,6) by (simp add: t_def update_old)
  have "jobs_inv made t"
    using assms(3) by (auto simp: jobs_inv_def t_def dest: update_mem)
  moreover have "status_inv env U made t"
  proof (rule status_move[OF assms(4)])
    fix j assume j: "job_in made j" "busy s j"
    show "lossy env U \<or> pp_success t (job_id j) \<noteq> None \<or> busy t j"
    proof (cases "job_id j = crq_ChunkId req")
      case False
      from j(2) have "busy t j"
      proof (cases rule: busyE)
        case (trying req' nodes')
        then have "UTry req' nodes' \<noteq> UTry req (a # nodes)" using False by (auto simp: job_id_def)
        then show ?thesis using busyI(3)[OF old[OF trying(1)]] trying(2) by blast
      qed (auto simp: t_def intro: busyI)
      then show ?thesis by blast
    qed (simp add: t_def)
  qed (auto simp: t_def)
  moreover have "net_inv U netok holds made t"
  proof -
    obtain rsp where "r = Inr rsp" "rpc_Success rsp" using assms(8) by (auto simp: saved_def split: sum.splits)
    then have "holds c1 a (crq_ChunkId req) = Some (served (fst job))"
      using save_ok[of "pp_client s" a req rsp c1] assms(1,7) job(5) by (simp add: net_inv_def)
    then have own: "\<exists>job. job_in made job \<and> job_id job = crq_ChunkId req \<and> a \<in> set (snd job)
        \<and> holds c1 a (crq_ChunkId req) = Some (served (fst job))"
      using job(1,3,4) by (intro exI[of _ job]) simp
    show ?thesis
      unfolding net_inv_def
    proof (intro conjI allI impI)
      show "netok (pp_client t)" using net(1) by (simp add: t_def)
      show "\<exists>job. job_in made job \<and> job_id job = ul_uuid U k \<and> v = served (fst job)"
        if "holds (pp_client t) b (ul_uuid U k) = Some v" for b k v using net(2) that by (simp add: t_def)
      show "\<exists>job. job_in made job \<and> job_id job = k \<and> b \<in> set (snd job) \<and> holds (pp_client t) b k = Some (served (fst job))"
        if "pp_success t k = Some b" for k b
        using own net(3)[of k b] that by (cases "k = crq_ChunkId req") (simp_all add: t_def)
    qed
  qed
  ultimately show ?thesis by blast
qed

lemma next_step:
  assumes "net_inv U netok holds made s" "made_inv env U blocks made s" "jobs_inv made s" "status_inv env U made s"
    and "i < length (pp_upload s)" "pp_upload s ! i = UTry req (a # nodes)" "save_at gnet a req (pp_client s) = (r, c1)"
  defines "t \<equiv> s\<lparr>pp_client := c1, pp_upload := (pp_upload s)[i := UTry req nodes]\<rparr>"
  shows "jobs_inv made t \<and> status_inv env U made t \<and> net_inv U netok holds made t"
proof -
  obtain job where job: "job_in made job" "fst job = req\<lparr>crq_Signature := None\<rparr>" "set (a # nodes) \<subseteq> set (snd job)"
    "job_id job = crq_ChunkId req" "served (fst job) = served req"
    using tried_job[OF assms(3,2,5,6)] by metis
  note net = save_net[OF assms(1,2) job(1,4,5) assms(7)]
  have old: "w \<in> set (pp_upload t)" if "w \<in> set (pp_upload s)" "w \<noteq> UTry req (a # nodes)" for w
    using that assms(5,6) by (simp add: t_def update_old)
  have new: "UTry req nodes \<in> set (pp_upload t)" using assms(5) by (simp add: t_def update_new)
  have from_old: "w = UTry req nodes \<or> w \<in> set (pp_upload s)" if "w \<in> set (pp_upload t)" for w
    using that by (auto simp: t_def dest: update_mem)
  have "jobs_inv made t"
    unfolding jobs_inv_def
  proof (intro conjI allI impI ballI)
    show "job_in made j" if "j \<in> set (pp_uploadJobs t)" for j using that assms(3) by (simp add: t_def jobs_inv_def)
    show "\<exists>job. job_in made job \<and> fst job = req'\<lparr>crq_Signature := None\<rparr> \<and> set nodes' \<subseteq> set (snd job)"
      if "UTry req' nodes' \<in> set (pp_upload t)" for req' nodes'
    proof (cases "UTry req' nodes' = UTry req nodes")
      case True
      then show ?thesis using job(1-3) by (intro exI[of _ job]) simp
    next
      case False
      then have "UTry req' nodes' \<in> set (pp_upload s)" using from_old[OF that] by blast
      then show ?thesis using assms(3) unfolding jobs_inv_def by blast
    qed
  qed
  moreover have "status_inv env U made t"
  proof (rule status_move[OF assms(4)])
    fix j assume j: "busy s j"
    from j have "busy t j"
    proof (cases rule: busyE)
      case (trying req' nodes')
      then show ?thesis
        using busyI(3)[OF new, of j] busyI(3)[OF old[OF trying(1)], of j] by (cases "UTry req' nodes' = UTry req (a # nodes)") auto
    qed (auto simp: t_def intro: busyI)
    then show "lossy env U \<or> pp_success t (job_id j) \<noteq> None \<or> busy t j" by blast
  qed (simp_all add: t_def)
  moreover have "net_inv U netok holds made t"
    using net unfolding net_inv_def t_def by auto
  ultimately show ?thesis by blast
qed

lemma take_step:
  assumes "pipe_inv env U netok holds blocks made s" "fair c" "i < length (pp_crypto s)" "pp_crypto s ! i = CIdle"
    and "pp_cryptoJobs s = (b, data) # rest" "seal_block env U c (pp_ids s) data = Inr (blk, jobs)"
  defines "t \<equiv> s\<lparr>pp_cryptoJobs := rest, pp_ids := pp_ids s + 5, pp_crypto := (pp_crypto s)[i := CPush b blk jobs]\<rparr>"
  shows "\<exists>shards. made_inv env U blocks (made(b \<mapsto> (blk, shards, jobs))) t \<and> split_inv (made(b \<mapsto> (blk, shards, jobs))) t
    \<and> jobs_inv (made(b \<mapsto> (blk, shards, jobs))) t \<and> status_inv env U (made(b \<mapsto> (blk, shards, jobs))) t
    \<and> net_inv U netok holds (made(b \<mapsto> (blk, shards, jobs))) t"
proof -
  have inv: "queue_inv blocks s" "made_inv env U blocks made s" "split_inv made s" "jobs_inv made s" "status_inv env U made s"
    "net_inv U netok holds made s" using assms(1) by (simp_all add: pipe_inv_def)
  obtain shards where ok: "made_ok env U blocks b blk shards jobs" using made_sealed[OF inv(1) assms(5,2,6)] by blast
  let ?made = "made(b \<mapsto> (blk, shards, jobs))"
  note tk = take_made[OF inv(2,1) assms(5)]
  have b: "b = taken s" "taken t = Suc (taken s)"
    using queue_head(1)[OF inv(1) assms(5)] by (simp_all add: taken_def t_def)
  have old: "w \<in> set (pp_crypto t)" if "w \<in> set (pp_crypto s)" "w \<noteq> CIdle" for w
    using that assms(3,4) by (simp add: t_def update_old)
  have new: "CPush b blk jobs \<in> set (pp_crypto t)" using assms(3) by (simp add: t_def update_new)
  have "made_inv env U blocks ?made t"
    using inv(2) ok b by (auto simp: made_inv_def t_def less_Suc_eq split: if_splits)
  moreover have "split_inv ?made t" by (rule take_split[OF inv(3) tk(1) assms(3,4)]) (simp_all add: t_def)
  moreover have "jobs_inv ?made t" by (rule jobs_mono[OF inv(4) tk(2)]) (simp_all add: t_def)
  moreover have "status_inv env U ?made t"
    unfolding status_inv_def
  proof (intro allI impI)
    fix j assume "job_in ?made j"
    then consider "job_in made j" | "j \<in> set jobs" using tk(3) by blast
    then show "pp_err t \<noteq> None \<or> lossy env U \<or> pp_success t (job_id j) \<noteq> None \<or> busy t j"
    proof cases
      case 1
      have "busy t j" if "busy s j" using that
      proof (cases rule: busyE)
        case (sealing b' blk' js)
        then show ?thesis using busyI(2)[OF old[OF sealing(1)]] by simp
      qed (auto simp: t_def intro: busyI)
      moreover have "pp_err t = pp_err s" "pp_success t = pp_success s" by (simp_all add: t_def)
      moreover have "pp_err s \<noteq> None \<or> lossy env U \<or> pp_success s (job_id j) \<noteq> None \<or> busy s j"
        using inv(5) 1 unfolding status_inv_def by blast
      ultimately show ?thesis by auto
    qed (use busyI(2)[OF new] in blast)
  qed
  moreover have "net_inv U netok holds ?made t" by (rule net_mono[OF inv(6) tk(2)]) (simp_all add: t_def)
  ultimately show ?thesis by blast
qed

lemma inv_step: "pipe_step env U gnet s t \<Longrightarrow> pipe_inv env U netok holds blocks made s \<Longrightarrow> \<exists>made'. pipe_inv env U netok holds blocks made' t"
proof -
  assume st: "pipe_step env U gnet s t" and inv: "pipe_inv env U netok holds blocks made s"
  note i = inv[unfolded pipe_inv_def]
  have q: "queue_inv blocks t" "phase_inv t" using queue_step[OF st] phase_step[OF st] i by blast+
  from st have "\<exists>made'. made_inv env U blocks made' t \<and> split_inv made' t \<and> jobs_inv made' t \<and> status_inv env U made' t
      \<and> net_inv U netok holds made' t"
  proof (cases rule: pipe_step.cases)
    case (crypto_take i b data rest c blk jobs)
    then show ?thesis using take_step[OF inv crypto_take(6,3,4,5,7)] by blast
  next
    case (crypto_error i b data rest c e)
    have e: "taken t = Suc (taken s)" "pp_err t \<noteq> None" by (simp_all add: crypto_error(1) taken_def)
    then have "made_inv env U blocks made t" using i unfolding made_inv_def by (auto intro: less_SucI)
    moreover have "split_inv made t" "jobs_inv made t" "net_inv U netok holds made t"
      using i crypto_error(1) by (auto intro: frames)
    ultimately show ?thesis using status_error[OF e(2)] by blast
  next
    case (crypto_push i b blk job jobs)
    then show ?thesis using i push_inv[of made s env U i b blk job jobs] by (intro exI[of _ made] conjI) (auto intro: frames)
  next
    case (crypto_store i b blk)
    then show ?thesis using i store_inv[of made s env U i b blk] by (intro exI[of _ made] conjI) (auto intro: frames)
  next
    case (upload_take i req nodes rest re signature)
    then show ?thesis using i take_request_inv[of made s env U blocks i req nodes rest signature] by (intro exI[of _ made] conjI) (auto intro: frames)
  next
    case (upload_skip i req nodes rest re e)
    then have "lossy env U" by (auto simp: lossy_def)
    moreover have "jobs_inv made t" using i upload_skip by (auto simp: jobs_inv_def)
    ultimately show ?thesis using i upload_skip by (intro exI[of _ made] conjI) (auto intro: frames simp: status_inv_def)
  next
    case (upload_saved i req nodeAddr nodes r client1)
    then show ?thesis using i save_step[of made s i req nodeAddr nodes r client1] by (intro exI[of _ made] conjI) (auto intro: frames)
  next
    case (upload_next i req nodeAddr nodes r client1)
    then show ?thesis using i next_step[of made s i req nodeAddr nodes r client1] by (intro exI[of _ made] conjI) (auto intro: frames)
  next
    case (upload_failed i req)
    have e: "pp_err t \<noteq> None" "pp_ids t = pp_ids s" by (simp_all add: upload_failed(1))
    have "made_inv env U blocks made t" by (rule made_frame[OF _ e(2)]) (use i e(1) in blast)+
    moreover have "jobs_inv made t" using i upload_failed(1) by (auto simp: jobs_inv_def dest: update_mem)
    moreover have "split_inv made t" "net_inv U netok holds made t"
      using i upload_failed(1) by (auto intro: frames)
    ultimately show ?thesis using status_error[OF e(1)] by blast
  qed (use i in \<open>intro exI[of _ made] conjI; auto intro: frames\<close>)+
  then show ?thesis using q unfolding pipe_inv_def by blast
qed

end

end
