(* ===== verification/Upload_Result.thy ===== *)
theory Upload_Result
  imports Upload_Invariant
begin

text \<open>
  What an upload leaves behind when all workers are done without an error: the manifest that is
  sent describes the file in the sense of \<open>sealed_file\<close>, and every chunk is on a node that the manifest
  names, so that the download theorems apply.
\<close>

subsection \<open>The last state\<close>

context uploading
begin

lemma start_inv:
  assumes "0 < nc" "0 < nu" "netok client" "\<And>a k. holds client a (ul_uuid U k) = None"
  shows "pipe_inv env U netok holds blocks Map.empty (start_pipe U nc nu (map Inr blocks) client)"
  using assms coder by (auto simp: pipe_inv_def inv_defs start_pipe_def Let_def job_in_def)

lemma run_inv:
  assumes "pipe_run env U gnet s t" "pipe_inv env U netok holds blocks made s"
  shows "\<exists>made'. pipe_inv env U netok holds blocks made' t"
  using run_invariant[OF assms(1), of "\<lambda>s. \<exists>made. pipe_inv env U netok holds blocks made s"] inv_step assms(2) by blast

lemma joined_blocks:
  assumes "pipe_inv env U netok holds blocks made s" "pp_phase s = Joined" "pp_err s = None" "b < length blocks"
  obtains blk shards jobs where "map_of (pp_split s) (int b) = Some blk" "made b = Some (blk, shards, jobs)"
    "made_ok env U blocks b blk shards jobs"
proof -
  have q: "pp_input s = []" "pp_cryptoJobs s = []" "\<forall>w \<in> set (pp_crypto s). w = CIdle"
    using assms(1,2) by (auto simp: pipe_inv_def phase_inv_def)
  have "queue_inv blocks s" using assms(1) by (simp add: pipe_inv_def)
  then have "taken s = length blocks" using q(1,2) by (auto simp: queue_inv_def)
  then obtain blk shards jobs where m: "made b = Some (blk, shards, jobs)"
    using assms(1,3,4) unfolding pipe_inv_def made_inv_def by (metis surj_pair not_None_eq)
  moreover have "made_ok env U blocks b blk shards jobs"
    using assms(1) m unfolding pipe_inv_def made_inv_def by blast
  moreover have "map_of (pp_split s) (int b) = Some blk"
    using assms(1) m q(3) unfolding pipe_inv_def split_inv_def by blast
  ultimately show ?thesis using that by blast
qed

lemma joined_held:
  assumes "pipe_inv env U netok holds blocks made s" "pp_phase s = Joined" "pp_err s = None" "\<not> lossy env U" "job_in made job"
  shows "\<exists>a \<in> set (snd job). holds (pp_client s) a (job_id job) = Some (served (fst job))"
proof -
  have "pp_uploadJobs s = []" "\<forall>w \<in> set (pp_upload s). w = UIdle" "\<forall>w \<in> set (pp_crypto s). w = CIdle"
    using assms(1,2) by (auto simp: pipe_inv_def phase_inv_def)
  then have "\<not> busy s job" by (auto elim!: busyE)
  then obtain a where "pp_success s (job_id job) = Some a"
    using assms(1,3-5) unfolding pipe_inv_def status_inv_def by blast
  then obtain job' where "job_in made job'" "job_id job' = job_id job" "a \<in> set (snd job')"
    "holds (pp_client s) a (job_id job) = Some (served (fst job'))"
    using assms(1) unfolding pipe_inv_def net_inv_def by blast
  moreover have "job' = job"
    using job_unique[OF _ ids_inj \<open>job_in made job'\<close> assms(5) \<open>job_id job' = job_id job\<close>] assms(1) unfolding pipe_inv_def by blast
  ultimately show ?thesis by blast
qed

end

text \<open>Strings that survive the way through JSON and gRPC.\<close>

definition clean_upload :: "'e env \<Rightarrow> upload \<Rightarrow> bool" where
  "clean_upload env U \<longleftrightarrow> utf8_ok (self_address (env_cfg env)) \<and> utf8_ok (ul_fileId U) \<and> utf8_ok (ul_releaseTime U)
     \<and> (\<forall>k. utf8_ok (ul_uuid U k))"

lemma job_request_ok:
  assumes "clean_upload env U" "job_of env U ch shard job" "elems shard \<noteq> []" "chk_ChunkId ch = ul_uuid U k"
  shows "ok_ChunkRequest (fst job)" "crq_ChunkId (fst job) = chk_ChunkId ch" "pb_bytes (crq_Shard (fst job)) = shard"
proof -
  obtain t where t: "in_int64 t" "fst job = chunk_request env U t (chk_ChunkId ch) shard" using assms(2) by (auto simp: job_of_def)
  show "ok_ChunkRequest (fst job)" using t assms(1,4) by (simp add: ok_ChunkRequest_def chunk_request_def clean_upload_def)
  show "crq_ChunkId (fst job) = chk_ChunkId ch" by (simp add: t(2) chunk_request_def)
  show "pb_bytes (crq_Shard (fst job)) = shard"
    using assms(3) by (cases shard) (simp_all add: t(2) chunk_request_def pb_bytes_def)
qed

text \<open>Later states of the nodes: chunks of the upload may be gone, but none is another.\<close>

definition only_lost :: "upload \<Rightarrow> (bytes \<Rightarrow> bytes \<Rightarrow> bytes option) \<Rightarrow> (bytes \<Rightarrow> bytes \<Rightarrow> bytes option) \<Rightarrow> bool" where
  "only_lost U h h' \<longleftrightarrow> (\<forall>a k. h' a (ul_uuid U k) = None \<or> h' a (ul_uuid U k) = h a (ul_uuid U k))"

context uploading
begin

lemma joined_honest:
  assumes "pipe_inv env U netok holds blocks made s" "clean_upload env U" "made b = Some (blk, shards, jobs)"
    "made_ok env U blocks b blk shards jobs"
  shows "honest (holds (pp_client s)) blk shards"
  unfolding honest_def
proof (intro allI impI)
  obtain parts where sealed: "sealed (ul_libs U) (env_C env) DataShards ParityShards (ul_round U) (blocks ! b) blk shards parts"
    using assms(4) by (auto simp: made_ok_def)
  have coded: "coded blk shards parts" by (rule sealed_coded(1)[OF sealed coder])
  fix j addr v
  assume j: "j < length shards" and h: "holds (pp_client s) addr (chk_ChunkId (elems (blk_Chunks blk) ! j)) = Some v"
  have five: "length shards = 5" "length jobs = 5" using assms(4) by (simp_all add: made_ok_def)
  then have job: "jobs ! j \<in> set jobs" "job_in made (jobs ! j)" using j job_inI[of made, OF assms(3)] by simp_all
  have jo: "job_of env U (elems (blk_Chunks blk) ! j) (shards ! j) (jobs ! j)" using assms(4) j five by (simp add: made_ok_def)
  have id: "chk_ChunkId (elems (blk_Chunks blk) ! j) = ul_uuid U (5 * b + j)"
  proof -
    have ids: "map chk_ChunkId (elems (blk_Chunks blk)) = map (\<lambda>j. ul_uuid U (5 * b + j)) [0..<5]"
      using assms(4) by (simp add: made_ok_def)
    have "length (elems (blk_Chunks blk)) = 5" using coded five by (simp add: coded_def)
    then show ?thesis using arg_cong[OF ids, of "\<lambda>l. l ! j"] j five by simp
  qed
  note ok = job_request_ok[OF assms(2) jo _ id]
  have shard: "elems (shards ! j) \<noteq> []" using coded j by (simp add: coded_def)
  obtain job' where job': "job_in made job'" "job_id job' = ul_uuid U (5 * b + j)" "v = served (fst job')"
    using assms(1) h unfolding id pipe_inv_def net_inv_def by blast
  have "job_id job' = job_id (jobs ! j)" using job'(2) ok(2)[OF shard] id by (simp add: job_id_def)
  then have "job' = jobs ! j"
    using job_unique[OF _ ids_inj job'(1) job(2)] assms(1) unfolding pipe_inv_def by blast
  then show "\<exists>req. v = served req \<and> ok_ChunkRequest req \<and> crq_ChunkId req = chk_ChunkId (elems (blk_Chunks blk) ! j)
      \<and> pb_bytes (crq_Shard req) = shards ! j"
    using ok[OF shard] job'(3) by blast
qed

lemma joined_obtainable:
  assumes "pipe_inv env U netok holds blocks made s" "pp_phase s = Joined" "pp_err s = None" "\<not> lossy env U"
    "made b = Some (blk, shards, jobs)" "made_ok env U blocks b blk shards jobs"
  shows "obtainable (holds (pp_client s)) blk = 5"
proof -
  have n: "length (elems (blk_Chunks blk)) = 5"
  proof -
    have ids: "map chk_ChunkId (elems (blk_Chunks blk)) = map (\<lambda>j. ul_uuid U (5 * b + j)) [0..<5]"
      using assms(6) by (simp add: made_ok_def)
    show ?thesis using arg_cong[OF ids, of length] by (simp only: length_map length_upt)
  qed
  have "available (holds (pp_client s)) c" if c: "c \<in> set (elems (blk_Chunks blk))" for c
  proof -
    obtain j where j: "j < 5" "c = elems (blk_Chunks blk) ! j" using c n by (metis in_set_conv_nth)
    have jo: "job_of env U c (shards ! j) (jobs ! j)" "jobs ! j \<in> set jobs" using assms(6) j by (simp_all add: made_ok_def)
    have "job_in made (jobs ! j)" by (rule job_inI[of made, OF assms(5) jo(2)])
    from joined_held[OF assms(1-4) this] obtain a where a: "a \<in> set (snd (jobs ! j))"
      "holds (pp_client s) a (job_id (jobs ! j)) = Some (served (fst (jobs ! j)))" by blast
    moreover have "job_id (jobs ! j) = chk_ChunkId c" "elems (chk_Nodes c) = snd (jobs ! j)"
      using jo(1) by (auto simp: job_of_def job_id_def chunk_request_def)
    ultimately show ?thesis unfolding available_def by (metis option.distinct(1))
  qed
  then have "filter (available (holds (pp_client s))) (elems (blk_Chunks blk)) = elems (blk_Chunks blk)" by simp
  then show ?thesis by (simp add: obtainable_def n)
qed

text \<open>With few nodes one of them has many of the chunks of a block.\<close>

lemma joined_concentrated:
  assumes "pipe_inv env U netok holds blocks made s" "pp_phase s = Joined" "pp_err s = None" "\<not> lossy env U"
    "made b = Some (blk, shards, jobs)" "made_ok env U blocks b blk shards jobs" "length (ul_nodes U) \<le> 2"
  shows "\<exists>a. 3 \<le> length (filter (\<lambda>c. holds (pp_client s) a (chk_ChunkId c) \<noteq> None) (elems (blk_Chunks blk)))"
proof -
  let ?cs = "elems (blk_Chunks blk)"
  let ?at = "\<lambda>a. {j. j < 5 \<and> holds (pp_client s) a (chk_ChunkId (?cs ! j)) \<noteq> None}"
  have "map chk_ChunkId ?cs = map (\<lambda>j. ul_uuid U (5 * b + j)) [0..<5]" using assms(6) by (simp add: made_ok_def)
  from arg_cong[OF this, of length] have n: "length ?cs = 5" by (simp only: length_map length_upt)
  have "\<exists>a \<in> set (ul_nodes U). j \<in> ?at a" if j: "j < 5" for j
  proof -
    have jo: "job_of env U (?cs ! j) (shards ! j) (jobs ! j)" "jobs ! j \<in> set jobs" using assms(6) j by (simp_all add: made_ok_def)
    have "job_in made (jobs ! j)" by (rule job_inI[of made, OF assms(5) jo(2)])
    from joined_held[OF assms(1-4) this] obtain a where "a \<in> set (snd (jobs ! j))"
      "holds (pp_client s) a (job_id (jobs ! j)) = Some (served (fst (jobs ! j)))" by blast
    moreover have "job_id (jobs ! j) = chk_ChunkId (?cs ! j)" "set (snd (jobs ! j)) \<subseteq> set (ul_nodes U)"
      using jo(1) by (auto simp: job_of_def job_id_def chunk_request_def)
    ultimately show ?thesis using j by auto
  qed
  then have "{..<5} \<subseteq> (\<Union>a \<in> set (ul_nodes U). ?at a)" by blast
  then have "card {..<5::nat} \<le> card (\<Union>a \<in> set (ul_nodes U). ?at a)" by (intro card_mono) auto
  also have "\<dots> \<le> (\<Sum>a \<in> set (ul_nodes U). card (?at a))" by (rule card_UN_le) simp
  finally have five: "5 \<le> (\<Sum>a \<in> set (ul_nodes U). card (?at a))" by simp
  have "\<exists>a \<in> set (ul_nodes U). 3 \<le> card (?at a)"
  proof (rule ccontr)
    assume "\<not> ?thesis"
    then have "card (?at a) \<le> 2" if "a \<in> set (ul_nodes U)" for a using that by fastforce
    then have "(\<Sum>a \<in> set (ul_nodes U). card (?at a)) \<le> card (set (ul_nodes U)) * 2"
      using sum_bounded_above[of "set (ul_nodes U)" "\<lambda>a. card (?at a)" 2] by simp
    moreover have "card (set (ul_nodes U)) \<le> 2" using card_length[of "ul_nodes U"] assms(7) by simp
    ultimately show False using five by linarith
  qed
  then show ?thesis by (auto simp: length_filter_conv_card n)
qed

lemma made_ids:
  assumes "made_ok env U blocks b blk shards jobs"
  shows "chk_ChunkId ` set (elems (blk_Chunks blk)) \<subseteq> range (ul_uuid U)" "length (elems (blk_Chunks blk)) = length shards"
proof -
  have ids: "map chk_ChunkId (elems (blk_Chunks blk)) = map (\<lambda>j. ul_uuid U (5 * b + j)) [0..<5]"
    using assms by (simp add: made_ok_def)
  show "chk_ChunkId ` set (elems (blk_Chunks blk)) \<subseteq> range (ul_uuid U)"
    using arg_cong[OF ids, of set] by (simp only: set_map) blast
  show "length (elems (blk_Chunks blk)) = length shards"
    using arg_cong[OF ids, of length] assms by (simp only: length_map length_upt) (simp add: made_ok_def)
qed

lemma honest_later:
  assumes "honest h blk shards" "only_lost U h h'" "made_ok env U blocks b blk shards jobs"
  shows "honest h' blk shards"
  unfolding honest_def
proof (intro allI impI)
  fix j addr v
  let ?id = "chk_ChunkId (elems (blk_Chunks blk) ! j)"
  assume j: "j < length shards" and h: "h' addr ?id = Some v"
  have "?id \<in> range (ul_uuid U)" using made_ids[OF assms(3)] j by (metis image_subset_iff nth_mem)
  then obtain k where k: "?id = ul_uuid U k" by blast
  have "h addr ?id = Some v" using assms(2)[unfolded only_lost_def, rule_format, of addr k] h unfolding k by simp
  then show "\<exists>req. v = served req \<and> ok_ChunkRequest req \<and> crq_ChunkId req = ?id \<and> pb_bytes (crq_Shard req) = shards ! j"
    using assms(1) j unfolding honest_def by blast
qed

lemma joined_sealed_file:
  assumes "pipe_inv env U netok holds blocks made s" "pp_phase s = Joined" "pp_err s = None" "clean_upload env U"
    and "man_Split m = Some (pp_split s)" "man_Blocks m = int (length blocks)"
    and "man_ReedSolomonConfig m = \<lparr>rsc_DataShards = DataShards, rsc_ParityShards = ParityShards\<rparr>"
    and "only_lost U (holds (pp_client s)) h"
  shows "sealed_file (ul_libs U) (env_C env) h (ul_round U) m blocks
    \<and> (\<not> lossy env U \<longrightarrow> (\<forall>i < length blocks. obtainable (holds (pp_client s)) (block_of m (int i)) = 5))"
proof -
  have one: "(\<exists>shards parts. sealed (ul_libs U) (env_C env) DataShards ParityShards (ul_round U) (blocks ! i) (block_of m (int i)) shards parts
        \<and> honest h (block_of m (int i)) shards)
      \<and> (\<not> lossy env U \<longrightarrow> obtainable (holds (pp_client s)) (block_of m (int i)) = 5)" if i: "i < length blocks" for i
  proof -
    obtain blk shards jobs where b: "map_of (pp_split s) (int i) = Some blk" "made i = Some (blk, shards, jobs)"
      "made_ok env U blocks i blk shards jobs" using joined_blocks[OF assms(1-3) i] by metis
    have "block_of m (int i) = blk" by (simp add: block_of_def assms(5) b(1))
    moreover have "honest h blk shards"
      by (rule honest_later[OF joined_honest[OF assms(1,4) b(2,3)] assms(8) b(3)])
    ultimately show ?thesis
      using joined_obtainable[OF assms(1-3) _ b(2,3)] b(3) by (auto simp: made_ok_def)
  qed
  then show ?thesis using assms(6,7) coder by (simp add: sealed_file_def)
qed

text \<open>The entries of the manifest are values that its JSON can carry.\<close>

lemma made_block_ok:
  assumes "made_ok env U blocks b blk shards jobs" "clean_upload env U" "\<forall>a \<in> set (ul_nodes U). utf8_ok a"
    and "\<forall>k n x. length (gcm_seal (env_C env) k n x) \<le> length x + 16" "length (blocks ! b) < 2 ^ 62"
  shows "ok_FileBlock blk"
proof -
  obtain key nonce where k: "length nonce = nonceSize"
    "blk_EncryptedBlockSize blk = int (length nonce + length (gcm_seal (env_C env) key nonce (blocks ! b)))"
    using assms(1) by (auto simp: made_ok_def sealed_size_def)
  have "length (gcm_seal (env_C env) key nonce (blocks ! b)) \<le> length (blocks ! b) + 16" using assms(4) by blast
  then have size: "in_int64 (blk_EncryptedBlockSize blk)" using k assms(5) by (simp add: in_int64_def nonceSize_def)
  have five: "length shards = 5" using assms(1) by (simp add: made_ok_def)
  have "ok_Chunk ch" if ch: "ch \<in> set (elems (blk_Chunks blk))" for ch
  proof -
    obtain j where j: "j < 5" "ch = elems (blk_Chunks blk) ! j" using ch made_ids(2)[OF assms(1)] five by (metis in_set_conv_nth)
    have "job_of env U ch (shards ! j) (jobs ! j)" using assms(1) j by (simp add: made_ok_def)
    then have "ok_strs (chk_Nodes ch)" using assms(3) by (auto simp: job_of_def ok_strs_def list_all_iff)
    moreover have "chk_ShardIndex ch = int j"
    proof -
      have ix: "map chk_ShardIndex (elems (blk_Chunks blk)) = map int [0..<length shards]"
        using assms(1) by (auto simp: made_ok_def sealed_def)
      show ?thesis using arg_cong[OF ix, of "\<lambda>l. l ! j"] j five made_ids(2)[OF assms(1)] by simp
    qed
    moreover have "utf8_ok (chk_ChunkId ch)" using made_ids(1)[OF assms(1)] ch assms(2) by (auto simp: clean_upload_def)
    ultimately show ?thesis using j by (simp add: ok_Chunk_def in_int64_def)
  qed
  then show ?thesis using size by (simp add: ok_FileBlock_def ok_Chunks_def list_all_iff)
qed

lemma joined_split_ok:
  assumes "pipe_inv env U netok holds blocks made s" "clean_upload env U" "\<forall>a \<in> set (ul_nodes U). utf8_ok a"
    and "\<forall>k n x. length (gcm_seal (env_C env) k n x) \<le> length x + 16"
    and "\<forall>b \<in> set blocks. length b < 2 ^ 62" "length blocks < 2 ^ 63"
  shows "ok_Split (Some (pp_split s))"
proof -
  have g: "gomap_ok (pp_split s)" using assms(1) by (simp add: pipe_inv_def split_inv_def)
  have "in_int64 i \<and> ok_FileBlock blk" if "(i, blk) \<in> set (pp_split s)" for i blk
  proof -
    have "map_of (pp_split s) i = Some blk" using g that by (simp add: gomap_ok_def strict_sorted_iff)
    then obtain b shards jobs where b: "i = int b" "made b = Some (blk, shards, jobs)"
      using assms(1) unfolding pipe_inv_def split_inv_def by blast
    have lt: "b < length blocks"
      using assms(1) b(2) unfolding pipe_inv_def made_inv_def queue_inv_def by (metis le_trans option.distinct(1) order_less_le_trans)
    moreover have "made_ok env U blocks b blk shards jobs" using assms(1) b(2) unfolding pipe_inv_def made_inv_def by blast
    ultimately show ?thesis using made_block_ok[OF _ assms(2-4)] assms(5,6) b(1) by (auto simp: in_int64_def)
  qed
  then show ?thesis using g by (auto simp: ok_Split_def list_all_iff)
qed

end

end
