(* ===== verification/File_Upload.thy ===== *)
theory File_Upload
  imports Upload_Result
begin

text \<open>
  \<open>StreamAndUploadFile\<close> of \<open>internal/service/file_management.go\<close> as a whole: what happens before the
  workers start (\<open>prepare_upload\<close>), the workers (\<open>Upload_Pipeline\<close>), and what happens after
  (\<open>finish_upload\<close>). \<open>uploads\<close> relates the arguments of a call to what it can return and leave behind.
\<close>

subsection \<open>Before the workers\<close>

text \<open>The file: its content, and the errors of the calls on it; the second reading can fail at a block.\<close>

record source =
  src_content :: bytes
  src_hash_err :: "string option"
  src_seek_err :: "string option"
  src_stat_err :: "string option"
  src_read_err :: "(nat \<times> string) option"

definition hex_digit :: "nat \<Rightarrow> char" where
  "hex_digit n = ''0123456789abcdef'' ! (n mod 16)"

definition hex_encode :: "bytes \<Rightarrow> bytes" where
  "hex_encode b = concat (map (\<lambda>c. [hex_digit (of_char c div 16), hex_digit (of_char c mod 16)]) b)"

text \<open>Go's division of \<open>int64\<close> values rounds towards zero, and panics for a zero divisor.\<close>

definition go_div :: "int \<Rightarrow> int \<Rightarrow> int res" where
  "go_div a b = (if b = 0 then Inl (Panic ''integer divide by zero'') else Inr (wrap64 (sgn a * sgn b * (\<bar>a\<bar> div \<bar>b\<bar>))))"

definition total_blocks :: "int \<Rightarrow> int \<Rightarrow> int res" where
  "total_blocks fileSize blockSize =
     res_bind (go_div (wrap64 (wrap64 (fileSize + blockSize) - 1)) blockSize) (\<lambda>n. Inr (if n = 0 then 1 else n))"

definition source_input :: "nat \<Rightarrow> source \<Rightarrow> (string + bytes) list" where
  "source_input blockSize f =
     (let blocks = read_blocks blockSize (src_content f) in
      case src_read_err f of None \<Rightarrow> map Inr blocks
      | Some (n, e) \<Rightarrow> map Inr (take n blocks) @ [Inl e])"

definition fail_if :: "string option \<Rightarrow> string \<Rightarrow> unit res" where
  "fail_if e msg = (case e of None \<Rightarrow> Inr () | Some _ \<Rightarrow> Inl (Err msg))"

definition new_manifest :: "crypto_lib \<Rightarrow> source \<Rightarrow> bytes \<Rightarrow> bytes \<Rightarrow> bytes \<Rightarrow> int \<Rightarrow> FileManifest" where
  "new_manifest C f filename fileId releaseTime totalBlocks =
     \<lparr>man_FileName = filename, man_FileId = fileId, man_FileSize = int (length (src_content f)), man_ReleaseDate = releaseTime,
      man_HashFile = hex_encode (sha256 C (src_content f)), man_HashAlgorithm = ''SHA256'', man_Blocks = totalBlocks,
      man_ChunksPerBlocks = TotalShards,
      man_ReedSolomonConfig = \<lparr>rsc_DataShards = DataShards, rsc_ParityShards = ParityShards\<rparr>, man_Split = Some []\<rparr>"

text \<open>The draws \<open>ra\<close>, \<open>rb\<close> and \<open>rc\<close> choose the bootstrap server and the two relays.\<close>

definition prepare_upload ::
  "'e env \<Rightarrow> file_lib \<Rightarrow> 'b net \<Rightarrow> (bytes \<Rightarrow> int option) \<Rightarrow> nat \<Rightarrow> nat \<Rightarrow> nat \<Rightarrow> source \<Rightarrow> int \<Rightarrow> bytes \<Rightarrow> 'b
    \<Rightarrow> (int \<times> bytes list \<times> nat) res \<times> 'b" where
  "prepare_upload env L net parse ra rb rc f blockSize releaseTime w =
     (case res_bind (fail_if (src_hash_err f) ''error hashing file'') (\<lambda>_.
           res_bind (fail_if (src_seek_err f) ''error seeking file'') (\<lambda>_.
           res_bind (fail_if (src_stat_err f) ''error getting file stats'') (\<lambda>_.
           total_blocks (int (length (src_content f))) blockSize))) of
        Inl e \<Rightarrow> (Inl e, w)
      | Inr totalBlocks \<Rightarrow>
     (case RequestNodesForFileUpload env net ra (wrap64 (totalBlocks * TotalShards)) w of
        (Inl (Panic p), w1) \<Rightarrow> (Inl (Panic p), w1)
      | (Inl (Err _), w1) \<Rightarrow> (Inl (Err ''failed to get nodes''), w1)
      | (Inr nodes, w1) \<Rightarrow>
     (case GetRoundForTime L parse rb releaseTime of
        Inl _ \<Rightarrow> (Inl (Err ''error getting drand round''), w1)
      | Inr drandRound \<Rightarrow>
          if \<not> tl_network L (relay rc) DrandChainHash then (Inl (Err ''drand network error''), w1)
          else (Inr (totalBlocks, elems nodes, drandRound), w1))))"

subsection \<open>After the workers\<close>

text \<open>
  The goroutines a rollback starts, one per successful upload; \<open>uploaded\<close> is the order in which
  \<open>Range\<close> walks the map.
\<close>

definition finish_upload ::
  "'e env \<Rightarrow> 'b net \<Rightarrow> nat \<Rightarrow> FileManifest \<Rightarrow> 'w pipe \<Rightarrow> (bytes \<times> bytes) list \<Rightarrow> 'b
    \<Rightarrow> fault option \<times> (bytes \<times> bytes) list \<times> 'b" where
  "finish_upload env net r fileManifest s uploaded w =
     (case pp_err s of
        Some _ \<Rightarrow> (Some (Err ''upload pipeline failed''), uploaded, w)
      | None \<Rightarrow>
     (case UploadFileManifest env net r fileManifest w of
        (Some (Panic p), w1) \<Rightarrow> (Some (Panic p), [], w1)
      | (Some (Err _), w1) \<Rightarrow> (Some (Err ''manifest upload failed''), uploaded, w1)
      | (None, w1) \<Rightarrow> (None, [], w1)))"

text \<open>One goroutine of the rollback.\<close>

definition run_deletion :: "'w gnet \<Rightarrow> bytes \<times> bytes \<Rightarrow> 'w client \<Rightarrow> string option \<times> 'w client" where
  "run_deletion gnet task s = RequestChunkDeletion gnet (snd task) (fst task) s"

text \<open>All of them, one after the other in the order they get to run; nobody looks at the errors.\<close>

fun run_deletions :: "'w gnet \<Rightarrow> (bytes \<times> bytes) list \<Rightarrow> 'w client \<Rightarrow> string option list \<times> 'w client" where
  "run_deletions gnet [] s = ([], s)"
| "run_deletions gnet (task # tasks) s =
     (let (e, s1) = run_deletion gnet task s; (es, s2) = run_deletions gnet tasks s1 in (e # es, s2))"

context chunk_net
begin

lemma deletions_keep_none:
  "inv s \<Longrightarrow> holds s a k = None \<Longrightarrow> holds (snd (run_deletions gnet tasks s)) a k = None"
proof (induction tasks arbitrary: s)
  case (Cons task tasks)
  let ?s = "snd (run_deletion gnet task s)"
  have "inv ?s" "holds ?s a k = None"
    using delete_inv[OF Cons.prems(1)] delete_keeps_none[OF Cons.prems] by (simp_all add: run_deletion_def)
  then show ?case using Cons.IH[of ?s] by (simp add: case_prod_beta Let_def)
qed simp

lemma deletions_done:
  "inv s \<Longrightarrow> set (fst (run_deletions gnet tasks s)) \<subseteq> {None} \<Longrightarrow> (k, a) \<in> set tasks
    \<Longrightarrow> holds (snd (run_deletions gnet tasks s)) a k = None"
proof (induction tasks arbitrary: s)
  case (Cons task tasks)
  let ?s = "snd (run_deletion gnet task s)"
  have ok: "run_deletion gnet task s = (None, ?s)" using Cons.prems(2) by (auto simp: case_prod_beta Let_def prod_eq_iff)
  have inv: "inv ?s" using delete_inv[OF Cons.prems(1)] by (simp add: run_deletion_def)
  show ?case
  proof (cases "(k, a) = task")
    case True
    then have "holds ?s a k = None"
      using delete_ok[OF Cons.prems(1), of a k ?s] ok by (auto simp: run_deletion_def)
    then show ?thesis using deletions_keep_none[OF inv, of a k tasks] by (simp add: case_prod_beta Let_def)
  next
    case False
    then show ?thesis using Cons.IH[OF inv] Cons.prems by (simp add: case_prod_beta Let_def)
  qed
qed simp

end

subsection \<open>The whole call\<close>

record upload_call =
  cl_file :: source
  cl_name :: bytes
  cl_blockSize :: int
  cl_releaseTime :: bytes
  cl_fileId :: bytes
  cl_numCPU :: nat
  cl_uuid :: "nat \<Rightarrow> bytes"
  cl_reads :: "(bytes \<Rightarrow> string option) set"

definition uploadWorkerCount :: nat where "uploadWorkerCount = 10"

definition cryptoWorkerCount :: "nat \<Rightarrow> nat" where
  "cryptoWorkerCount numCPU = (if numCPU < 2 then 2 else numCPU)"

definition call_upload :: "upload_call \<Rightarrow> file_lib \<Rightarrow> bytes list \<Rightarrow> nat \<Rightarrow> upload" where
  "call_upload c L nodes drandRound = \<lparr>ul_libs = L, ul_fileId = cl_fileId c, ul_releaseTime = cl_releaseTime c,
     ul_round = drandRound, ul_nodes = nodes, ul_uuid = cl_uuid c, ul_reads = cl_reads c\<rparr>"

definition call_start :: "upload_call \<Rightarrow> file_lib \<Rightarrow> bytes list \<Rightarrow> nat \<Rightarrow> 'w client \<Rightarrow> 'w pipe" where
  "call_start c L nodes drandRound client =
     start_pipe (call_upload c L nodes drandRound) (cryptoWorkerCount (cl_numCPU c)) uploadWorkerCount
       (source_input (nat (cl_blockSize c)) (cl_file c)) client"

text \<open>
  A result is the returned error, the manifest if it was sent, the deletions that were started, and
  the states of the servers and of the nodes. A panic of a worker ends the process and is no result.
\<close>

record ('b, 'w) outcome =
  oc_err :: "fault option"
  oc_manifest :: "FileManifest option"
  oc_deletions :: "(bytes \<times> bytes) list"
  oc_servers :: 'b
  oc_client :: "'w client"

inductive uploads ::
  "'e env \<Rightarrow> file_lib \<Rightarrow> 'b net \<Rightarrow> 'w gnet \<Rightarrow> (bytes \<Rightarrow> int option) \<Rightarrow> upload_call \<Rightarrow> 'b \<Rightarrow> 'w client \<Rightarrow> ('b, 'w) outcome \<Rightarrow> bool"
  for env L net gnet parse c w client where
  not_prepared: "prepare_upload env L net parse ra rb rc (cl_file c) (cl_blockSize c) (cl_releaseTime c) w = (Inl e, w1) \<Longrightarrow>
    uploads env L net gnet parse c w client
      \<lparr>oc_err = Some e, oc_manifest = None, oc_deletions = [], oc_servers = w1, oc_client = client\<rparr>"
| read_failed: "prepare_upload env L net parse ra rb rc (cl_file c) (cl_blockSize c) (cl_releaseTime c) w = (Inr (totalBlocks, nodes, drandRound), w1) \<Longrightarrow>
    pipe_run env (call_upload c L nodes drandRound) gnet (call_start c L nodes drandRound client) s \<Longrightarrow> pp_phase s = ReadFailed \<Longrightarrow>
    uploads env L net gnet parse c w client
      \<lparr>oc_err = Some (Err ''read error''), oc_manifest = None, oc_deletions = [], oc_servers = w1, oc_client = pp_client s\<rparr>"
| finished: "prepare_upload env L net parse ra rb rc (cl_file c) (cl_blockSize c) (cl_releaseTime c) w = (Inr (totalBlocks, nodes, drandRound), w1) \<Longrightarrow>
    pipe_run env (call_upload c L nodes drandRound) gnet (call_start c L nodes drandRound client) s \<Longrightarrow> pp_phase s = Joined \<Longrightarrow>
    m = (new_manifest (env_C env) (cl_file c) (cl_name c) (cl_fileId c) (cl_releaseTime c) totalBlocks)\<lparr>man_Split := Some (pp_split s)\<rparr> \<Longrightarrow>
    distinct uploaded \<Longrightarrow> set uploaded = {(k, a). pp_success s k = Some a} \<Longrightarrow>
    finish_upload env net r m s uploaded w1 = (e, ds, w2) \<Longrightarrow>
    uploads env L net gnet parse c w client
      \<lparr>oc_err = e, oc_manifest = (if e = None then Some m else None), oc_deletions = ds, oc_servers = w2, oc_client = pp_client s\<rparr>"

subsection \<open>What a finished upload did\<close>

lemma total_blocks_length:
  assumes "f \<noteq> []" "0 < n" "int (length f) + int n < 2 ^ 63"
  shows "total_blocks (int (length f)) (int n) = Inr (int (length (read_blocks n f)))"
proof -
  let ?k = "(length f + n - 1) div n"
  have "wrap64 (wrap64 (int (length f) + int n) - 1) = int (length f + n - 1)"
    using assms by (simp add: wrap64_id in_int64_def of_nat_diff)
  moreover have "\<bar>int (length f + n - 1)\<bar> div \<bar>int n\<bar> = int ?k" by (simp add: zdiv_int)
  moreover have "0 < ?k" using assms(1,2) by (cases f) (simp_all add: div_greater_zero_iff)
  moreover have "int ?k < 2 ^ 63"
  proof -
    have "?k \<le> length f + n - 1" by (rule div_le_dividend)
    then show ?thesis using assms(3) by linarith
  qed
  ultimately have "go_div (wrap64 (wrap64 (int (length f) + int n) - 1)) (int n) = Inr (int ?k)"
    using assms(1,2) \<open>0 < ?k\<close> by (cases f) (simp_all add: go_div_def sgn_if wrap64_id in_int64_def)
  then show ?thesis using \<open>0 < ?k\<close> length_read_blocks[OF assms(2), of f] by (simp add: total_blocks_def res_bind_def)
qed

lemma prepare_facts:
  assumes "prepare_upload env L net parse ra rb rc f blockSize releaseTime w = (Inr (totalBlocks, nodes, drandRound), w1)"
  shows "total_blocks (int (length (src_content f))) blockSize = Inr totalBlocks"
    "\<exists>ns. RequestNodesForFileUpload env net ra (wrap64 (totalBlocks * TotalShards)) w = (Inr ns, w1) \<and> nodes = elems ns"
    "GetRoundForTime L parse rb releaseTime = Inr drandRound"
  using assms
  by (auto simp: prepare_upload_def res_bind_Inr split: sum.splits prod.splits fault.splits if_splits)

lemma source_input_ok: "src_read_err f = None \<Longrightarrow> source_input n f = map Inr (read_blocks n (src_content f))"
  by (simp add: source_input_def Let_def)

lemma finish_ok:
  assumes "finish_upload env net r m s uploaded w = (None, ds, w1)"
  shows "pp_err s = None" "UploadFileManifest env net r m w = (None, w1)" "ds = []"
  using assms by (auto simp: finish_upload_def split: option.splits prod.splits fault.splits)

text \<open>The manifest of a successful call, and the state of the workers it was made from.\<close>

lemma upload_succeeded:
  assumes "uploads env L net gnet parse c w client oc" "oc_err oc = None"
  obtains totalBlocks nodes drandRound w1 s m where "oc_manifest oc = Some m" "oc_client oc = pp_client s"
    "total_blocks (int (length (src_content (cl_file c)))) (cl_blockSize c) = Inr totalBlocks"
    "\<exists>rb. GetRoundForTime L parse rb (cl_releaseTime c) = Inr drandRound"
    "\<exists>ra ns. RequestNodesForFileUpload env net ra (wrap64 (totalBlocks * TotalShards)) w = (Inr ns, w1) \<and> nodes = elems ns"
    "pipe_run env (call_upload c L nodes drandRound) gnet (call_start c L nodes drandRound client) s"
    "pp_phase s = Joined" "pp_err s = None" "\<exists>r. UploadFileManifest env net r m w1 = (None, oc_servers oc)"
    "m = (new_manifest (env_C env) (cl_file c) (cl_name c) (cl_fileId c) (cl_releaseTime c) totalBlocks)\<lparr>man_Split := Some (pp_split s)\<rparr>"
  using assms(1)
proof (cases rule: uploads.cases)
  case (finished ra rb rc totalBlocks nodes drandRound w1 s m uploaded r e ds w2)
  have e: "e = None" using finished(1) assms(2) by simp
  note pre = prepare_facts[OF finished(2)] and fin = finish_ok[OF finished(8)[unfolded e]]
  show ?thesis
  proof (rule that)
    show "oc_manifest oc = Some m" "oc_client oc = pp_client s" using finished(1) e by simp_all
    show "\<exists>r. UploadFileManifest env net r m w1 = (None, oc_servers oc)" using fin(2) finished(1) by auto
    show "\<exists>rb. GetRoundForTime L parse rb (cl_releaseTime c) = Inr drandRound" using pre(3) by blast
    show "\<exists>ra ns. RequestNodesForFileUpload env net ra (wrap64 (totalBlocks * TotalShards)) w = (Inr ns, w1) \<and> nodes = elems ns"
      using pre(2) by blast
  qed (fact pre(1) finished(3-5) fin(1))+
qed (use assms(2) in simp_all)

end
