(* ===== verification/Upload_Live.thy ===== *)
theory Upload_Live
  imports Upload_Result
begin

text \<open>
  An upload under good conditions: at least one node was allocated, the allocated nodes are up with
  stores that work, and the packages and the key file do their work. Then no worker ever reports an
  error, whatever order the workers run in, and every run can be continued until all are done.
\<close>

definition good_request :: "'e env \<Rightarrow> upload \<Rightarrow> ChunkRequest \<Rightarrow> bool" where
  "good_request env U req \<longleftrightarrow> (\<exists>t id shard. req = chunk_request env U t id shard \<and> utf8_ok id \<and> elems shard \<noteq> [])"

definition good_job :: "'e env \<Rightarrow> upload \<Rightarrow> upload_job \<Rightarrow> bool" where
  "good_job env U job \<longleftrightarrow> good_request env U (fst job) \<and> snd job \<noteq> [] \<and> set (snd job) \<subseteq> set (ul_nodes U)"

text \<open>What the workers may hold.\<close>

definition good_try :: "'e env \<Rightarrow> upload \<Rightarrow> 'db env \<Rightarrow> upload_worker \<Rightarrow> bool" where
  "good_try env U nenv w = (case w of UIdle \<Rightarrow> True
     | UTry req nodes \<Rightarrow> nodes \<noteq> [] \<and> set nodes \<subseteq> set (ul_nodes U) \<and> pb_valid req \<and> authentic nenv req)"

definition good_push :: "'e env \<Rightarrow> upload \<Rightarrow> crypto_worker \<Rightarrow> bool" where
  "good_push env U w = (case w of CPush b blk js \<Rightarrow> \<forall>job \<in> set js. good_job env U job | _ \<Rightarrow> True)"

definition smooth :: "'e env \<Rightarrow> upload \<Rightarrow> 'db env \<Rightarrow> (bytes \<Rightarrow> bool) \<Rightarrow> 'db nodes pipe \<Rightarrow> bool" where
  "smooth env U nenv bad s \<longleftrightarrow> pp_err s = None \<and> pp_phase s \<noteq> ReadFailed \<and> pp_phase s \<noteq> Crashed
     \<and> (\<forall>r \<in> set (pp_input s). \<exists>b. r = Inr b) \<and> client_ok bad (pp_client s)
     \<and> (\<forall>a \<in> set (ul_nodes U). node_up nenv bad (snd (pp_client s)) a)
     \<and> (\<forall>job \<in> set (pp_uploadJobs s). good_job env U job)
     \<and> (\<forall>w \<in> set (pp_crypto s). good_push env U w) \<and> (\<forall>w \<in> set (pp_upload s). good_try env U nenv w)"

text \<open>The conditions that do not depend on the state.\<close>

definition fit :: "'e env \<Rightarrow> upload \<Rightarrow> 'db env \<Rightarrow> bool" where
  "fit env U nenv \<longleftrightarrow> badger_ok (env_bg nenv) \<and> file_lib_ok (ul_libs U) \<and> crypto_ok (env_C env)
     \<and> rs_new (ul_libs U) DataShards ParityShards \<and> inj (ul_uuid U) \<and> clean_upload env U
     \<and> (\<forall>r key. \<exists>ct. tl_encrypt (ul_libs U) r key (ul_round U) = Inr ct)
     \<and> signer (env_C env) (env_cfg env) (env_disk env) \<and> ul_reads U = {dsk_read_err (env_disk env)}
     \<and> pb_bytes (cfg_PublicKey (env_cfg env)) = cfg_PublicKey (env_cfg env)
     \<and> env_C nenv = env_C env \<and> ul_nodes U \<noteq> []"

lemma fit_uploading:
  assumes "fit env U nenv"
  shows "uploading (node_net nenv bad) (client_ok bad) (node_holds nenv bad) U env"
  using assms node_net_laws by (auto simp: fit_def uploading_def uploading_axioms_def)

lemma sign_with_self: "sign_with env (dsk_read_err (env_disk env)) m = sign env m"
  by (simp add: sign_with_def sign_def)

lemma fit_signs:
  assumes "fit env U nenv" "good_request env U req"
  shows "\<exists>sg. sign env (marshal enc_ChunkRequest req) = Inr sg"
    "sign env (marshal enc_ChunkRequest req) = Inr sg \<Longrightarrow>
      authentic nenv (req\<lparr>crq_Signature := Some sg\<rparr>) \<and> pb_valid (req\<lparr>crq_Signature := Some sg\<rparr>)"
proof -
  have sgn: "signer (env_C env) (env_cfg env) (env_disk env)" using assms(1) by (simp add: fit_def)
  show "\<exists>sg. sign env (marshal enc_ChunkRequest req) = Inr sg" using signer.sign_ok[OF sgn] by (simp add: sign_def)
  obtain t id shard where req: "req = chunk_request env U t id shard" "utf8_ok id" "elems shard \<noteq> []"
    using assms(2) by (auto simp: good_request_def)
  have kept: "kept req = req"
    using req assms(1) by (simp add: kept_def pb_ChunkRequest_def chunk_request_def fit_def) (simp add: pb_bytes_def)
  assume "sign env (marshal enc_ChunkRequest req) = Inr sg"
  then have "check_signature (env_C env) (marshal enc_ChunkRequest req) (Some sg) (cfg_PublicKey (env_cfg env))"
    using signer.check_own_signature[OF sgn] by (simp add: sign_def)
  moreover have "crq_PublicKey req = cfg_PublicKey (env_cfg env)" by (simp add: req chunk_request_def)
  moreover have "env_C nenv = env_C env" using assms(1) by (simp add: fit_def)
  ultimately have "authentic nenv (req\<lparr>crq_Signature := Some sg\<rparr>)" using kept by (simp add: authentic_def check_def)
  moreover have "pb_valid (req\<lparr>crq_Signature := Some sg\<rparr>)"
    using req assms(1) by (simp add: pb_valid_def fit_def clean_upload_def chunk_request_def)
  ultimately show "authentic nenv (req\<lparr>crq_Signature := Some sg\<rparr>) \<and> pb_valid (req\<lparr>crq_Signature := Some sg\<rparr>)" by blast
qed

lemma sealed_jobs_good:
  assumes "fit env U nenv" "fair c" "seal_block env U c k data = Inr (blk, jobs)" "job \<in> set jobs"
  shows "good_job env U job"
proof -
  have f: "file_lib_ok (ul_libs U)" "crypto_ok (env_C env)" "rs_new (ul_libs U) DataShards ParityShards" "inj (ul_uuid U)"
    "clean_upload env U" "ul_nodes U \<noteq> []" using assms(1) by (simp_all add: fit_def)
  obtain shards parts where s: "sealed (ul_libs U) (env_C env) DataShards ParityShards (ul_round U) data blk shards parts"
    "length shards = 5" "map chk_ChunkId (elems (blk_Chunks blk)) = map (\<lambda>j. ul_uuid U (k + j)) [0..<5]" "length jobs = 5"
    "\<forall>j < 5. job_of env U (elems (blk_Chunks blk) ! j) (shards ! j) (jobs ! j)"
    using seal_block_sealed[OF f(1-4) assms(2,3)] by blast
  have coded: "coded blk shards parts" by (rule file_lib_ok.sealed_coded(1)[OF f(1) s(1) f(3)])
  obtain j where j: "j < 5" "job = jobs ! j" using assms(4) s(4) by (metis in_set_conv_nth)
  have jo: "job_of env U (elems (blk_Chunks blk) ! j) (shards ! j) job" using s(5) j by simp
  have "chk_ChunkId (elems (blk_Chunks blk) ! j) = ul_uuid U (k + j)"
    using arg_cong[OF s(3), of "\<lambda>l. l ! j"] j(1) coded s(2) by (simp add: coded_def)
  moreover have "elems (shards ! j) \<noteq> []" using coded j(1) s(2) by (simp add: coded_def)
  moreover obtain t where "fst job = chunk_request env U t (chk_ChunkId (elems (blk_Chunks blk) ! j)) (shards ! j)"
    using jo by (auto simp: job_of_def)
  moreover have "utf8_ok (ul_uuid U (k + j))" using f(5) by (simp add: clean_upload_def)
  ultimately have "good_request env U (fst job)" unfolding good_request_def by metis
  moreover have "snd job \<noteq> []" "set (snd job) \<subseteq> set (ul_nodes U)" using jo f(6) by (auto simp: job_of_def min_def split: if_splits)
  ultimately show ?thesis by (simp add: good_job_def)
qed

lemma node_up_dom: "dom ns' = dom ns \<Longrightarrow> node_up nenv bad ns a \<Longrightarrow> node_up nenv bad ns' a"
  by (auto simp: node_up_def dom_def split: sum.splits)

lemma all_update: "\<forall>w \<in> set xs. P w \<Longrightarrow> P y \<Longrightarrow> \<forall>w \<in> set (xs[i := y]). P w"
  by (auto dest: update_mem)

lemma smooth_step:
  assumes "fit env U nenv"
  shows "pipe_step env U (node_net nenv bad) s t \<Longrightarrow> smooth env U nenv bad s \<Longrightarrow> smooth env U nenv bad t"
proof (induction rule: pipe_step.induct)
  case (crypto_take s i b data rest c blk jobs)
  have "good_push env U (CPush b blk jobs)" using sealed_jobs_good[OF assms crypto_take(5,6)] by (simp add: good_push_def)
  from all_update[of "pp_crypto s" "good_push env U", OF _ this] show ?case using crypto_take(7) by (simp add: smooth_def)
next
  case (crypto_error s i b data rest c e)
  then show ?case using seal_block_works[of U c env "pp_ids s" data] assms by (auto simp: fit_def)
next
  case (crypto_panic s i b data rest c e)
  then show ?case using seal_block_works[of U c env "pp_ids s" data] assms by (auto simp: fit_def)
next
  case (crypto_push s i b blk job jobs)
  then have "good_push env U (CPush b blk (job # jobs))" by (metis nth_mem smooth_def)
  then have "good_job env U job" "good_push env U (CPush b blk jobs)" by (simp_all add: good_push_def)
  then show ?case using crypto_push(5) all_update[of "pp_crypto s" "good_push env U"] by (simp add: smooth_def)
next
  case (crypto_store s i b blk)
  then show ?case using all_update[of "pp_crypto s" "good_push env U" CIdle] by (simp add: smooth_def good_push_def)
next
  case (upload_take s i req nodes rest re signature)
  then have good: "good_job env U (req, nodes)" by (simp add: smooth_def)
  have "re = dsk_read_err (env_disk env)" using upload_take(5) assms by (simp add: fit_def)
  then have "sign env (marshal enc_ChunkRequest req) = Inr signature" using upload_take(6) by (simp add: sign_with_self)
  then have "good_try env U nenv (UTry (req\<lparr>crq_Signature := Some signature\<rparr>) nodes)"
    using fit_signs(2)[OF assms, of req signature] good by (simp add: good_try_def good_job_def)
  from all_update[of "pp_upload s" "good_try env U nenv", OF _ this] show ?case
    using upload_take(4,7) by (simp add: smooth_def)
next
  case (upload_skip s i req nodes rest re e)
  then show ?case by (simp add: smooth_def)
next
  case (upload_saved s i req nodeAddr nodes r client1)
  then have "good_try env U nenv (UTry req (nodeAddr # nodes))" by (metis nth_mem smooth_def)
  then have u: "client_ok bad (pp_client s)" "node_up nenv bad (snd (pp_client s)) nodeAddr" "pb_valid req" "authentic nenv req"
    using upload_saved(6) by (simp_all add: smooth_def good_try_def)
  from save_at_works[OF u] have d: "dom (snd client1) = dom (snd (pp_client s))" using upload_saved(4) by auto
  have "chunk_net (node_net nenv bad) (client_ok bad) (node_holds nenv bad)"
    by (rule node_net_laws) (use assms in \<open>simp add: fit_def\<close>)
  from chunk_net.save_inv[OF this u(1), of nodeAddr req] have "client_ok bad client1" using upload_saved(4) by simp
  then show ?case
    using upload_saved(6) node_up_dom[OF d] all_update[of "pp_upload s" "good_try env U nenv" UIdle]
    by (simp add: smooth_def good_try_def)
next
  case (upload_next s i req nodeAddr nodes r client1)
  then have "good_try env U nenv (UTry req (nodeAddr # nodes))" by (metis nth_mem smooth_def)
  then have u: "client_ok bad (pp_client s)" "node_up nenv bad (snd (pp_client s)) nodeAddr" "pb_valid req" "authentic nenv req"
    using upload_next(6) by (simp_all add: smooth_def good_try_def)
  from save_at_works[OF u] have "saved r" using upload_next(4) by (auto simp: saved_def)
  then show ?case using upload_next(5) by simp
next
  case (upload_failed s i req)
  then have "good_try env U nenv (UTry req [])" by (metis nth_mem smooth_def)
  then show ?case by (simp add: good_try_def)
qed (auto simp: smooth_def)

lemma smooth_start:
  assumes "fit env U nenv" "client_ok bad client" "\<forall>a \<in> set (ul_nodes U). node_up nenv bad (snd client) a"
  shows "smooth env U nenv bad (start_pipe U nc nu (map Inr blocks) client)"
  using assms by (auto simp: smooth_def start_pipe_def Let_def fit_def good_push_def good_try_def)

lemma fit_run:
  assumes "fit env U nenv" "smooth env U nenv bad s" "pipe_run env U (node_net nenv bad) s t"
  shows "smooth env U nenv bad t"
  using run_invariant[OF assms(3), of "smooth env U nenv bad"] assms(2) smooth_step[OF assms(1)] by blast

lemma fit_ends:
  assumes "fit env U nenv" "smooth env U nenv bad s" "staffed U s"
  shows "\<exists>t. pipe_run env U (node_net nenv bad) s t \<and> pp_phase t = Joined"
proof -
  obtain t where t: "pipe_run env U (node_net nenv bad) s t" "pp_phase t \<notin> {Reading, Draining, Uploading}"
    using run_to_end[OF assms(3)] by blast
  then show ?thesis using fit_run[OF assms(1,2) t(1)] by (cases "pp_phase t") (auto simp: smooth_def)
qed

lemma fit_staffed:
  assumes "fit env U nenv" "0 < nc" "0 < nu" "pipe_run env U gnet (start_pipe U nc nu input client) s"
  shows "staffed U s"
proof -
  have "staffed U (start_pipe U nc nu input client)"
    by (rule start_staffed[OF assms(2,3)]) (use assms(1) in \<open>simp_all add: fit_def\<close>)
  then show ?thesis using run_invariant[OF assms(4), of "staffed U"] staffed_step by blast
qed

end
