(* ===== verification/Upload_Download.thy ===== *)
theory Upload_Download
  imports File_Upload Upload_Live Cluster
begin

text \<open>
  Uploads and downloads together: what a successful upload guarantees to whoever downloads the file
  later, and where the two do not fit together.
\<close>

text \<open>The call is made with packages that work and fresh chunk ids.\<close>

definition usable :: "'e env \<Rightarrow> file_lib \<Rightarrow> upload_call \<Rightarrow> 'db env \<Rightarrow> (bytes \<Rightarrow> bool) \<Rightarrow> 'db nodes client \<Rightarrow> bool" where
  "usable env L c nenv bad client \<longleftrightarrow> badger_ok (env_bg nenv) \<and> file_lib_ok L \<and> crypto_ok (env_C env)
     \<and> rs_new L DataShards ParityShards \<and> client_ok bad client
     \<and> inj (cl_uuid c) \<and> (\<forall>a k. node_holds nenv bad client a (cl_uuid c k) = None)"

text \<open>The file can be read, its size and the block size are ones Go can add, and all strings are UTF-8.\<close>

definition readable_call :: "'e env \<Rightarrow> upload_call \<Rightarrow> bool" where
  "readable_call env c \<longleftrightarrow> src_read_err (cl_file c) = None \<and> 0 < cl_blockSize c
     \<and> int (length (src_content (cl_file c))) + cl_blockSize c < 2 ^ 63
     \<and> utf8_ok (self_address (env_cfg env)) \<and> utf8_ok (cl_fileId c) \<and> utf8_ok (cl_releaseTime c) \<and> (\<forall>k. utf8_ok (cl_uuid c k))"

definition call_blocks :: "upload_call \<Rightarrow> bytes list" where
  "call_blocks c = read_blocks (nat (cl_blockSize c)) (src_content (cl_file c))"

lemma call_simps [simp]:
  "ul_libs (call_upload c L ns d) = L" "ul_round (call_upload c L ns d) = d" "ul_nodes (call_upload c L ns d) = ns"
  "ul_uuid (call_upload c L ns d) = cl_uuid c" "ul_reads (call_upload c L ns d) = cl_reads c"
  by (simp_all add: call_upload_def)

lemma call_uploading:
  "usable env L c nenv bad client \<Longrightarrow>
    uploading (node_net nenv bad) (client_ok bad) (node_holds nenv bad) (call_upload c L ns d) env"
  using node_net_laws[of nenv bad] by (auto simp: usable_def uploading_def uploading_axioms_def)

lemma call_inv:
  assumes "usable env L c nenv bad client" "src_read_err (cl_file c) = None"
    and "pipe_run env (call_upload c L ns d) (node_net nenv bad) (call_start c L ns d client) s"
  shows "\<exists>made. pipe_inv env (call_upload c L ns d) (client_ok bad) (node_holds nenv bad) (call_blocks c) made s"
proof -
  note up = call_uploading[OF assms(1), of ns d]
  have "pipe_inv env (call_upload c L ns d) (client_ok bad) (node_holds nenv bad) (call_blocks c) Map.empty (call_start c L ns d client)"
    using uploading.start_inv[OF up, of "cryptoWorkerCount (cl_numCPU c)" uploadWorkerCount client "call_blocks c"] assms(1)
    by (simp add: call_start_def source_input_ok[OF assms(2)] call_blocks_def usable_def cryptoWorkerCount_def uploadWorkerCount_def)
  from uploading.run_inv[OF up assms(3) this] show ?thesis .
qed

text \<open>The workers' last state in a successful upload of a file with content.\<close>

lemma upload_state:
  assumes "usable env L c nenv bad client" "readable_call env c" "src_content (cl_file c) \<noteq> []"
    and "uploads env L net (node_net nenv bad) parse c w client oc" "oc_err oc = None"
  obtains m ns d w1 s made where "oc_manifest oc = Some m" "oc_client oc = pp_client s"
    "\<exists>rb. GetRoundForTime L parse rb (cl_releaseTime c) = Inr d"
    "\<exists>ra q. RequestNodesForFileUpload env net ra (wrap64 (int (length (call_blocks c)) * TotalShards)) w = (Inr q, w1) \<and> ns = elems q"
    "\<exists>r. UploadFileManifest env net r m w1 = (None, oc_servers oc)"
    "pp_phase s = Joined" "pp_err s = None" "clean_upload env (call_upload c L ns d)"
    "pipe_inv env (call_upload c L ns d) (client_ok bad) (node_holds nenv bad) (call_blocks c) made s"
    "m = (new_manifest (env_C env) (cl_file c) (cl_name c) (cl_fileId c) (cl_releaseTime c) (int (length (call_blocks c))))
      \<lparr>man_Split := Some (pp_split s)\<rparr>"
proof -
  obtain tb ns d w1 s m where u: "oc_manifest oc = Some m" "oc_client oc = pp_client s"
    "total_blocks (int (length (src_content (cl_file c)))) (cl_blockSize c) = Inr tb"
    "\<exists>rb. GetRoundForTime L parse rb (cl_releaseTime c) = Inr d"
    "\<exists>ra q. RequestNodesForFileUpload env net ra (wrap64 (tb * TotalShards)) w = (Inr q, w1) \<and> ns = elems q"
    "pipe_run env (call_upload c L ns d) (node_net nenv bad) (call_start c L ns d client) s"
    "pp_phase s = Joined" "pp_err s = None" "\<exists>r. UploadFileManifest env net r m w1 = (None, oc_servers oc)"
    "m = (new_manifest (env_C env) (cl_file c) (cl_name c) (cl_fileId c) (cl_releaseTime c) tb)\<lparr>man_Split := Some (pp_split s)\<rparr>"
    using upload_succeeded[OF assms(4,5)] by metis
  have r: "0 < nat (cl_blockSize c)" "int (nat (cl_blockSize c)) = cl_blockSize c" "src_read_err (cl_file c) = None"
    using assms(2) by (simp_all add: readable_call_def)
  have tb: "tb = int (length (call_blocks c))"
    using total_blocks_length[OF assms(3) r(1)] assms(2) u(3) r(2) by (simp add: readable_call_def call_blocks_def)
  have clean: "clean_upload env (call_upload c L ns d)"
    using assms(2) by (simp add: clean_upload_def readable_call_def) (simp add: call_upload_def)
  obtain made where inv: "pipe_inv env (call_upload c L ns d) (client_ok bad) (node_holds nenv bad) (call_blocks c) made s"
    using call_inv[OF assms(1) r(3) u(6)] by blast
  show ?thesis by (rule that[OF u(1,2,4) u(5)[unfolded tb] u(9,7,8) clean inv u(10)[unfolded tb]])
qed

lemma signs_not_lossy:
  "\<forall>re \<in> cl_reads c. \<forall>x. \<exists>sg. sign_with env re x = Inr sg \<Longrightarrow> \<not> lossy env (call_upload c L ns d)"
  unfolding lossy_def by (metis call_simps(5) Inl_Inr_False)

lemma read_blocks_size: "0 < n \<Longrightarrow> b \<in> set (read_blocks n f) \<Longrightarrow> length b \<le> n \<and> length b \<le> length f"
proof (induction n f rule: read_blocks.induct)
  case (1 n f)
  then show ?case by (subst (asm) (2) read_blocks.simps) (fastforce split: if_splits)
qed

lemma call_blocks_size:
  assumes "readable_call env c"
  shows "concat (call_blocks c) = src_content (cl_file c)" "length (call_blocks c) < 2 ^ 63"
    "\<forall>b \<in> set (call_blocks c). length b < 2 ^ 62"
    "src_content (cl_file c) \<noteq> [] \<Longrightarrow> int (length (src_content (cl_file c))) \<le> cl_blockSize c \<Longrightarrow> length (call_blocks c) = 1"
proof -
  have r: "0 < nat (cl_blockSize c)" "int (nat (cl_blockSize c)) = cl_blockSize c"
    "int (length (src_content (cl_file c))) + cl_blockSize c < 2 ^ 63" using assms(1) by (simp_all add: readable_call_def)
  show "concat (call_blocks c) = src_content (cl_file c)" using concat_read_blocks[OF r(1)] by (simp add: call_blocks_def)
  have n: "length (call_blocks c) = (length (src_content (cl_file c)) + nat (cl_blockSize c) - 1) div nat (cl_blockSize c)"
    unfolding call_blocks_def by (rule length_read_blocks[OF r(1)])
  also have "\<dots> \<le> length (src_content (cl_file c)) + nat (cl_blockSize c) - 1" by (rule div_le_dividend)
  also have "\<dots> < 2 ^ 63"
  proof -
    have "length (src_content (cl_file c)) + nat (cl_blockSize c) < 2 ^ 63"
      by (rule of_nat_less_imp_less[where 'a = int]) (use r in simp)
    then show ?thesis using r(1) by linarith
  qed
  finally show "length (call_blocks c) < 2 ^ 63" .
  show "\<forall>b \<in> set (call_blocks c). length b < 2 ^ 62"
  proof
    fix b assume "b \<in> set (call_blocks c)"
    then have "length b \<le> nat (cl_blockSize c)" "length b \<le> length (src_content (cl_file c))"
      using read_blocks_size[OF r(1)] by (simp_all add: call_blocks_def)
    then show "length b < 2 ^ 62" using r(2,3) by simp
  qed
  assume "src_content (cl_file c) \<noteq> []" "int (length (src_content (cl_file c))) \<le> cl_blockSize c"
  then show "length (call_blocks c) = 1" unfolding n using r(2) by (cases "src_content (cl_file c)") (auto simp: div_nat_eqI)
qed

text \<open>What a successful upload of a file with content leaves behind.\<close>

lemma uploaded_file:
  assumes "usable env L c nenv bad client" "readable_call env c" "src_content (cl_file c) \<noteq> []"
    and "uploads env L net (node_net nenv bad) parse c w client oc" "oc_err oc = None"
    and "\<forall>a k. h a (cl_uuid c k) = None \<or> h a (cl_uuid c k) = node_holds nenv bad (oc_client oc) a (cl_uuid c k)"
  obtains m d rb where "oc_manifest oc = Some m" "client_ok bad (oc_client oc)" "GetRoundForTime L parse rb (cl_releaseTime c) = Inr d"
    "sealed_file L (env_C env) h d m (call_blocks c)"
    "man_ReedSolomonConfig m = \<lparr>rsc_DataShards = DataShards, rsc_ParityShards = ParityShards\<rparr>"
    "(\<forall>re \<in> cl_reads c. \<forall>x. \<exists>sg. sign_with env re x = Inr sg) \<Longrightarrow>
      \<forall>i < length (call_blocks c). obtainable (node_holds nenv bad (oc_client oc)) (block_of m (int i)) = 5"
proof -
  obtain m ns d w1 s made where u: "oc_manifest oc = Some m" "oc_client oc = pp_client s"
    "\<exists>rb. GetRoundForTime L parse rb (cl_releaseTime c) = Inr d"
    "pp_phase s = Joined" "pp_err s = None" "clean_upload env (call_upload c L ns d)"
    "pipe_inv env (call_upload c L ns d) (client_ok bad) (node_holds nenv bad) (call_blocks c) made s"
    "m = (new_manifest (env_C env) (cl_file c) (cl_name c) (cl_fileId c) (cl_releaseTime c) (int (length (call_blocks c))))
      \<lparr>man_Split := Some (pp_split s)\<rparr>"
    by (rule upload_state[OF assms(1-5)])
  have m: "man_Split m = Some (pp_split s)" "man_Blocks m = int (length (call_blocks c))"
    "man_ReedSolomonConfig m = \<lparr>rsc_DataShards = DataShards, rsc_ParityShards = ParityShards\<rparr>"
    using u(8) by (simp_all add: new_manifest_def)
  have lost: "only_lost (call_upload c L ns d) (node_holds nenv bad (pp_client s)) h" using assms(6) u(2) by (simp add: only_lost_def)
  note res = uploading.joined_sealed_file[OF call_uploading[OF assms(1), of ns d] u(7,4-6) m lost]
  obtain rb where rb: "GetRoundForTime L parse rb (cl_releaseTime c) = Inr d" using u(3) by blast
  show ?thesis
  proof (rule that[OF u(1) _ rb _ m(3)])
    show "client_ok bad (oc_client oc)" using u(2,7) by (simp add: pipe_inv_def net_inv_def)
    show "sealed_file L (env_C env) h d m (call_blocks c)" using res by simp
    assume "\<forall>re \<in> cl_reads c. \<forall>x. \<exists>sg. sign_with env re x = Inr sg"
    then have "\<not> lossy env (call_upload c L ns d)" by (rule signs_not_lossy)
    then show "\<forall>i < length (call_blocks c). obtainable (node_holds nenv bad (oc_client oc)) (block_of m (int i)) = 5"
      using res u(2) by simp
  qed
qed

lemma uploaded_release:
  assumes "usable env L c nenv bad client" "readable_call env c" "src_content (cl_file c) \<noteq> []"
    and "uploads env L net (node_net nenv bad) parse c w client oc" "oc_err oc = None" "oc_manifest oc = Some m"
  shows "man_ReleaseDate m = cl_releaseTime c"
proof -
  obtain m' ns d s made where "oc_manifest oc = Some m'"
    "pipe_inv env (call_upload c L ns d) (client_ok bad) (node_holds nenv bad) (call_blocks c) made s"
    "m' = (new_manifest (env_C env) (cl_file c) (cl_name c) (cl_fileId c) (cl_releaseTime c) (int (length (call_blocks c))))
      \<lparr>man_Split := Some (pp_split s)\<rparr>"
    by (rule upload_state[OF assms(1-5)])
  then show ?thesis using assms(6) by (simp add: new_manifest_def)
qed

text \<open>The manifest that was sent, and that its JSON carries it unchanged.\<close>

lemma nodes_utf8: "RequestNodesForFileUpload env net ra T w = (Inr q, w1) \<Longrightarrow> ok_strs q"
proof -
  have "ok_strs (fst (decode_stream (dec_slice dec_str []) None body))" for body
    using dec_strs_ok[OF parse_stream_wf] by (auto simp: decode_stream_def ok_strs_def split: option.split)
  moreover assume "RequestNodesForFileUpload env net ra T w = (Inr q, w1)"
  ultimately show "ok_strs q"
    by (auto simp: RequestNodesForFileUpload_def error_body_def Let_def split: sum.splits prod.splits if_splits)
qed

lemma hex_encode_utf8: "utf8_ok (hex_encode b)"
proof (rule utf8_ok_ascii_all)
  have "hex_digit n \<in> set ''0123456789abcdef''" for n
    unfolding hex_digit_def by (rule nth_mem) simp
  moreover fix c assume "c \<in> set (hex_encode b)"
  ultimately have "c \<in> set ''0123456789abcdef''" by (auto simp: hex_encode_def)
  then show "(of_char c :: nat) < 128" by auto
qed

lemma manifest_ok:
  assumes "usable env L c nenv bad client" "readable_call env c" "clean_upload env (call_upload c L ns d)"
    and "pipe_inv env (call_upload c L ns d) (client_ok bad) (node_holds nenv bad) (call_blocks c) made s"
    and "\<forall>a \<in> set ns. utf8_ok a" "in_int64 totalBlocks"
    and "utf8_ok (cl_name c)" "\<forall>k n x. length (gcm_seal (env_C env) k n x) \<le> length x + 16"
  shows "ok_FileManifest ((new_manifest (env_C env) (cl_file c) (cl_name c) (cl_fileId c) (cl_releaseTime c) totalBlocks)
      \<lparr>man_Split := Some (pp_split s)\<rparr>)"
proof -
  note size = call_blocks_size[OF assms(2)]
  have "ok_Split (Some (pp_split s))"
    using uploading.joined_split_ok[OF call_uploading[OF assms(1), of ns d] assms(4,3) _ assms(8) size(3,2)] assms(5) by simp
  moreover have "in_int64 (int (length (src_content (cl_file c))))"
    using assms(2) by (simp add: readable_call_def in_int64_def)
  ultimately show ?thesis
    using assms(2,6,7) hex_encode_utf8
    by (simp add: ok_FileManifest_def new_manifest_def readable_call_def ok_ReedSolomonConfig_def config_consts in_int64_def)
qed

lemma uploaded_manifest:
  assumes "usable env L c nenv bad client" "readable_call env c" "src_content (cl_file c) \<noteq> []"
    and "uploads env L net (node_net nenv bad) parse c w client oc" "oc_err oc = None" "oc_manifest oc = Some m"
    and "utf8_ok (cl_name c)" "\<forall>k n x. length (gcm_seal (env_C env) k n x) \<le> length x + 16"
  shows "ok_FileManifest m" "man_FileName m = cl_name c" "man_FileId m = cl_fileId c"
    "man_HashFile m = hex_encode (sha256 (env_C env) (src_content (cl_file c)))"
    "\<exists>r ra T q w1. RequestNodesForFileUpload env net ra T w = (Inr q, w1) \<and> UploadFileManifest env net r m w1 = (None, oc_servers oc)"
proof -
  obtain m' ns d w1 s made where u: "oc_manifest oc = Some m'"
    "\<exists>ra q. RequestNodesForFileUpload env net ra (wrap64 (int (length (call_blocks c)) * TotalShards)) w = (Inr q, w1) \<and> ns = elems q"
    "\<exists>r. UploadFileManifest env net r m' w1 = (None, oc_servers oc)" "clean_upload env (call_upload c L ns d)"
    "pipe_inv env (call_upload c L ns d) (client_ok bad) (node_holds nenv bad) (call_blocks c) made s"
    "m' = (new_manifest (env_C env) (cl_file c) (cl_name c) (cl_fileId c) (cl_releaseTime c) (int (length (call_blocks c))))
      \<lparr>man_Split := Some (pp_split s)\<rparr>"
    by (rule upload_state[OF assms(1-5)])
  have m': "m' = m" using u(1) assms(6) by simp
  obtain ra q where q: "RequestNodesForFileUpload env net ra (wrap64 (int (length (call_blocks c)) * TotalShards)) w = (Inr q, w1)"
    "ns = elems q" using u(2) by blast
  have "\<forall>a \<in> set ns. utf8_ok a" using nodes_utf8[OF q(1)] q(2) by (simp add: ok_strs_def list_all_iff)
  moreover have "in_int64 (int (length (call_blocks c)))" using call_blocks_size(2)[OF assms(2)] by (simp add: in_int64_def)
  ultimately show "ok_FileManifest m"
    unfolding m'[symmetric] u(6) using manifest_ok[OF assms(1,2) u(4,5) _ _ assms(7,8)] by blast
  show "man_FileName m = cl_name c" "man_FileId m = cl_fileId c" "man_HashFile m = hex_encode (sha256 (env_C env) (src_content (cl_file c)))"
    using u(6) m' by (simp_all add: new_manifest_def)
  show "\<exists>r ra T q w1. RequestNodesForFileUpload env net ra T w = (Inr q, w1) \<and> UploadFileManifest env net r m w1 = (None, oc_servers oc)"
    using u(2,3) m' by blast
qed

text \<open>A download after a successful upload.\<close>

lemma download_uploaded:
  fixes clock :: "int \<Rightarrow> int"
  assumes "usable env L c nenv bad client" "readable_call env c" "src_content (cl_file c) \<noteq> []"
    and "uploads env L net (node_net nenv bad) parse c w client oc" "oc_err oc = None" "oc_manifest oc = Some m"
    and "client_ok bad later"
    and "\<forall>a k. node_holds nenv bad later a (cl_uuid c k) = None
          \<or> node_holds nenv bad later a (cl_uuid c k) = node_holds nenv bad (oc_client oc) a (cl_uuid c k)"
    and "\<forall>i < nat (man_Blocks m). 3 \<le> obtainable (node_holds nenv bad later) (block_of m (int i))"
    and "parse (cl_releaseTime c) = Some t" "\<forall>i. t \<le> clock i" "tl_network L (relay r) DrandChainHash"
  shows "\<exists>s1. StreamReconstruct L (env_C env) (node_net nenv bad) write_buf clock r m [] later
    = (None, src_content (cl_file c), s1)"
proof -
  obtain m' d rb where u: "oc_manifest oc = Some m'" "GetRoundForTime L parse rb (cl_releaseTime c) = Inr d"
    "sealed_file L (env_C env) (node_holds nenv bad later) d m' (call_blocks c)"
    "man_ReedSolomonConfig m' = \<lparr>rsc_DataShards = DataShards, rsc_ParityShards = ParityShards\<rparr>"
    using uploaded_file[OF assms(1-5,8)] by metis
  have m': "m' = m" using u(1) assms(6) by simp
  have ok: "file_lib_ok L" "badger_ok (env_bg nenv)" using assms(1) by (simp_all add: usable_def)
  have d: "d = tl_current L t" using u(2) assms(10) by (simp add: GetRoundForTime_def split: if_splits)
  have n: "man_Blocks m = int (length (call_blocks c))" using u(3) m' by (simp add: sealed_file_def)
  have "ready L (node_holds nenv bad later) d clock m i" if "i < length (call_blocks c)" for i
    using that assms(9,11) n file_lib_ok.tl_current_mono[OF ok(1)] u(4)
    by (simp add: ready_def enough_def m' d config_consts)
  then have k: "takeWhile (ready L (node_holds nenv bad later) d clock m) [0..<length (call_blocks c)] = [0..<length (call_blocks c)]"
    by (simp add: takeWhile_eq_all_conv)
  have "download (node_net nenv bad) (client_ok bad) (node_holds nenv bad) L"
    using node_net_laws[OF ok(2)] ok(1) by (simp add: download_def)
  from download.StreamReconstruct_sealed[OF this u(3)[unfolded m'] assms(7) refl assms(12), of clock "[]", unfolded k]
  show ?thesis
    using concat_read_blocks[of "nat (cl_blockSize c)" "src_content (cl_file c)"] assms(2)
    by (auto simp: call_blocks_def readable_call_def)
qed

subsection \<open>A concrete call\<close>

text \<open>A server that answers every request with one node, and a call that uploads the given content to it.\<close>

definition ref_http :: "unit net" where
  "ref_http = \<lparr>net_post = (\<lambda>w u b. (Inr (200, marshal (enc_slice JStr) (Some [''n:1''])), w)),
     net_delete = (\<lambda>w u b. (Inr (200, []), w))\<rparr>"

definition ref_call :: "bytes \<Rightarrow> upload_call" where
  "ref_call content = \<lparr>cl_file = \<lparr>src_content = content, src_hash_err = None, src_seek_err = None, src_stat_err = None, src_read_err = None\<rparr>,
     cl_name = ''name'', cl_blockSize = 1536000, cl_releaseTime = ''2030'', cl_fileId = ''f'', cl_numCPU = 4,
     cl_uuid = (\<lambda>k. replicate (Suc k) CHR ''u''), cl_reads = {dsk_read_err (env_disk (ref_env ''n'' [''b'']))}\<rparr>"

abbreviation "ref_uploader \<equiv> ref_env ''n'' [''b'']"
abbreviation "ref_nodes_net \<equiv> node_net ref_uploader (\<lambda>_. False)"
abbreviation "ref_parse \<equiv> \<lambda>_. Some (30000000000 :: int)"

lemma ref_uuid_inj: "inj (\<lambda>k. replicate (Suc k) CHR ''u'')"
  by (rule injI) (metis length_replicate nat.inject)

lemma ref_uuid_utf8: "utf8_ok (replicate n CHR ''u'')"
  by (rule utf8_ok_ascii_all) (auto dest: in_set_replicate[THEN iffD1])

lemma ref_usable: "usable ref_uploader ref_libs (ref_call content) ref_uploader (\<lambda>_. False) (ref_client [])"
proof -
  have "node_holds ref_uploader (\<lambda>_. False) (ref_client []) a k = None" for a k
    by (auto simp: node_holds_def ref_client_def ref_chunks_def mem_view split: sum.split)
  then show ?thesis
    using reliable_ok[OF mem_reliable] ref_libs.file_lib_ok_axioms ref.crypto_ok_axioms ref_uuid_inj
    by (simp add: usable_def ref_client_def ref_call_def ref_libs_def config_consts)
qed

lemma ref_readable: "length content < 1000 \<Longrightarrow> readable_call ref_uploader (ref_call content)"
  using ref_uuid_utf8 by (simp add: readable_call_def ref_call_def)

lemma ref_fit: "fit ref_uploader (call_upload (ref_call content) ref_libs [''n:1''] d) ref_uploader"
proof -
  have "pb_bytes (cfg_PublicKey (env_cfg ref_uploader)) = cfg_PublicKey (env_cfg ref_uploader)"
    by (simp add: ref_env_def ref_identity_def GenerateKeyPair_def ref_crypto_def empty_disk_def WriteFile_def
        GetPublicKey_def GetPrivateKey_def ReadFile_def ref_config_def bootstrap_config_def config_of_env_def pb_bytes_def)
  moreover have "clean_upload ref_uploader (call_upload (ref_call content) ref_libs [''n:1''] d)"
    using ref_uuid_utf8 by (simp add: clean_upload_def) (simp add: call_upload_def ref_call_def)
  ultimately show ?thesis
    using reliable_ok[OF mem_reliable] ref_libs.file_lib_ok_axioms ref.crypto_ok_axioms ref_uuid_inj ref_env_signer[of "''n''" "[''b'']"]
    by (simp add: fit_def ref_call_def) (simp add: ref_libs_def config_consts)
qed

lemma ref_blocks: "length content < 1000 \<Longrightarrow> total_blocks (int (length content)) 1536000 = Inr 1"
proof -
  assume "length content < 1000"
  moreover have "(1535999 + int n) div 1536000 = (if n = 0 then 0 else 1)" if "n < 1000" for n
    using that by (auto simp: int_div_pos_eq[where r = "int n - 1"])
  ultimately show ?thesis by (simp add: total_blocks_def go_div_def res_bind_def wrap64_id in_int64_def sgn_if)
qed

lemma ref_prepared:
  assumes "length content < 1000" "RequestNodesForFileUpload ref_uploader net 0 5 w = (Inr (Some [''n:1'']), w1)"
  shows "prepare_upload ref_uploader ref_libs net ref_parse 0 0 0 (cl_file (ref_call content)) 1536000 ''2030'' w = (Inr (1, [''n:1''], 1), w1)"
  using assms ref_blocks[OF assms(1)]
  by (simp add: prepare_upload_def fail_if_def res_bind_def ref_call_def GetRoundForTime_def total_shards wrap64_id in_int64_def)
    (simp add: ref_libs_def)

lemma ref_http_nodes: "RequestNodesForFileUpload ref_uploader ref_http 0 5 () = (Inr (Some [''n:1'']), ())"
proof -
  obtain sg where "sign ref_uploader (marshal enc_NodesForFileUploadRequest \<lparr>nfu_Address = self_address (env_cfg ref_uploader),
      nfu_PublicKey = cfg_PublicKey (env_cfg ref_uploader), nfu_Signature = None,
      nfu_TotalChunks = 5, nfu_NodesPerChunk = ChunksTolerance\<rparr>) = Inr sg"
    using ref_env_sign by blast
  moreover have "decode_stream (dec_slice dec_str []) None (marshal (enc_slice JStr) (Some [''n:1''])) = (Some [''n:1''], True)"
    by (rule stream_strs) (simp add: ok_strs_def)
  ultimately show ?thesis by (simp add: RequestNodesForFileUpload_def Intn_def Let_def ref_http_def)
qed

lemma ref_http_manifest: "UploadFileManifest ref_uploader ref_http 0 m () = (None, ())"
proof -
  obtain sg where "sign ref_uploader (sha256 (env_C ref_uploader) (marshal enc_FileManifest m)) = Inr sg" using ref_env_sign by blast
  then show ?thesis by (simp add: UploadFileManifest_def Intn_def Let_def ref_http_def)
qed

lemma success_finite: "pipe_run env U gnet s t \<Longrightarrow> finite (dom (pp_success s)) \<Longrightarrow> finite (dom (pp_success t))"
proof (induction rule: pipe_run.induct)
  case (run_step s t u)
  from run_step(2) show ?case
  proof (cases rule: pipe_step.cases)
    case (upload_saved i req nodeAddr nodes r client1)
    have eq: "pp_success u = (pp_success t)(crq_ChunkId req \<mapsto> nodeAddr)" by (simp add: upload_saved(1))
    show ?thesis unfolding eq dom_fun_upd using run_step by simp
  qed (use run_step in simp_all)
qed simp

lemma map_pairs_finite: "finite (dom m) \<Longrightarrow> finite {(k, a). m k = Some a}"
  by (rule finite_subset[of _ "(\<lambda>k. (k, the (m k))) ` dom m"]) force+

text \<open>The workers of the reference call do their work, whatever the server says afterwards.\<close>

abbreviation "ref_call_upload content \<equiv> call_upload (ref_call content) ref_libs [''n:1''] 1"
abbreviation "ref_call_start content \<equiv> call_start (ref_call content) ref_libs [''n:1''] 1 (ref_client [])"

abbreviation "ref_call_manifest content t \<equiv> (new_manifest (env_C ref_uploader) (cl_file (ref_call content)) (cl_name (ref_call content))
    (cl_fileId (ref_call content)) (cl_releaseTime (ref_call content)) 1)\<lparr>man_Split := Some (pp_split t)\<rparr>"

lemma ref_pipe_done:
  assumes "length content < 1000"
  obtains t uploaded where
    "pipe_run ref_uploader (ref_call_upload content) ref_nodes_net (ref_call_start content) t" "pp_phase t = Joined" "pp_err t = None"
    "smooth ref_uploader (ref_call_upload content) ref_uploader (\<lambda>_. False) t"
    "distinct uploaded" "set uploaded = {(k, a). pp_success t k = Some a}" "ok_FileManifest (ref_call_manifest content t)"
proof -
  let ?c = "ref_call content" and ?U = "ref_call_upload content" and ?s = "ref_call_start content"
  have up: "node_up ref_uploader (\<lambda>_. False) (snd (ref_client [])) ''n:1''"
    by (rule ref_node_up[OF ref_grpc_address]) (simp_all add: ref_client_def)
  have "source_input (nat (cl_blockSize ?c)) (cl_file ?c) = map Inr (call_blocks ?c)"
    by (simp add: call_blocks_def source_input_ok ref_call_def)
  then have st: "?s = start_pipe ?U 4 10 (map Inr (call_blocks ?c)) (ref_client [])"
    by (simp add: call_start_def cryptoWorkerCount_def uploadWorkerCount_def ref_call_def)
  have sm: "smooth ref_uploader ?U ref_uploader (\<lambda>_. False) ?s"
    unfolding st by (rule smooth_start[OF ref_fit]) (use up in \<open>simp_all add: ref_client_def\<close>)
  have "staffed ?U ?s"
    unfolding st by (rule fit_staffed[OF ref_fit _ _ pipe_run.run_refl]) simp_all
  from fit_ends[OF ref_fit sm this] obtain t where t: "pipe_run ref_uploader ?U ref_nodes_net ?s t" "pp_phase t = Joined" by blast
  have e: "smooth ref_uploader ?U ref_uploader (\<lambda>_. False) t" "pp_err t = None" using fit_run[OF ref_fit sm t(1)] by (simp_all add: smooth_def)
  have "pp_success ?s = Map.empty" unfolding st by (simp add: start_pipe_def Let_def)
  then have "finite (dom (pp_success t))" using success_finite[OF t(1)] by simp
  from finite_distinct_list[OF map_pairs_finite[OF this]] obtain uploaded where
    us: "distinct uploaded" "set uploaded = {(k, a). pp_success t k = Some a}" by blast
  obtain made where inv: "pipe_inv ref_uploader ?U (client_ok (\<lambda>_. False)) (node_holds ref_uploader (\<lambda>_. False)) (call_blocks ?c) made t"
    using call_inv[OF ref_usable _ t(1)] by (auto simp: ref_call_def)
  have "clean_upload ref_uploader ?U" using ref_fit by (simp only: fit_def)
  from manifest_ok[OF ref_usable ref_readable[OF assms(1)] this inv, of 1] have "ok_FileManifest (ref_call_manifest content t)"
    by (simp add: in_int64_def ref_crypto_def) (simp add: ref_call_def)
  then show thesis using that t e us by blast
qed

lemma ref_upload_via:
  assumes "length content < 1000" "RequestNodesForFileUpload ref_uploader net 0 5 w = (Inr (Some [''n:1'']), w1)"
    and "\<And>m. ok_FileManifest m \<Longrightarrow> \<exists>w2. UploadFileManifest ref_uploader net 0 m w1 = (None, w2)"
  shows "\<exists>oc. uploads ref_uploader ref_libs net ref_nodes_net ref_parse (ref_call content) w (ref_client []) oc \<and> oc_err oc = None"
proof -
  let ?c = "ref_call content"
  have pre: "prepare_upload ref_uploader ref_libs net ref_parse 0 0 0 (cl_file ?c) (cl_blockSize ?c) (cl_releaseTime ?c) w = (Inr (1, [''n:1''], 1), w1)"
    using ref_prepared[OF assms(1,2)] by (simp add: ref_call_def)
  obtain t uploaded where t: "pipe_run ref_uploader (ref_call_upload content) ref_nodes_net (ref_call_start content) t"
    "pp_phase t = Joined" "pp_err t = None" "smooth ref_uploader (ref_call_upload content) ref_uploader (\<lambda>_. False) t"
    and us: "distinct uploaded" "set uploaded = {(k, a). pp_success t k = Some a}" and ok: "ok_FileManifest (ref_call_manifest content t)"
    by (rule ref_pipe_done[OF assms(1)])
  from assms(3)[OF ok] obtain w2 where "UploadFileManifest ref_uploader net 0 (ref_call_manifest content t) w1 = (None, w2)" by blast
  then have "finish_upload ref_uploader net 0 (ref_call_manifest content t) t uploaded w1 = (None, [], w2)" by (simp add: finish_upload_def t(3))
  from uploads.finished[OF pre t(1,2) refl us this] show ?thesis by (metis outcome.select_convs(1))
qed

lemma ref_upload_done:
  "length content < 1000 \<Longrightarrow>
    \<exists>oc. uploads ref_uploader ref_libs ref_http ref_nodes_net ref_parse (ref_call content) () (ref_client []) oc \<and> oc_err oc = None"
  using ref_upload_via[OF _ ref_http_nodes] ref_http_manifest by blast

lemma ref_signs: "\<forall>re \<in> cl_reads (ref_call content). \<forall>x. \<exists>sg. sign_with ref_uploader re x = Inr sg"
proof -
  have "\<exists>sg. sign ref_uploader x = Inr sg" for x using ref_env_sign by blast
  then show ?thesis by (simp add: ref_call_def sign_with_self)
qed

lemma ref_content [simp]: "src_content (cl_file (ref_call content)) = content"
  by (simp add: ref_call_def)

lemma ref_read_data: "readable_call ref_uploader (ref_call ''data'')"
  by (rule ref_readable) simp

lemma ref_uploaded:
  assumes "uploads ref_uploader ref_libs net ref_nodes_net ref_parse (ref_call ''data'') w (ref_client []) oc" "oc_err oc = None"
  obtains m where "oc_manifest oc = Some m" "client_ok (\<lambda>_. False) (oc_client oc)"
    "\<forall>i < nat (man_Blocks m). 3 \<le> obtainable (node_holds ref_uploader (\<lambda>_. False) (oc_client oc)) (block_of m (int i))"
proof -
  obtain m where m: "oc_manifest oc = Some m" "client_ok (\<lambda>_. False) (oc_client oc)"
    "man_Blocks m = int (length (call_blocks (ref_call ''data'')))"
    "\<forall>i < length (call_blocks (ref_call ''data'')). obtainable (node_holds ref_uploader (\<lambda>_. False) (oc_client oc)) (block_of m (int i)) = 5"
    using uploaded_file[OF ref_usable ref_read_data _ assms, of "node_holds ref_uploader (\<lambda>_. False) (oc_client oc)"]
      ref_signs ref_content by (metis list.distinct(1) sealed_file_def)
  then show ?thesis using that by simp
qed

subsection \<open>Workers that cannot sign\<close>

definition untouched :: "'w client \<Rightarrow> 'w pipe \<Rightarrow> bool" where
  "untouched client s \<longleftrightarrow> pp_err s = None \<and> pp_phase s \<noteq> ReadFailed \<and> pp_phase s \<noteq> Crashed
     \<and> (\<forall>r \<in> set (pp_input s). \<exists>b. r = Inr b) \<and> pp_client s = client \<and> pp_success s = Map.empty
     \<and> (\<forall>w \<in> set (pp_upload s). w = UIdle)"

lemma untouched_step:
  assumes "\<And>c k data. fair c \<Longrightarrow> \<exists>blk jobs. seal_block env U c k data = Inr (blk, jobs)"
    and "\<forall>re \<in> ul_reads U. \<forall>x. \<exists>e. sign_with env re x = Inl e"
  shows "pipe_step env U gnet s t \<Longrightarrow> untouched client s \<Longrightarrow> untouched client t"
proof (induction rule: pipe_step.induct)
  case (crypto_error s i b data rest c e)
  then show ?case using assms(1)[of c "pp_ids s" data] by auto
next
  case (crypto_panic s i b data rest c e)
  then show ?case using assms(1)[of c "pp_ids s" data] by auto
next
  case (upload_take s i req nodes rest re signature)
  then show ?case using assms(2) by (metis Inl_Inr_False)
next
  case (upload_saved s i req nodeAddr nodes r client1)
  then show ?case by (metis nth_mem untouched_def upload_worker.distinct(1))
next
  case (upload_next s i req nodeAddr nodes r client1)
  then show ?case by (metis nth_mem untouched_def upload_worker.distinct(1))
next
  case (upload_failed s i req)
  then show ?case by (metis nth_mem untouched_def upload_worker.distinct(1))
qed (simp_all add: untouched_def)

subsection \<open>Properties\<close>

text \<open>
  C6: an upload whose conditions are good succeeds for every schedule of its workers: with at least
  one allocated node, all allocated nodes up and packages that work, no worker ever reports an
  error, and every run can be continued until all blocks are sealed and all chunks are stored.
\<close>

theorem uploads_succeed:
  assumes "fit env U nenv" "client_ok bad client" "\<forall>a \<in> set (ul_nodes U). node_up nenv bad (snd client) a"
    and "0 < nc" "0 < nu" "pipe_run env U (node_net nenv bad) (start_pipe U nc nu (map Inr blocks) client) s"
  shows "pp_err s = None \<and> (\<exists>t. pipe_run env U (node_net nenv bad) s t \<and> pp_phase t = Joined \<and> pp_err t = None)"
proof -
  have sm: "smooth env U nenv bad s" by (rule fit_run[OF assms(1) smooth_start[OF assms(1-3)] assms(6)])
  obtain t where t: "pipe_run env U (node_net nenv bad) s t" "pp_phase t = Joined"
    using fit_ends[OF assms(1) sm fit_staffed[OF assms(1,4-6)]] by blast
  have "pp_err t = None" using fit_run[OF assms(1) sm t(1)] by (simp add: smooth_def)
  then show ?thesis using sm t by (auto simp: smooth_def)
qed

theorem uploads_succeed_witness:
  "\<exists>t. pipe_run ref_uploader (call_upload (ref_call ''data'') ref_libs [''n:1''] 1) ref_nodes_net
      (start_pipe (call_upload (ref_call ''data'') ref_libs [''n:1''] 1) 2 10 [Inr ''data''] (ref_client [])) t
    \<and> pp_phase t = Joined \<and> pp_err t = None"
proof -
  have "node_up ref_uploader (\<lambda>_. False) (snd (ref_client [])) ''n:1''"
    by (rule ref_node_up[OF ref_grpc_address]) (simp_all add: ref_client_def)
  then show ?thesis
    using uploads_succeed[OF ref_fit[of "''data''" 1], of "\<lambda>_. False" "ref_client []" 2 10 "[''data'']"
        "start_pipe (call_upload (ref_call ''data'') ref_libs [''n:1''] 1) 2 10 [Inr ''data''] (ref_client [])"]
    by (simp add: pipe_run.run_refl ref_client_def)
qed

text \<open>
  C3: the end-to-end guarantee. After an upload that returned no error, a download from the manifest
  that was sent writes exactly the file, if it is made after the release time, as long as three
  chunks of every block can still be had from the nodes: nodes may have gone, lost chunks or taken
  others in the meantime.
\<close>

theorem upload_then_download:
  fixes clock :: "int \<Rightarrow> int"
  assumes "usable env L c nenv bad client" "readable_call env c" "src_content (cl_file c) \<noteq> []"
    and "uploads env L net (node_net nenv bad) parse c w client oc" "oc_err oc = None" "oc_manifest oc = Some m"
    and "client_ok bad later"
    and "\<forall>a k. node_holds nenv bad later a (cl_uuid c k) = None
          \<or> node_holds nenv bad later a (cl_uuid c k) = node_holds nenv bad (oc_client oc) a (cl_uuid c k)"
    and "\<forall>i < nat (man_Blocks m). 3 \<le> obtainable (node_holds nenv bad later) (block_of m (int i))"
    and "parse (cl_releaseTime c) = Some t" "\<forall>i. t \<le> clock i" "tl_network L (relay r) DrandChainHash"
  shows "\<exists>s1. StreamReconstruct L (env_C env) (node_net nenv bad) write_buf clock r m [] later
    = (None, src_content (cl_file c), s1)"
  by (rule download_uploaded[OF assms])

theorem upload_then_download_witness:
  "\<exists>oc m s1. uploads ref_uploader ref_libs ref_http ref_nodes_net ref_parse (ref_call ''data'') () (ref_client []) oc
    \<and> oc_manifest oc = Some m
    \<and> StreamReconstruct ref_libs ref_crypto ref_nodes_net write_buf (\<lambda>_. 60000000000) 0 m [] (oc_client oc) = (None, ''data'', s1)"
proof -
  obtain oc where oc: "uploads ref_uploader ref_libs ref_http ref_nodes_net ref_parse (ref_call ''data'') () (ref_client []) oc"
    "oc_err oc = None" using ref_upload_done[of "''data''"] by auto
  obtain m where m: "oc_manifest oc = Some m" "client_ok (\<lambda>_. False) (oc_client oc)"
    "\<forall>i < nat (man_Blocks m). 3 \<le> obtainable (node_holds ref_uploader (\<lambda>_. False) (oc_client oc)) (block_of m (int i))"
    by (rule ref_uploaded[OF oc])
  have "\<exists>s1. StreamReconstruct ref_libs (env_C ref_uploader) ref_nodes_net write_buf (\<lambda>_. 60000000000) 0 m [] (oc_client oc)
      = (None, src_content (cl_file (ref_call ''data'')), s1)"
    by (rule upload_then_download[OF ref_usable ref_read_data _ oc m(1,2), where t = 30000000000])
      (use m(3) ref_content in \<open>simp_all add: ref_libs_def\<close>)
  then show ?thesis using oc(1) m(1) ref_content by auto
qed

text \<open>
  C5: no byte of an uploaded file leaves before its release date. While the beacon has not reached the
  round of the release date in the manifest, a download from this manifest fails and the writer is not even
  called. This holds for every network of nodes whatever they answer, honest or not: missing chunks, chunks
  of other ids, chunks without content. \<open>clock 0\<close> is when the relay is asked for the first
  block; \<open>refuses\<close> is what the documentation of the two coding packages says that they reject.
\<close>

theorem nothing_before_release:
  fixes clock :: "int \<Rightarrow> int"
  assumes "usable env L c nenv bad client" "readable_call env c" "src_content (cl_file c) \<noteq> []"
    and "uploads env L net (node_net nenv bad) parse c w client oc" "oc_err oc = None" "oc_manifest oc = Some m"
    and "parse (man_ReleaseDate m) = Some t" "tl_current L (clock 0) < tl_current L t" "refuses L"
  shows "\<exists>e s1. StreamReconstruct L (env_C env) anynet wr clock r m out later = (Some e, out, s1)"
proof -
  obtain m' d rb where u: "oc_manifest oc = Some m'" "GetRoundForTime L parse rb (cl_releaseTime c) = Inr d"
    "sealed_file L (env_C env) (\<lambda>_ _. None) d m' (call_blocks c)"
    using uploaded_file[OF assms(1-5), of "\<lambda>_ _. None"] by metis
  have m': "m' = m" using u(1) assms(6) by simp
  have "parse (cl_releaseTime c) = Some t" using uploaded_release[OF assms(1-6)] assms(7) by simp
  then have d: "d = tl_current L t" using u(2) by (simp add: GetRoundForTime_def split: if_splits)
  have "file_lib_ok L" using assms(1) by (simp add: usable_def)
  moreover have "call_blocks c \<noteq> []" using call_blocks_size(1)[OF assms(2)] assms(3) by auto
  ultimately show ?thesis
    using file_lib_ok.StreamReconstruct_locked[OF _ u(3)[unfolded m'] _ assms(9), of clock] assms(8) unfolding d by simp
qed

text \<open>Locked until thirty seconds after the epoch; nodes that answer every question with nonsense do not help.\<close>

theorem nothing_before_release_witness:
  "\<exists>oc m e s1. uploads ref_uploader ref_libs ref_http ref_nodes_net ref_parse (ref_call ''data'') () (ref_client []) oc
    \<and> oc_manifest oc = Some m
    \<and> StreamReconstruct ref_libs (env_C ref_uploader)
        (ref_nodes_net\<lparr>gn_get := \<lambda>conn k s. (Inr (marshal enc_ChunkRequest zero_ChunkRequest), s)\<rparr>) write_buf (\<lambda>_. 29000000000) 0 m [] (oc_client oc)
      = (Some e, [], s1)"
proof -
  obtain oc where oc: "uploads ref_uploader ref_libs ref_http ref_nodes_net ref_parse (ref_call ''data'') () (ref_client []) oc" "oc_err oc = None"
    using ref_upload_done[of "''data''"] by auto
  obtain m where m: "oc_manifest oc = Some m" by (rule ref_uploaded[OF oc])
  have "src_content (cl_file (ref_call ''data'')) \<noteq> []" by simp
  from nothing_before_release[OF ref_usable ref_read_data this oc m, of "30000000000" "\<lambda>_. 29000000000"
      "ref_nodes_net\<lparr>gn_get := \<lambda>conn k s. (Inr (marshal enc_ChunkRequest zero_ChunkRequest), s)\<rparr>" write_buf 0 "[]" "oc_client oc"]
  have "\<exists>e s1. StreamReconstruct ref_libs (env_C ref_uploader)
      (ref_nodes_net\<lparr>gn_get := \<lambda>conn k s. (Inr (marshal enc_ChunkRequest zero_ChunkRequest), s)\<rparr>) write_buf (\<lambda>_. 29000000000) 0 m [] (oc_client oc)
      = (Some e, [], s1)"
    using ref_refuses by (simp add: ref_libs_def)
  then show ?thesis using oc(1) m by blast
qed

text \<open>
  C36: an empty file is lost: its upload succeeds and stores a manifest of one block that has no
  chunks, and from that manifest no download ever succeeds, whatever the nodes hold.
\<close>

theorem empty_file_lost:
  fixes clock :: "int \<Rightarrow> int"
  assumes "usable env L c nenv bad client" "readable_call env c" "src_content (cl_file c) = []"
    and "uploads env L net (node_net nenv bad) parse c w client oc" "oc_err oc = None" "oc_manifest oc = Some m"
  shows "man_Blocks m = 1 \<and> (\<exists>e. StreamReconstruct L' C' gnet wr clock r m out later = (Some e, out, later))"
proof -
  obtain tb ns d w1 s m' where u: "oc_manifest oc = Some m'"
    "total_blocks (int (length (src_content (cl_file c)))) (cl_blockSize c) = Inr tb"
    "pipe_run env (call_upload c L ns d) (node_net nenv bad) (call_start c L ns d client) s"
    "m' = (new_manifest (env_C env) (cl_file c) (cl_name c) (cl_fileId c) (cl_releaseTime c) tb)\<lparr>man_Split := Some (pp_split s)\<rparr>"
    using upload_succeeded[OF assms(4,5)] by metis
  have f: "src_read_err (cl_file c) = None" "0 < cl_blockSize c" "cl_blockSize c < 2 ^ 63"
    using assms(2) by (simp_all add: readable_call_def)
  have "tb = 1" using u(2) f by (simp add: assms(3) total_blocks_def go_div_def res_bind_def wrap64_id in_int64_def)
  then have m: "man_Blocks m = 1" "man_Split m = Some (pp_split s)"
    "man_ReedSolomonConfig m = \<lparr>rsc_DataShards = DataShards, rsc_ParityShards = ParityShards\<rparr>"
    using u(1,4) assms(6) by (simp_all add: new_manifest_def)
  have none: "call_blocks c = []" by (simp add: call_blocks_def assms(3) read_blocks.simps[of _ "[]"])
  obtain made where inv: "pipe_inv env (call_upload c L ns d) (client_ok bad) (node_holds nenv bad) (call_blocks c) made s"
    using call_inv[OF assms(1) f(1) u(3)] by blast
  then have "made b = None" for b
    unfolding pipe_inv_def queue_inv_def made_inv_def none by (metis le_zero_eq list.size(3) not_less_zero)
  then have "map_of (pp_split s) 0 = None"
    using inv unfolding pipe_inv_def split_inv_def by (metis not_None_eq option.distinct(1))
  then have "block_of m 0 = zero_FileBlock" by (simp add: block_of_def m(2))
  then have "\<exists>e. reconstruct_block L' C' gnet (clock 0) m 0 later = (Inl e, later)"
    by (simp add: reconstruct_block_def m(3) zero_FileBlock_def Let_def no_shards_def config_consts)
  then show ?thesis using m(1) by (auto simp: StreamReconstruct_def)
qed

theorem empty_file_lost_witness:
  "\<exists>oc m. uploads ref_uploader ref_libs ref_http ref_nodes_net ref_parse (ref_call []) () (ref_client []) oc
    \<and> oc_err oc = None \<and> oc_manifest oc = Some m
    \<and> (\<exists>e. StreamReconstruct ref_libs ref_crypto ref_nodes_net write_buf (\<lambda>_. 60000000000) 0 m [] (oc_client oc) = (Some e, [], oc_client oc))"
proof -
  obtain oc where oc: "uploads ref_uploader ref_libs ref_http ref_nodes_net ref_parse (ref_call []) () (ref_client []) oc"
    "oc_err oc = None" using ref_upload_done[of "[]"] by auto
  obtain m where m: "oc_manifest oc = Some m" using upload_succeeded[OF oc] by metis
  have "readable_call ref_uploader (ref_call [])" "src_content (cl_file (ref_call [])) = []"
    by (rule ref_readable) (simp_all add: ref_call_def)
  from conjunct2[OF empty_file_lost[OF ref_usable this oc m]]
  have "\<exists>e. StreamReconstruct ref_libs ref_crypto ref_nodes_net write_buf (\<lambda>_. 60000000000) 0 m [] (oc_client oc) = (Some e, [], oc_client oc)" .
  then show ?thesis using oc m by blast
qed

text \<open>
  C37: a chunk whose request cannot be signed is dropped without an error. If the key file cannot be
  read while the workers run, no chunk of the file reaches a node, and still every run can be
  continued to its end without an error: the upload goes on to send the manifest.
\<close>

theorem unsigned_chunks_dropped:
  assumes "file_lib_ok (ul_libs U)" "rs_new (ul_libs U) DataShards ParityShards" "\<forall>r key. \<exists>ct. tl_encrypt (ul_libs U) r key (ul_round U) = Inr ct"
    and "ul_reads U \<noteq> {}" "\<forall>re \<in> ul_reads U. \<forall>x. \<exists>e. sign_with env re x = Inl e"
    and "0 < nc" "0 < nu" "pipe_run env U gnet (start_pipe U nc nu (map Inr blocks) client) s"
  shows "pp_err s = None \<and> pp_client s = client \<and> pp_success s = Map.empty
    \<and> (\<exists>t. pipe_run env U gnet s t \<and> pp_phase t = Joined \<and> pp_err t = None)"
proof -
  have works: "\<exists>blk jobs. seal_block env U c k data = Inr (blk, jobs)" if "fair c" for c k data
    using seal_block_works[OF assms(1,2) that] assms(3) by blast
  note step = untouched_step[OF works assms(5)]
  have "untouched client (start_pipe U nc nu (map Inr blocks) client)"
    using assms(2) by (auto simp: untouched_def start_pipe_def Let_def)
  then have un: "untouched client s" using run_invariant[OF assms(8), of "untouched client"] step by blast
  have "staffed U s"
    using run_invariant[OF assms(8), of "staffed U"] start_staffed[OF assms(6,7,2,4)] staffed_step by blast
  from run_to_end[OF this] obtain t where t: "pipe_run env U gnet s t" "pp_phase t \<notin> {Reading, Draining, Uploading}" by blast
  have "untouched client t" using run_invariant[OF t(1), of "untouched client"] step un by blast
  then show ?thesis using t un by (cases "pp_phase t") (auto simp: untouched_def)
qed

theorem unsigned_chunks_dropped_witness:
  "\<exists>t. pipe_run ref_uploader ((ref_upload [''n:1''])\<lparr>ul_reads := {\<lambda>_. Some ''io''}\<rparr>) ref_nodes_net
      (start_pipe ((ref_upload [''n:1''])\<lparr>ul_reads := {\<lambda>_. Some ''io''}\<rparr>) 2 10 [Inr ''data''] (ref_client [])) t
    \<and> pp_phase t = Joined \<and> pp_err t = None"
proof -
  let ?U = "(ref_upload [''n:1''])\<lparr>ul_reads := {\<lambda>_. Some ''io''}\<rparr>"
  have "\<forall>re \<in> ul_reads ?U. \<forall>x. \<exists>e. sign_with ref_uploader re x = Inl e"
    by (simp add: sign_with_def SignMessage_def ReadFile_def)
  from unsigned_chunks_dropped[OF _ _ _ _ this, of 2 10 ref_nodes_net "[''data'']" "ref_client []"
      "start_pipe ?U 2 10 [Inr ''data''] (ref_client [])"]
  show ?thesis
    using ref_libs.file_lib_ok_axioms by (simp add: ref_upload_def pipe_run.run_refl) (simp add: ref_libs_def config_consts)
qed

text \<open>
  C38: the chunks of a small file do not spread. A file of at most one block asks for the targets of
  five chunks, which is two nodes; when it gets no more, then after a successful upload one node has
  three chunks, as many as it takes to rebuild the file.
\<close>

theorem one_block_on_one_node:
  assumes "usable env L c nenv bad client" "readable_call env c" "src_content (cl_file c) \<noteq> []"
    and "int (length (src_content (cl_file c))) \<le> cl_blockSize c"
    and "uploads env L net (node_net nenv bad) parse c w client oc" "oc_err oc = None" "oc_manifest oc = Some m"
    and "\<forall>re \<in> cl_reads c. \<forall>x. \<exists>sg. sign_with env re x = Inr sg"
    and "\<forall>ra ns w1. RequestNodesForFileUpload env net ra 5 w = (Inr ns, w1) \<longrightarrow> length (elems ns) \<le> 2"
  shows "man_Blocks m = 1 \<and> (\<exists>a. 3 \<le> length (filter (\<lambda>ch. node_holds nenv bad (oc_client oc) a (chk_ChunkId ch) \<noteq> None)
    (elems (blk_Chunks (block_of m 0)))))"
proof -
  obtain m' ns d w1 s made where u: "oc_manifest oc = Some m'" "oc_client oc = pp_client s"
    "\<exists>ra q. RequestNodesForFileUpload env net ra (wrap64 (int (length (call_blocks c)) * TotalShards)) w = (Inr q, w1) \<and> ns = elems q"
    "pp_phase s = Joined" "pp_err s = None"
    "pipe_inv env (call_upload c L ns d) (client_ok bad) (node_holds nenv bad) (call_blocks c) made s"
    "m' = (new_manifest (env_C env) (cl_file c) (cl_name c) (cl_fileId c) (cl_releaseTime c) (int (length (call_blocks c))))
      \<lparr>man_Split := Some (pp_split s)\<rparr>"
    by (rule upload_state[OF assms(1-3,5,6)])
  have one: "length (call_blocks c) = 1" by (rule call_blocks_size(4)[OF assms(2-4)])
  then have few: "length (ul_nodes (call_upload c L ns d)) \<le> 2" using u(3) assms(9) by (auto simp: total_shards wrap64_id in_int64_def)
  note up = call_uploading[OF assms(1), of ns d]
  obtain blk shards jobs where b: "map_of (pp_split s) (int 0) = Some blk" "made 0 = Some (blk, shards, jobs)"
    "made_ok env (call_upload c L ns d) (call_blocks c) 0 blk shards jobs"
    using uploading.joined_blocks[OF up u(6,4,5), of 0] one by auto
  from uploading.joined_concentrated[OF up u(6,4,5) signs_not_lossy[OF assms(8)] b(2,3) few] show ?thesis
    using b(1) u(1,2,7) assms(7) one by (simp add: block_of_def new_manifest_def)
qed

theorem one_block_on_one_node_witness:
  "\<exists>oc m a. uploads ref_uploader ref_libs ref_http ref_nodes_net ref_parse (ref_call ''data'') () (ref_client []) oc
    \<and> oc_manifest oc = Some m \<and> 3 \<le> length (filter
    (\<lambda>ch. node_holds ref_uploader (\<lambda>_. False) (oc_client oc) a (chk_ChunkId ch) \<noteq> None) (elems (blk_Chunks (block_of m 0))))"
proof -
  obtain oc where oc: "uploads ref_uploader ref_libs ref_http ref_nodes_net ref_parse (ref_call ''data'') () (ref_client []) oc"
    "oc_err oc = None" using ref_upload_done[of "''data''"] by auto
  obtain m where m: "oc_manifest oc = Some m" using upload_succeeded[OF oc] by metis
  have f: "src_content (cl_file (ref_call ''data'')) = ''data''" "cl_blockSize (ref_call ''data'') = 1536000" by (simp_all add: ref_call_def)
  have read: "readable_call ref_uploader (ref_call ''data'')" by (rule ref_readable) simp
  have "decode_stream (dec_slice dec_str []) None (marshal (enc_slice JStr) (Some [''n:1''])) = (Some [''n:1''], True)"
    by (rule stream_strs) (simp add: ok_strs_def)
  then have "\<forall>ra ns w1. RequestNodesForFileUpload ref_uploader ref_http ra 5 () = (Inr ns, w1) \<longrightarrow> length (elems ns) \<le> 2"
    by (auto simp: RequestNodesForFileUpload_def Intn_def Let_def ref_http_def split: sum.splits)
  from one_block_on_one_node[OF ref_usable read _ _ oc m ref_signs this]
  have "\<exists>a. 3 \<le> length (filter (\<lambda>ch. node_holds ref_uploader (\<lambda>_. False) (oc_client oc) a (chk_ChunkId ch) \<noteq> None)
    (elems (blk_Chunks (block_of m 0))))" by (simp add: f)
  then show ?thesis using oc(1) m by blast
qed

end
