(* ===== verification/Upload_Rollback.thy ===== *)
theory Upload_Rollback
  imports Upload_Download
begin

text \<open>
  The rollback of \<open>StreamAndUploadFile\<close>, over the whole call: an upload that failed leaves on the
  nodes what was there before. A sealed chunk is in one place at a time, with the crypto worker that
  made it, in the channel, with an upload worker, or saved at one node; so what the map of
  successful uploads records is all that the nodes got.
\<close>

subsection \<open>A network whose saves are exact\<close>

text \<open>
  A save changes what is held only at its address and id and only if it was acknowledged, and
  addresses with the same gRPC target are one node.
\<close>

locale exact_net = chunk_net gnet inv holds
  for gnet :: "'w gnet" and inv :: "'w client \<Rightarrow> bool" and holds +
  assumes save_exact: "inv s \<Longrightarrow> save_at gnet addr req s = (r, s') \<Longrightarrow> holds s' a k \<noteq> holds s a k
      \<Longrightarrow> saved r \<and> k = crq_ChunkId req \<and> grpc_address a = grpc_address addr"
    and same_target: "grpc_address a = grpc_address b \<Longrightarrow> holds s a = holds s b"

subsection \<open>One place at a time\<close>

fun crypto_has :: "bytes \<Rightarrow> crypto_worker \<Rightarrow> nat" where
  "crypto_has k (CPush b blk jobs) = count_list (map job_id jobs) k"
| "crypto_has k _ = 0"

fun upload_has :: "bytes \<Rightarrow> upload_worker \<Rightarrow> nat" where
  "upload_has k (UTry req nodes) = (if crq_ChunkId req = k then 1 else 0)"
| "upload_has k UIdle = 0"

definition places :: "bytes \<Rightarrow> 'w pipe \<Rightarrow> nat" where
  "places k s = sum_list (map (crypto_has k) (pp_crypto s)) + count_list (map job_id (pp_uploadJobs s)) k
     + sum_list (map (upload_has k) (pp_upload s)) + (if pp_success s k = None then 0 else 1)"

text \<open>The ids that were drawn so far.\<close>

definition drawn :: "upload \<Rightarrow> 'w pipe \<Rightarrow> bytes set" where
  "drawn U s = ul_uuid U ` {..<pp_ids s}"

definition once :: "upload \<Rightarrow> 'w pipe \<Rightarrow> bool" where
  "once U s \<longleftrightarrow> (\<forall>k. places k s \<le> (if k \<in> drawn U s then 1 else 0))"

lemma seal_block_ids:
  assumes "seal_block env U c n data = Inr (blk, jobs)"
  shows "map job_id jobs = map (\<lambda>i. ul_uuid U (n + i)) [0..<5]"
proof -
  obtain shards parts made where m: "make_chunks env U c n shards parts [0..<5] = Inr made" "jobs = map snd made"
    using assms by (auto simp: seal_block_def res_bind_Inr Let_def total_shards)
  note made = make_chunks_nth[OF m(1)]
  show ?thesis
  proof (rule nth_equalityI)
    show "length (map job_id jobs) = length (map (\<lambda>i. ul_uuid U (n + i)) [0..<5])" using made m(2) by simp
    fix i assume "i < length (map job_id jobs)"
    then have i: "i < 5" "i < length made" using made m(2) by simp_all
    then obtain ns ch where "made ! i = (ch, (chunk_request env U (cc_now c) (ul_uuid U (n + [0..<5] ! i)) (shards ! ([0..<5] ! i)), ns))"
      using made by fastforce
    then show "map job_id jobs ! i = map (\<lambda>i. ul_uuid U (n + i)) [0..<5] ! i"
      using i m(2) by (simp add: job_id_def chunk_request_def)
  qed
qed

lemma count_distinct: "distinct xs \<Longrightarrow> count_list xs k = (if k \<in> set xs then 1 else 0)"
  by (induction xs) auto

lemma seal_block_once:
  assumes "seal_block env U c n data = Inr (blk, jobs)" "inj (ul_uuid U)"
  shows "count_list (map job_id jobs) k = (if k \<in> ul_uuid U ` {n..<n + 5} then 1 else 0)"
proof -
  have "map job_id jobs = map (ul_uuid U) [n..<n + 5]"
    unfolding seal_block_ids[OF assms(1)] by (rule nth_equalityI) simp_all
  moreover have "distinct (map (ul_uuid U) [n..<n + 5])" using assms(2) by (simp add: distinct_map inj_on_def inj_def)
  ultimately show ?thesis using count_distinct[of "map (ul_uuid U) [n..<n + 5]" k] by simp
qed

lemma once_mono:
  assumes "once U s" "\<And>k. places k t \<le> places k s" "pp_ids s \<le> pp_ids t"
  shows "once U t"
  unfolding once_def
proof
  fix k
  have "drawn U s \<subseteq> drawn U t" using assms(3) by (auto simp: drawn_def)
  moreover have "places k s \<le> (if k \<in> drawn U s then 1 else 0)" using assms(1) by (simp add: once_def)
  ultimately show "places k t \<le> (if k \<in> drawn U t then 1 else 0)"
    using assms(2)[of k] by (cases "k \<in> drawn U s") auto
qed

lemma once_take:
  assumes "once U s" "inj (ul_uuid U)" "i < length (pp_crypto s)" "pp_crypto s ! i = CIdle"
    and "seal_block env U c (pp_ids s) data = Inr (blk, jobs)"
  shows "once U (s\<lparr>pp_cryptoJobs := rest, pp_ids := pp_ids s + 5, pp_crypto := (pp_crypto s)[i := CPush b blk jobs]\<rparr>)"
    (is "once U ?t")
  unfolding once_def
proof
  fix k
  let ?new = "ul_uuid U ` {pp_ids s..<pp_ids s + 5}"
  have p: "places k ?t = places k s + (if k \<in> ?new then 1 else 0)"
    using sum_list_update_nat[OF assms(3), of "crypto_has k" "CPush b blk jobs"] assms(4) seal_block_once[OF assms(5,2), of k]
    by (simp add: places_def)
  have "k \<notin> drawn U s" if "k \<in> ?new" using that assms(2) by (auto simp: drawn_def dest: injD)
  moreover have "{..<pp_ids s + 5} = {..<pp_ids s} \<union> {pp_ids s..<pp_ids s + 5}" by auto
  then have "drawn U ?t = drawn U s \<union> ?new" by (simp add: drawn_def image_Un)
  moreover have "places k s \<le> (if k \<in> drawn U s then 1 else 0)" using assms(1) by (simp add: once_def)
  ultimately show "places k ?t \<le> (if k \<in> drawn U ?t then 1 else 0)" unfolding p by auto
qed

lemma once_step:
  assumes "inj (ul_uuid U)"
  shows "pipe_step env U gnet s t \<Longrightarrow> once U s \<Longrightarrow> once U t"
proof (induction rule: pipe_step.induct)
  case (crypto_take s i b data rest c blk jobs)
  show ?case by (rule once_take[OF crypto_take(7) assms crypto_take(2,3,6)])
next
  case (crypto_push s i b blk job jobs)
  from crypto_push(5) show ?case
  proof (rule once_mono)
    show "places k (s\<lparr>pp_uploadJobs := pp_uploadJobs s @ [job], pp_crypto := (pp_crypto s)[i := CPush b blk jobs]\<rparr>) \<le> places k s" for k
      using sum_list_update_nat[OF crypto_push(2), of "crypto_has k" "CPush b blk jobs"] crypto_push(3) by (simp add: places_def split: if_splits)
  qed simp
next
  case (crypto_store s i b blk)
  from crypto_store(4) show ?case
  proof (rule once_mono)
    show "places k (s\<lparr>pp_split := gm_put (int b) blk (pp_split s), pp_crypto := (pp_crypto s)[i := CIdle]\<rparr>) \<le> places k s" for k
      using sum_list_update_nat[OF crypto_store(2), of "crypto_has k" CIdle] crypto_store(3) by (simp add: places_def)
  qed simp
next
  case (upload_take s i req nodes rest re signature)
  let ?w = "UTry (req\<lparr>crq_Signature := Some signature\<rparr>) nodes"
  from upload_take(7) show ?case
  proof (rule once_mono)
    show "places k (s\<lparr>pp_uploadJobs := rest, pp_upload := (pp_upload s)[i := ?w]\<rparr>) \<le> places k s" for k
      using sum_list_update_nat[OF upload_take(2), of "upload_has k" ?w] upload_take(3,4) by (simp add: places_def job_id_def)
  qed simp
next
  case (upload_saved s i req nodeAddr nodes r client1)
  from upload_saved(6) show ?case
  proof (rule once_mono)
    show "places k (s\<lparr>pp_success := (pp_success s)(crq_ChunkId req \<mapsto> nodeAddr), pp_client := client1,
        pp_upload := (pp_upload s)[i := UIdle]\<rparr>) \<le> places k s" for k
      using sum_list_update_nat[OF upload_saved(2), of "upload_has k" UIdle] upload_saved(3)
      by (cases "crq_ChunkId req = k") (auto simp: places_def)
  qed simp
next
  case (upload_next s i req nodeAddr nodes r client1)
  from upload_next(6) show ?case
  proof (rule once_mono)
    show "places k (s\<lparr>pp_client := client1, pp_upload := (pp_upload s)[i := UTry req nodes]\<rparr>) \<le> places k s" for k
      using sum_list_update_nat[OF upload_next(2), of "upload_has k" "UTry req nodes"] upload_next(3) by (simp add: places_def)
  qed simp
next
  case (upload_failed s i req)
  from upload_failed(4) show ?case
  proof (rule once_mono)
    show "places k (report (Err ''failed to upload chunk'') (s\<lparr>pp_upload := (pp_upload s)[i := UIdle]\<rparr>)) \<le> places k s" for k
      using sum_list_update_nat[OF upload_failed(2), of "upload_has k" UIdle] upload_failed(3) by (simp add: places_def)
  qed simp
qed (auto elim!: once_mono simp: places_def)

lemma once_start: "once U (start_pipe U nc nu input client)"
  by (simp add: once_def places_def start_pipe_def Let_def sum_list_replicate)

subsection \<open>What the nodes got is recorded\<close>

text \<open>What is held differently from the start is recorded, at the same gRPC target.\<close>

definition recorded ::
  "('w client \<Rightarrow> bool) \<Rightarrow> ('w client \<Rightarrow> bytes \<Rightarrow> bytes \<Rightarrow> bytes option) \<Rightarrow> upload \<Rightarrow> 'w client \<Rightarrow> 'w pipe \<Rightarrow> bool" where
  "recorded ok holds U client s \<longleftrightarrow> ok (pp_client s) \<and> once U s
     \<and> (\<forall>a k. holds (pp_client s) a k \<noteq> holds client a k \<longrightarrow> (\<exists>a'. pp_success s k = Some a' \<and> grpc_address a = grpc_address a'))"

context exact_net
begin

lemma recorded_frame:
  "recorded inv holds U client s \<Longrightarrow> once U t \<Longrightarrow> pp_client t = pp_client s \<Longrightarrow> pp_success t = pp_success s \<Longrightarrow> recorded inv holds U client t"
  by (simp add: recorded_def)

lemma recorded_step:
  assumes "inj (ul_uuid U)" "pipe_step env U gnet s t" "recorded inv holds U client s"
  shows "recorded inv holds U client t"
proof -
  have once: "once U s" "once U t" using once_step[OF assms(1,2)] assms(3) by (simp_all add: recorded_def)
  have ok: "inv (pp_client s)" using assms(3) by (simp add: recorded_def)
  show ?thesis
    using assms(2)
  proof (cases rule: pipe_step.cases)
    case (upload_saved i req nodeAddr nodes r client1)
    have "1 \<le> sum_list (map (upload_has (crq_ChunkId req)) (pp_upload s))"
      using elem_le_sum_list[of i "map (upload_has (crq_ChunkId req)) (pp_upload s)"] upload_saved(3,4) by simp
    moreover have "places (crq_ChunkId req) s \<le> 1" using once(1) unfolding once_def by (metis le_zero_eq zero_le_one)
    ultimately have new: "pp_success s (crq_ChunkId req) = None" by (simp add: places_def split: if_splits)
    have "inv client1" using save_inv[OF ok, of nodeAddr req] upload_saved(5) by simp
    moreover have "\<exists>a'. pp_success t k = Some a' \<and> grpc_address a = grpc_address a'"
      if d: "holds (pp_client t) a k \<noteq> holds client a k" for a k
    proof (cases "holds client1 a k = holds (pp_client s) a k")
      case True
      then obtain a' where "pp_success s k = Some a'" "grpc_address a = grpc_address a'"
        using d assms(3) upload_saved(1) by (auto simp: recorded_def)
      then show ?thesis using new upload_saved(1) by auto
    next
      case False
      then show ?thesis using save_exact[OF ok upload_saved(5)] upload_saved(1) by auto
    qed
    ultimately show ?thesis using once(2) upload_saved(1) by (simp add: recorded_def)
  next
    case (upload_next i req nodeAddr nodes r client1)
    have "inv client1" using save_inv[OF ok, of nodeAddr req] upload_next(5) by simp
    moreover have "holds client1 a k = holds (pp_client s) a k" for a k
      using save_exact[OF ok upload_next(5)] upload_next(6) by blast
    ultimately show ?thesis using once(2) assms(3) upload_next(1) by (simp add: recorded_def)
  qed (use once(2) assms(3) in \<open>auto elim!: recorded_frame\<close>)
qed

lemma run_recorded:
  "pipe_run env U gnet s t \<Longrightarrow> inj (ul_uuid U) \<Longrightarrow> recorded inv holds U client s \<Longrightarrow> recorded inv holds U client t"
  using run_invariant[of env U gnet s t "recorded inv holds U client"] recorded_step by blast

text \<open>Deletions touch their own chunks only.\<close>

lemma deletions_inv: "inv s \<Longrightarrow> inv (snd (run_deletions gnet tasks s))"
proof (induction tasks arbitrary: s)
  case (Cons task tasks)
  have "inv (snd (run_deletion gnet task s))" using delete_inv[OF Cons.prems] by (simp add: run_deletion_def)
  then show ?case using Cons.IH[of "snd (run_deletion gnet task s)"] by (simp add: case_prod_beta Let_def)
qed simp

lemma deletions_other: "inv s \<Longrightarrow> k \<notin> fst ` set tasks \<Longrightarrow> holds (snd (run_deletions gnet tasks s)) a k = holds s a k"
proof (induction tasks arbitrary: s)
  case (Cons task tasks)
  let ?s = "snd (run_deletion gnet task s)"
  have "inv ?s" "holds ?s a k = holds s a k"
    using delete_inv[OF Cons.prems(1)] delete_other[OF Cons.prems(1)] Cons.prems(2) by (simp_all add: run_deletion_def)
  then show ?case using Cons.IH[of ?s] Cons.prems(2) by (simp add: case_prod_beta Let_def)
qed simp

text \<open>Deleting all that is recorded restores what was held before.\<close>

lemma rollback_restores:
  assumes "recorded inv holds U client s" "\<forall>a k. holds client a (ul_uuid U k) = None"
    and "set tasks = {(k, a). pp_success s k = Some a}"
    and "run_deletions gnet tasks (pp_client s) = (es, client1)" "set es \<subseteq> {None}"
  shows "holds client1 = holds client"
proof (intro ext)
  fix a k
  have ok: "inv (pp_client s)" using assms(1) by (simp add: recorded_def)
  have c1: "client1 = snd (run_deletions gnet tasks (pp_client s))" "es = fst (run_deletions gnet tasks (pp_client s))"
    using assms(4) by simp_all
  show "holds client1 a k = holds client a k"
  proof (cases "pp_success s k")
    case None
    then have "k \<notin> fst ` set tasks" using assms(3) by auto
    then have "holds client1 a k = holds (pp_client s) a k" unfolding c1 by (rule deletions_other[OF ok])
    also have "\<dots> = holds client a k" using assms(1) None unfolding recorded_def by force
    finally show ?thesis .
  next
    case (Some b)
    then have "(k, b) \<in> set tasks" using assms(3) by simp
    then have gone: "holds client1 b k = None" unfolding c1 using deletions_done[OF ok] assms(5) c1(2) by simp
    have "1 \<le> places k s" using Some by (simp add: places_def)
    moreover have "places k s \<le> (if k \<in> drawn U s then 1 else 0)" using assms(1) by (simp add: recorded_def once_def)
    ultimately have "k \<in> drawn U s" by (cases "k \<in> drawn U s") auto
    then have fresh: "holds client a k = None" using assms(2) by (auto simp: drawn_def)
    show ?thesis
    proof (cases "grpc_address a = grpc_address b")
      case True
      then show ?thesis using same_target[of a b client1] gone fresh by simp
    next
      case False
      then have "holds (pp_client s) a k = None" using assms(1) Some fresh unfolding recorded_def by (metis option.inject)
      then show ?thesis using deletions_keep_none[OF ok, of a k tasks] c1(1) fresh by simp
    qed
  qed
qed

end

subsection \<open>The nodes are such a network\<close>

lemma SaveChunk_success: "NodeServer_SaveChunk env req db = (q, db1) \<Longrightarrow> snd q = None \<Longrightarrow> saved (rpc_result q)"
  by (auto simp: NodeServer_SaveChunk_def Let_def rpc_fail_def rpc_ok_def rpc_result_def saved_def split: if_splits prod.splits option.splits)

context node_stores
begin

lemma save_changes:
  assumes "client_ok bad s" "save_at (node_net env bad) addr req s = (r, s')" "node_holds env bad s' a k \<noteq> node_holds env bad s a k"
  shows "saved r \<and> k = crq_ChunkId req \<and> grpc_address a = grpc_address addr"
proof -
  consider (same) "snd s' = snd s"
    | (run) t db db1 q where "grpc_address addr = Inr t" "snd s t = Some db"
        "NodeServer_SaveChunk env (pb_ChunkRequest req) db = (q, db1)" "r = rpc_result q" "snd s' = (snd s)(t \<mapsto> db1)"
    using save_at_steps[OF assms(1,2)] by blast
  then show ?thesis
  proof cases
    case same
    then show ?thesis using holds_world[OF same, of bad] assms(3) by simp
  next
    case run
    have "node_holds env bad s' a k = node_holds env bad (fst s, (snd s)(t \<mapsto> db1)) a k"
      using holds_world[of "(fst s, (snd s)(t \<mapsto> db1))" s' bad] run(5) by simp
    then have ch: "grpc_address a = Inr t" "view (env_bg env) db1 ns_chunks k \<noteq> view (env_bg env) db ns_chunks k"
      using assms(3) run(2) unfolding holds_update[OF run(2)] by (auto simp: node_holds_def split: if_splits)
    then show ?thesis
      using NodeServer_SaveChunk_view[OF run(3)] SaveChunk_success[OF run(3)] run(1,4) by (auto split: if_splits)
  qed
qed

end

sublocale node_stores \<subseteq> exact: exact_net "node_net env bad" "client_ok bad" "node_holds env bad" for bad
proof (standard, goal_cases)
  case (1 s addr req r s' a k)
  then show ?case by (rule save_changes)
next
  case (2 a b s)
  then show ?case by (simp add: node_holds_def fun_eq_iff)
qed

context node_stores
begin

lemma exact_laws: "exact_net (node_net env bad) (client_ok bad) (node_holds env bad)"
  by (rule exact.exact_net_axioms)

end

lemma node_net_exact: "badger_ok (env_bg env) \<Longrightarrow> exact_net (node_net env bad) (client_ok bad) (node_holds env bad)"
  by (rule node_stores.exact_laws) (rule node_stores.intro)

subsection \<open>The whole call\<close>

lemma call_recorded:
  assumes "usable env L c nenv bad client" "pipe_run env (call_upload c L ns d) (node_net nenv bad) (call_start c L ns d client) s"
  shows "recorded (client_ok bad) (node_holds nenv bad) (call_upload c L ns d) client s"
proof -
  have ex: "exact_net (node_net nenv bad) (client_ok bad) (node_holds nenv bad)"
    using assms(1) by (intro node_net_exact) (simp add: usable_def)
  have "pp_client (call_start c L ns d client) = client" by (simp add: call_start_def start_pipe_def Let_def)
  moreover have "once (call_upload c L ns d) (call_start c L ns d client)" unfolding call_start_def by (rule once_start)
  ultimately have "recorded (client_ok bad) (node_holds nenv bad) (call_upload c L ns d) client (call_start c L ns d client)"
    using assms(1) by (simp add: recorded_def usable_def)
  then show ?thesis using exact_net.run_recorded[OF ex assms(2)] assms(1) by (simp add: usable_def)
qed

text \<open>A chunk is recorded under one of the drawn ids and at one of the allocated nodes.\<close>

lemma recorded_job:
  assumes "pipe_inv env U ok holds blocks made s" "pp_success s k = Some a"
  shows "a \<in> set (ul_nodes U)" "k \<in> range (ul_uuid U)"
proof -
  obtain job where j: "job_in made job" "job_id job = k" "a \<in> set (snd job)"
    using assms unfolding pipe_inv_def net_inv_def by blast
  then obtain b blk shards jobs where m: "made b = Some (blk, shards, jobs)" "job \<in> set jobs" by (auto simp: job_in_def)
  have "made_ok env U blocks b blk shards jobs" using assms(1) m(1) by (auto simp: pipe_inv_def made_inv_def)
  from made_ok_job[OF this m(2)] obtain i where "job_id job = ul_uuid U (5 * b + i)"
    "job_of env U (elems (blk_Chunks blk) ! i) (shards ! i) job" by metis
  then show "a \<in> set (ul_nodes U)" "k \<in> range (ul_uuid U)" using j(2,3) by (auto simp: job_of_def)
qed

text \<open>Deletions at nodes that are up are acknowledged.\<close>

lemma deletions_work:
  assumes "badger_ok (env_bg nenv)"
  shows "client_ok bad s \<Longrightarrow> \<forall>(k, a) \<in> set tasks. utf8_ok k \<and> node_up nenv bad (snd s) a
    \<Longrightarrow> set (fst (run_deletions (node_net nenv bad) tasks s)) \<subseteq> {None}"
proof (induction tasks arbitrary: s)
  case (Cons task tasks)
  obtain k a where t: "task = (k, a)" by (cases task)
  obtain s1 where d: "RequestChunkDeletion (node_net nenv bad) a k s = (None, s1)"
    using delete_works[OF Cons.prems(1), of nenv a k] Cons.prems(2) t by auto
  have s1: "client_ok bad s1 \<and> dom (snd s1) = dom (snd s)"
    using node_stores.RequestChunkDeletion_steps[OF node_stores.intro[OF assms] Cons.prems(1) d] by (auto split: if_splits)
  have "utf8_ok l \<and> node_up nenv bad (snd s1) b" if "(l, b) \<in> set tasks" for l b
  proof -
    have "utf8_ok l \<and> node_up nenv bad (snd s) b" using Cons.prems(2) that by auto
    then show ?thesis using node_up_dom s1 by blast
  qed
  then have "\<forall>(l, b) \<in> set tasks. utf8_ok l \<and> node_up nenv bad (snd s1) b" by auto
  then show ?case using Cons.IH[of s1] s1 d by (simp add: run_deletion_def t case_prod_beta Let_def)
qed simp

text \<open>
  C8: a failed upload leaves nothing behind. When \<open>StreamAndUploadFile\<close> of a file that can be read returns
  an error, because it could not be prepared, a worker reported an error, or the manifest was not
  accepted, and the deletions its rollback starts are all acknowledged, then every node holds exactly what it
  held before the call, for every schedule of the workers and every order of the deletions. The chunk ids must
  be fresh. A read error (\<open>read_failed\<close>) rolls nothing back, and a panic ends the process. As in \<open>node_net\<close>, a call
  that fails did not run its handler: a save that is done but whose answer is lost stays.
\<close>

theorem rollback_removes:
  assumes "usable env L c nenv bad client" "src_read_err (cl_file c) = None"
    and "uploads env L net (node_net nenv bad) parse c w client oc" "oc_err oc = Some (Err e)"
    and "run_deletions (node_net nenv bad) (oc_deletions oc) (oc_client oc) = (es, client1)" "set es \<subseteq> {None}"
  shows "node_holds nenv bad client1 = node_holds nenv bad client"
  using assms(3)
proof (cases rule: uploads.cases)
  case (not_prepared ra rb rc e w1)
  then show ?thesis using assms(5) by simp
next
  case (read_failed ra rb rc totalBlocks nodes drandRound w1 s)
  then show ?thesis
    using call_inv[OF assms(1,2) read_failed(3)] by (auto simp: pipe_inv_def phase_inv_def)
next
  case (finished ra rb rc totalBlocks nodes drandRound w1 s m uploaded r e' ds w2)
  have ex: "exact_net (node_net nenv bad) (client_ok bad) (node_holds nenv bad)"
    using assms(1) by (intro node_net_exact) (simp add: usable_def)
  have "e' = Some (Err e)" using finished(1) assms(4) by simp
  then have "ds = uploaded"
    using finished(8) by (auto simp: finish_upload_def split: option.splits prod.splits fault.splits)
  then have tasks: "set (oc_deletions oc) = {(k, a). pp_success s k = Some a}" using finished(1,7) by simp
  have "run_deletions (node_net nenv bad) (oc_deletions oc) (pp_client s) = (es, client1)" using assms(5) finished(1) by simp
  then show ?thesis
    using exact_net.rollback_restores[OF ex call_recorded[OF assms(1) finished(3)] _ tasks _ assms(6)] assms(1)
    by (simp add: usable_def)
qed

text \<open>A server that allocates the node and then goes away: the manifest cannot be uploaded.\<close>

definition ref_half :: "bool net" where
  "ref_half = \<lparr>net_post = (\<lambda>w u b. if w then (Inl ''down'', w) else (Inr (200, marshal (enc_slice JStr) (Some [''n:1''])), True)),
     net_delete = (\<lambda>w u b. (Inl ''down'', w))\<rparr>"

lemma ref_half_nodes: "RequestNodesForFileUpload ref_uploader ref_half 0 5 False = (Inr (Some [''n:1'']), True)"
proof -
  obtain sg where "sign ref_uploader (marshal enc_NodesForFileUploadRequest \<lparr>nfu_Address = self_address (env_cfg ref_uploader),
      nfu_PublicKey = cfg_PublicKey (env_cfg ref_uploader), nfu_Signature = None,
      nfu_TotalChunks = 5, nfu_NodesPerChunk = ChunksTolerance\<rparr>) = Inr sg"
    using ref_env_sign by blast
  moreover have "decode_stream (dec_slice dec_str []) None (marshal (enc_slice JStr) (Some [''n:1''])) = (Some [''n:1''], True)"
    by (rule stream_strs) (simp add: ok_strs_def)
  ultimately show ?thesis by (simp add: RequestNodesForFileUpload_def Intn_def Let_def ref_half_def)
qed

lemma ref_half_manifest: "UploadFileManifest ref_uploader ref_half 0 m True = (Some (Err ''down''), True)"
proof -
  obtain sg where "sign ref_uploader (sha256 (env_C ref_uploader) (marshal enc_FileManifest m)) = Inr sg" using ref_env_sign by blast
  then show ?thesis by (simp add: UploadFileManifest_def Intn_def Let_def ref_half_def)
qed

lemma ref_half_upload:
  obtains oc k where "uploads ref_uploader ref_libs ref_half ref_nodes_net ref_parse (ref_call ''data'') False (ref_client []) oc"
    "oc_err oc = Some (Err ''manifest upload failed'')"
    "set (fst (run_deletions ref_nodes_net (oc_deletions oc) (oc_client oc))) \<subseteq> {None}"
    "node_holds ref_uploader (\<lambda>_. False) (oc_client oc) ''n:1'' k \<noteq> None"
proof -
  let ?c = "ref_call ''data''" and ?U = "ref_call_upload ''data''" and ?holds = "node_holds ref_uploader (\<lambda>_. False)"
  have pre: "prepare_upload ref_uploader ref_libs ref_half ref_parse 0 0 0 (cl_file ?c) (cl_blockSize ?c) (cl_releaseTime ?c) False = (Inr (1, [''n:1''], 1), True)"
    using ref_prepared[OF _ ref_half_nodes, of "''data''"] by (simp add: ref_call_def)
  obtain t uploaded where t: "pipe_run ref_uploader ?U ref_nodes_net (ref_call_start ''data'') t"
    "pp_phase t = Joined" "pp_err t = None" "smooth ref_uploader ?U ref_uploader (\<lambda>_. False) t"
    and us: "distinct uploaded" "set uploaded = {(k, a). pp_success t k = Some a}"
    by (rule ref_pipe_done[of "''data''"]) simp
  have fin: "finish_upload ref_uploader ref_half 0 (ref_call_manifest ''data'' t) t uploaded True
      = (Some (Err ''manifest upload failed''), uploaded, True)"
    by (simp add: finish_upload_def t(3) ref_half_manifest)
  note up = uploads.finished[OF pre t(1,2) refl us fin]
  obtain made where inv: "pipe_inv ref_uploader ?U (client_ok (\<lambda>_. False)) ?holds (call_blocks ?c) made t"
    using call_inv[OF ref_usable _ t(1)] by (auto simp: ref_call_def)
  have net: "client_ok (\<lambda>_. False) (pp_client t)" "\<forall>a \<in> set (ul_nodes ?U). node_up ref_uploader (\<lambda>_. False) (snd (pp_client t)) a"
    using t(4) by (simp_all add: smooth_def)
  have "utf8_ok k \<and> node_up ref_uploader (\<lambda>_. False) (snd (pp_client t)) a" if "(k, a) \<in> set uploaded" for k a
  proof -
    have "pp_success t k = Some a" using that us(2) by simp
    from recorded_job[OF inv this] show ?thesis using net(2) ref_uuid_utf8 by (auto simp: ref_call_def simp del: replicate_Suc)
  qed
  then have del: "set (fst (run_deletions ref_nodes_net uploaded (pp_client t))) \<subseteq> {None}"
    by (intro deletions_work[OF _ net(1)]) (auto simp: reliable_ok mem_reliable)
  have "\<exists>k a. pp_success t k = Some a"
  proof -
    have "length (call_blocks ?c) = 1" using call_blocks_size(4)[OF ref_read_data] by (simp add: ref_call_def)
    then have "0 < length (call_blocks ?c)" by simp
    then obtain blk shards jobs where b: "made 0 = Some (blk, shards, jobs)" "made_ok ref_uploader ?U (call_blocks ?c) 0 blk shards jobs"
      using uploading.joined_blocks[OF call_uploading[OF ref_usable] inv t(2,3), of 0] by (metis of_nat_0)
    then have "job_in made (jobs ! 0)" by (intro job_inI[of made 0 blk shards jobs] b(1)) (simp add: made_ok_def)
    then have "pp_err t \<noteq> None \<or> lossy ref_uploader ?U \<or> pp_success t (job_id (jobs ! 0)) \<noteq> None \<or> busy t (jobs ! 0)"
      using inv unfolding pipe_inv_def status_inv_def by blast
    moreover have "\<not> busy t (jobs ! 0)"
      using inv t(2) by (auto simp: pipe_inv_def phase_inv_def elim!: busyE)
    ultimately show ?thesis using t(3) signs_not_lossy[OF ref_signs] by auto
  qed
  then obtain k a where ka: "pp_success t k = Some a" by blast
  have "a = ''n:1''" using recorded_job(1)[OF inv ka] by simp
  moreover have "?holds (pp_client t) a k \<noteq> None" using inv ka unfolding pipe_inv_def net_inv_def by fastforce
  ultimately show thesis using that[OF up, of k] del by simp
qed

text \<open>A chunk that a node got during a failed upload, and that the rollback deletes again.\<close>

theorem rollback_removes_witness:
  "\<exists>oc k. uploads ref_uploader ref_libs ref_half ref_nodes_net ref_parse (ref_call ''data'') False (ref_client []) oc
    \<and> node_holds ref_uploader (\<lambda>_. False) (oc_client oc) ''n:1'' k \<noteq> None
    \<and> node_holds ref_uploader (\<lambda>_. False) (snd (run_deletions ref_nodes_net (oc_deletions oc) (oc_client oc))) ''n:1'' k = None"
proof -
  obtain oc k where oc: "uploads ref_uploader ref_libs ref_half ref_nodes_net ref_parse (ref_call ''data'') False (ref_client []) oc"
    "oc_err oc = Some (Err ''manifest upload failed'')"
    "set (fst (run_deletions ref_nodes_net (oc_deletions oc) (oc_client oc))) \<subseteq> {None}"
    "node_holds ref_uploader (\<lambda>_. False) (oc_client oc) ''n:1'' k \<noteq> None"
    by (rule ref_half_upload)
  have "src_read_err (cl_file (ref_call ''data'')) = None" by (simp add: ref_call_def)
  from rollback_removes[OF ref_usable this oc(1,2) prod.collapse[symmetric] oc(3)]
  have "node_holds ref_uploader (\<lambda>_. False) (snd (run_deletions ref_nodes_net (oc_deletions oc) (oc_client oc))) ''n:1'' k
      = node_holds ref_uploader (\<lambda>_. False) (ref_client []) ''n:1'' k" by simp
  also have "\<dots> = None" by (auto simp: node_holds_def ref_client_def ref_chunks_def mem_view split: sum.split)
  finally show ?thesis using oc(1,4) by blast
qed

end
