(* ===== verification/Cli.thy ===== *)
theory Cli
  imports Runtime
begin

text \<open>
  The command line client, \<open>cmd/k-cli\<close>: the commands \<open>put\<close>, \<open>get\<close> and \<open>delete\<close>. Flags and the rest of
  Cobra are not modelled. A command ends with one of the lines it logs, here a value of \<open>cli_result\<close>.
  \<open>fmt.Sscanf\<close>, which \<open>get\<close> uses to find the file name in a header, is modelled for the one format it is called with.
\<close>

subsection \<open>fmt.Sscanf with the format \<open>attachment; filename="%s"\<close>\<close>

text \<open>A text as the runes \<open>utf8.DecodeRune\<close> reads, each byte that is in no rune as U+FFFD.\<close>

function runes :: "bytes \<Rightarrow> bytes list" where
  "runes s = (case s of [] \<Rightarrow> []
     | c # cs \<Rightarrow> if rune_len s = 0 then U_FFFD # runes cs
         else take (rune_len s) s # runes (drop (rune_len s) s))"
  by pat_completeness auto
termination
  by (relation "measure length") auto

declare runes.simps [simp del]

text \<open>The spaces of package \<open>fmt\<close>: U+0009 to U+000D, U+0020, U+0085, U+00A0, U+1680, U+2000 to U+200A, U+2028, U+2029, U+202F, U+205F, U+3000.\<close>

definition rune_space :: "bytes \<Rightarrow> bool" where
  "rune_space r \<longleftrightarrow> (case r of
     [c] \<Rightarrow> in_range 0x09 0x0D c \<or> c = CHR 0x20
   | [c, d] \<Rightarrow> c = CHR 0xC2 \<and> (d = CHR 0x85 \<or> d = CHR 0xA0)
   | [c, d, e] \<Rightarrow> c = CHR 0xE1 \<and> d = CHR 0x9A \<and> e = CHR 0x80
       \<or> c = CHR 0xE2 \<and> d = CHR 0x80 \<and> (in_range 0x80 0x8A e \<or> e \<in> {CHR 0xA8, CHR 0xA9, CHR 0xAF})
       \<or> c = CHR 0xE2 \<and> d = CHR 0x81 \<and> e = CHR 0x9F
       \<or> c = CHR 0xE3 \<and> d = CHR 0x80 \<and> e = CHR 0x80
   | _ \<Rightarrow> False)"

abbreviation newline :: bytes where "newline \<equiv> [CHR 0x0A]"
abbreviation quote :: char where "quote \<equiv> CHR 0x22"

fun skip_spaces :: "bytes list \<Rightarrow> bytes list" where
  "skip_spaces [] = []"
| "skip_spaces (r # rs) = (if rune_space r \<and> r \<noteq> newline then skip_spaces rs else r # rs)"

fun skip_literal :: "bytes \<Rightarrow> bytes list \<Rightarrow> bytes list option" where
  "skip_literal [] rs = Some rs"
| "skip_literal (c # cs) [] = None"
| "skip_literal (c # cs) (r # rs) = (if r = [c] then skip_literal cs rs else None)"

text \<open>
  The blank of the format needs a space other than a line break; \<open>%s\<close> skips spaces, fails at a line
  break or the end, and takes everything up to the next space. When it fails the variable keeps its old
  value; that the closing quote then is not found is an error too, but the variable is set.
\<close>

definition Sscanf_filename :: "bytes \<Rightarrow> bytes \<Rightarrow> bytes" where
  "Sscanf_filename input old =
     (case skip_literal ''attachment;'' (runes input) of None \<Rightarrow> old
      | Some rs1 \<Rightarrow>
          if rs1 = [] \<or> \<not> rune_space (hd rs1) \<or> hd rs1 = newline then old
          else (case skip_literal (''filename='' @ [quote]) (skip_spaces rs1) of None \<Rightarrow> old
            | Some rs2 \<Rightarrow>
                (let rs3 = skip_spaces rs2 in
                 if rs3 = [] \<or> hd rs3 = newline then old
                 else concat (takeWhile (\<lambda>r. \<not> rune_space r) rs3))))"

subsection \<open>Files and HTTP\<close>

text \<open>
  Opening a file for reading gives what can be read of it and the error after that, if there is one;
  creating one can fail, and so can writing after a number of bytes. The files are a map.
\<close>

record cli_os =
  os_open :: "bytes \<Rightarrow> string + bytes \<times> string option"
  os_create_err :: "bytes \<Rightarrow> string option"
  os_write_limit :: "bytes \<Rightarrow> nat option"

type_synonym files = "bytes \<Rightarrow> bytes option"

text \<open>A response; its body can break off.\<close>

record cli_response =
  cr_Status :: int
  cr_Header :: "bytes \<Rightarrow> bytes"
  cr_Body :: bytes
  cr_BodyErr :: "string option"

datatype part = FilePart bytes bytes bytes | FieldPart bytes bytes

type_synonym 'w cli_http = "bytes \<Rightarrow> 'w \<Rightarrow> (string + cli_response) \<times> 'w"

definition NodeURL :: bytes where "NodeURL = ''http://127.0.0.1:8085''"

text \<open>\<open>filepath.Base\<close>\<close>

definition base_name :: "bytes \<Rightarrow> bytes" where
  "base_name path =
     (if path = [] then ''.''
      else let p = rev (dropWhile (\<lambda>c. c = CHR ''/'') (rev path)) in
        if p = [] then ''/'' else rev (takeWhile (\<lambda>c. c \<noteq> CHR ''/'') (rev p)))"

datatype cli_result =
    Open_error string | Copy_error string | Request_error string | Call_error string
  | Create_error string | Save_error string | Server_error int bytes
  | Put_done bytes | Get_done bytes | Delete_done

subsection \<open>The commands\<close>

text \<open>The form is written to a buffer, so only reading the file can fail on the way.\<close>

definition put_form :: "bytes \<Rightarrow> bytes \<Rightarrow> bytes \<Rightarrow> part list" where
  "put_form filePath content releaseTime =
     [FilePart ''file'' (base_name filePath) content, FieldPart ''release_time'' releaseTime]"

definition cli_put ::
  "cli_os \<Rightarrow> (part list \<Rightarrow> 'w cli_http) \<Rightarrow> bytes \<Rightarrow> bytes \<Rightarrow> 'w \<Rightarrow> cli_result \<times> 'w" where
  "cli_put os post filePath releaseTime w =
     (case os_open os filePath of
        Inl e \<Rightarrow> (Open_error e, w)
      | Inr (content, Some e) \<Rightarrow> (Copy_error e, w)
      | Inr (content, None) \<Rightarrow>
          (case post (put_form filePath content releaseTime) (NodeURL @ ''/put'') w of
             (Inl e, w1) \<Rightarrow> (Call_error e, w1)
           | (Inr resp, w1) \<Rightarrow>
               if cr_Status resp = 200 then (Put_done (cr_Body resp), w1)
               else (Server_error (cr_Status resp) (cr_Body resp), w1)))"

definition slice_last :: "bytes \<Rightarrow> bytes res" where
  "slice_last s = (if s = [] then Inl (Panic ''slice bounds out of range'') else Inr (butlast s))"

definition get_filename :: "bytes \<Rightarrow> bytes \<Rightarrow> bytes res" where
  "get_filename contentDisp fileId =
     (if contentDisp \<noteq> [] then slice_last (Sscanf_filename contentDisp (''downloaded_'' @ fileId))
      else Inr (''downloaded_'' @ fileId))"

text \<open>\<open>io.Copy\<close> writes what it reads until one of the two fails.\<close>

definition copy_body :: "cli_os \<Rightarrow> bytes \<Rightarrow> cli_response \<Rightarrow> string option \<times> bytes" where
  "copy_body os path resp = (case os_write_limit os path of
     Some n \<Rightarrow> if n < length (cr_Body resp) then (Some ''write error'', take n (cr_Body resp)) else (cr_BodyErr resp, cr_Body resp)
   | None \<Rightarrow> (cr_BodyErr resp, cr_Body resp))"

definition cli_get ::
  "cli_os \<Rightarrow> 'w cli_http \<Rightarrow> bytes \<Rightarrow> bytes \<Rightarrow> files \<Rightarrow> 'w \<Rightarrow> cli_result res \<times> files \<times> 'w" where
  "cli_get os get fileId outputDir files w =
     (case get (NodeURL @ ''/get?id='' @ fileId) w of
        (Inl e, w1) \<Rightarrow> (Inr (Call_error e), files, w1)
      | (Inr resp, w1) \<Rightarrow>
          if cr_Status resp = 200 then
            (case get_filename (cr_Header resp ''Content-Disposition'') fileId of
               Inl p \<Rightarrow> (Inl p, files, w1)
             | Inr filename \<Rightarrow>
                 (let outPath = outputDir @ ''/'' @ filename in
                  case os_create_err os outPath of
                    Some e \<Rightarrow> (Inr (Create_error e), files, w1)
                  | None \<Rightarrow>
                      (case copy_body os outPath resp of (err, saved) \<Rightarrow>
                         (Inr (case err of Some e \<Rightarrow> Save_error e | None \<Rightarrow> Get_done outPath), files(outPath \<mapsto> saved), w1))))
          else (Inr (Server_error (cr_Status resp) (cr_Body resp)), files, w1))"

text \<open>\<open>http.NewRequest\<close> fails for some URLs.\<close>

definition cli_delete ::
  "(bytes \<Rightarrow> string option) \<Rightarrow> 'w cli_http \<Rightarrow> bytes \<Rightarrow> 'w \<Rightarrow> cli_result \<times> 'w" where
  "cli_delete bad_url del deleteFileId w =
     (let targetURL = NodeURL @ ''/delete?id='' @ deleteFileId in
      case bad_url targetURL of
        Some e \<Rightarrow> (Request_error e, w)
      | None \<Rightarrow>
          (case del targetURL w of
             (Inl e, w1) \<Rightarrow> (Call_error e, w1)
           | (Inr resp, w1) \<Rightarrow> if cr_Status resp = 200 then (Delete_done, w1) else (Server_error (cr_Status resp) [], w1)))"

subsection \<open>Which name is found\<close>

lemma runes_Nil [simp]: "runes [] = []"
  by (simp add: runes.simps)

lemma runes_pos: "0 < rune_len s \<Longrightarrow> runes s = take (rune_len s) s # runes (drop (rune_len s) s)"
  by (subst runes.simps) (auto split: list.split simp: rune_len_def)

lemma rune_len_ascii: "(of_char c :: nat) < 128 \<Longrightarrow> rune_len (c # s) = 1"
  by (simp add: rune_len_def rune_lead_def in_range_def)

lemma runes_ascii: "(of_char c :: nat) < 128 \<Longrightarrow> runes (c # s) = [c] # runes s"
  using runes_pos[of "c # s"] by (simp add: rune_len_ascii)

lemma concat_runes: "concat (runes s) = sanitize s"
proof (induction s rule: runes.induct)
  case (1 s)
  show ?case
  proof (cases s)
    case (Cons c cs)
    then show ?thesis using 1[OF Cons] by (subst runes.simps, subst sanitize.simps) auto
  qed simp
qed

lemma runes_append: "utf8_ok a \<Longrightarrow> runes (a @ b) = runes a @ runes b"
proof (induction a rule: runes.induct)
  case (1 a)
  show ?case
  proof (cases a)
    case (Cons c cs)
    let ?n = "rune_len a"
    have n: "0 < ?n" using rune_len_pos 1(3) Cons by blast
    have le: "?n \<le> length a" by (rule rune_len_le)
    have "rune_len (a @ b) = ?n"
      using rune_len_take[of a ?n "drop ?n a @ b"] n by (metis append.assoc append_take_drop_id)
    moreover have "utf8_ok (drop ?n a)"
      using 1(3) sanitize_pos[OF n] unfolding utf8_ok_def by (metis append_eq_append_conv append_take_drop_id)
    ultimately show ?thesis
      using 1(2)[OF Cons] n le runes_pos[of a] runes_pos[of "a @ b"] by simp
  qed simp
qed

text \<open>The header \<open>GetFile\<close> sends, and names without spaces.\<close>

definition disposition :: "bytes \<Rightarrow> bytes" where
  "disposition name = ''attachment; filename='' @ [quote] @ name @ [quote]"

definition plain_name :: "bytes \<Rightarrow> bool" where
  "plain_name name \<longleftrightarrow> utf8_ok name \<and> list_all (\<lambda>r. \<not> rune_space r) (runes name)"

lemma runes_disposition: "runes (disposition name) = map (\<lambda>c. [c]) (''attachment; filename='' @ [quote]) @ runes (name @ [quote])"
  by (simp add: disposition_def runes_ascii)

lemma ascii_not_space: "\<not> rune_space [quote]" "rune_space '' ''" "'' '' \<noteq> newline" "\<not> rune_space ''f''" "\<not> rune_space [CHR 0x3B]"
  by (simp_all add: rune_space_def in_range_def)

lemma Sscanf_disposition:
  "Sscanf_filename (disposition name) old =
     (let rs = skip_spaces (runes (name @ [quote]))
      in if rs = [] \<or> hd rs = newline then old else concat (takeWhile (\<lambda>r. \<not> rune_space r) rs))"
  by (simp add: Sscanf_filename_def runes_disposition ascii_not_space Let_def)

lemma skip_spaces_word: "rs \<noteq> [] \<Longrightarrow> \<not> rune_space (hd rs) \<Longrightarrow> skip_spaces rs = rs"
  by (cases rs) simp_all

lemma newline_space: "rune_space newline"
  by (simp add: rune_space_def in_range_def)

text \<open>The first word of the name with its quote.\<close>

lemma Sscanf_word:
  assumes "utf8_ok a" "list_all (\<lambda>r. \<not> rune_space r) (runes a)" "rs = [] \<or> rune_space (hd rs)" "runes (name @ [quote]) = runes a @ rs" "a \<noteq> []"
  shows "Sscanf_filename (disposition name) old = a"
proof -
  have ne: "runes a \<noteq> []" using assms(1,5) concat_runes[of a] by (auto simp: utf8_ok_def)
  then have h: "\<not> rune_space (hd (runes a))" using assms(2) by (simp add: list_all_iff)
  have "takeWhile (\<lambda>r. \<not> rune_space r) (runes a @ rs) = runes a"
    using assms(2,3) by (cases rs) (simp_all add: list_all_iff takeWhile_append2)
  moreover have "hd (runes a) \<noteq> newline" using h newline_space by auto
  ultimately show ?thesis
    using ne h assms(1) concat_runes[of a] skip_spaces_word[of "runes a @ rs"] by (simp add: Sscanf_disposition assms(4) utf8_ok_def)
qed

lemma get_filename_plain:
  assumes "plain_name name"
  shows "get_filename (disposition name) fileId = Inr name"
proof -
  have "utf8_ok [quote]" by simp
  then have q: "utf8_ok (name @ [quote])" "runes (name @ [quote]) = runes name @ [[quote]]"
    using assms runes_append[of name "[quote]"] utf8_ok_append[of name "[quote]"] by (simp_all add: plain_name_def runes_ascii)
  have "Sscanf_filename (disposition name) (''downloaded_'' @ fileId) = name @ [quote]"
    by (rule Sscanf_word[OF q(1), where rs = "[]"]) (use assms q(2) in \<open>simp_all add: plain_name_def ascii_not_space\<close>)
  then show ?thesis by (simp add: get_filename_def slice_last_def disposition_def)
qed

lemma get_filename_cut:
  assumes "plain_name a" "a \<noteq> []"
  shows "get_filename (disposition (a @ '' '' @ b)) fileId = Inr (butlast a)"
proof -
  have "runes ((a @ '' '' @ b) @ [quote]) = runes a @ '' '' # runes (b @ [quote])"
    using assms runes_append[of a "'' '' @ b @ [quote]"] by (simp add: plain_name_def runes_ascii)
  then have "Sscanf_filename (disposition (a @ '' '' @ b)) (''downloaded_'' @ fileId) = a"
    using assms ascii_not_space by (intro Sscanf_word[where rs = "'' '' # runes (b @ [quote])"]) (simp_all add: plain_name_def)
  then show ?thesis using assms(2) by (simp add: get_filename_def slice_last_def disposition_def)
qed

text \<open>Nothing \<open>Sscanf\<close> finds makes the slice panic.\<close>

lemma runes_nonempty: "[] \<notin> set (runes s)"
proof (induction s rule: runes.induct)
  case (1 s)
  show ?case
  proof (cases s)
    case (Cons c cs)
    then show ?thesis using 1[OF Cons] by (subst runes.simps) (auto simp: U_FFFD_def)
  qed simp
qed

lemma skip_literal_set: "skip_literal l rs = Some rs1 \<Longrightarrow> set rs1 \<subseteq> set rs"
  by (induction l rs rule: skip_literal.induct) (auto split: if_splits)

lemma skip_spaces_set: "set (skip_spaces rs) \<subseteq> set rs"
  by (induction rs) auto

lemma skip_spaces_hd: "skip_spaces rs \<noteq> [] \<Longrightarrow> hd (skip_spaces rs) = newline \<or> \<not> rune_space (hd (skip_spaces rs))"
  by (induction rs) auto

lemma Sscanf_nonempty:
  assumes "old \<noteq> []"
  shows "Sscanf_filename input old \<noteq> []"
proof -
  have "concat (takeWhile (\<lambda>r. \<not> rune_space r) rs3) \<noteq> []"
    if "skip_literal ''attachment;'' (runes input) = Some rs1" "skip_literal (''filename='' @ [quote]) (skip_spaces rs1) = Some rs2"
      "rs3 = skip_spaces rs2" "rs3 \<noteq> []" "hd rs3 \<noteq> newline" for rs1 rs2 rs3
  proof -
    have "set rs3 \<subseteq> set (runes input)"
      using that(3) skip_spaces_set[of rs2] skip_literal_set[OF that(2)] skip_spaces_set[of rs1] skip_literal_set[OF that(1)] by blast
    then have "hd rs3 \<noteq> []" using that(4) runes_nonempty[of input] by (metis hd_in_set subsetD)
    moreover have "\<not> rune_space (hd rs3)" using skip_spaces_hd[of rs2] that(3-5) by simp
    ultimately show ?thesis using that(4) by (cases rs3) simp_all
  qed
  then show ?thesis using assms by (auto simp: Sscanf_filename_def Let_def split: option.split)
qed

lemma get_filename_total: "\<exists>name. get_filename h fileId = Inr name"
  using Sscanf_nonempty[of "''downloaded_'' @ fileId" h] by (simp add: get_filename_def slice_last_def)

end
