(* ===== verification/Node_Api.thy ===== *)
theory Node_Api
  imports Upload_Download Node_Server
begin

text \<open>
  The HTTP handlers of a storage node for whole files, \<open>PutFile\<close> with its worker, \<open>GetFile\<close> and
  \<open>DeleteFile\<close> of \<open>internal/api/node_api.go\<close>, and the node's routes. They put together the calls to
  the bootstrap server, the upload, the download and the deletions.
\<close>

subsection \<open>GET /get\<close>

text \<open>\<open>io.MultiWriter\<close>: the response first, then the hash, whose state is what it has hashed.\<close>

definition multi_writer :: "'o writer \<Rightarrow> ('o \<times> bytes) writer" where
  "multi_writer wr b s = (case wr b (fst s) of
     (Some e, o1) \<Rightarrow> (Some e, (o1, snd s)) | (None, o1) \<Rightarrow> (None, (o1, snd s @ b)))"

text \<open>How a download ends; the handler writes it to the log.\<close>

datatype verdict = Refused | Aborted fault | Hash_mismatch | Hash_ok

definition file_headers :: "bytes \<Rightarrow> bytes \<Rightarrow> (bytes \<times> bytes) list" where
  "file_headers name fileId =
     [(''Content-Type'', ''application/octet-stream''),
      (''Content-Disposition'', ''attachment; filename='' @ [CHR 0x22] @ name @ [CHR 0x22]),
      (''X-File-Id'', fileId)]"

text \<open>
  \<open>wr\<close> is the connection of the response. Once the reconstruction has started, the status is 200
  whatever happens. The name in the manifest is read without a check of the pointer.
\<close>

definition GetFile ::
  "'e env \<Rightarrow> file_lib \<Rightarrow> 'b net \<Rightarrow> 'w gnet \<Rightarrow> bytes writer \<Rightarrow> (int \<Rightarrow> int) \<Rightarrow> nat \<Rightarrow> nat \<Rightarrow> request \<Rightarrow> 'b \<Rightarrow> 'w client
    \<Rightarrow> (response \<times> verdict) res \<times> 'b \<times> 'w client" where
  "GetFile env L net gnet wr clock ra rb req w client =
     (if req_Method req \<noteq> ''GET'' then (Inr (http_Error ''Only GET method allowed!'' 405, Refused), w, client)
      else let fileId = req_Query req ''id'' in
      if fileId = [] then (Inr (http_Error ''Missing fileId'' 400, Refused), w, client)
      else (case GetFileManifestFromServer env net ra fileId w of
          (Inl (Panic p), w1) \<Rightarrow> (Inl (Panic p), w1, client)
        | (Inl (Err _), w1) \<Rightarrow> (Inr (http_Error ''Error retrieving manifest'' 500, Refused), w1, client)
        | (Inr None, w1) \<Rightarrow> (Inl (Panic ''nil pointer dereference''), w1, client)
        | (Inr (Some fileManifest), w1) \<Rightarrow>
            (let (e, (body, hashed), client1) =
               StreamReconstruct L (env_C env) gnet (multi_writer wr) clock rb fileManifest ([], []) client;
                 rsp = respond (file_headers (man_FileName fileManifest) fileId) body
             in case e of
                  Some (Panic p) \<Rightarrow> (Inl (Panic p), w1, client1)
                | Some e \<Rightarrow> (Inr (rsp, Aborted e), w1, client1)
                | None \<Rightarrow>
                    if hex_encode (sha256 (env_C env) hashed) \<noteq> man_HashFile fileManifest
                    then (Inr (rsp, Hash_mismatch), w1, client1)
                    else (Inr (rsp, Hash_ok), w1, client1))))"

subsection \<open>DELETE /delete\<close>

text \<open>The deletions the handler starts, as pairs of chunk id and address.\<close>

definition chunk_tasks :: "FileManifest \<Rightarrow> (bytes \<times> bytes) list" where
  "chunk_tasks m = concat (map (\<lambda>(i, blk). concat (map (\<lambda>ch. map (\<lambda>nodeAddr. (chk_ChunkId ch, nodeAddr)) (elems (chk_Nodes ch)))
     (elems (blk_Chunks blk)))) (elems (man_Split m)))"

definition DeleteFile ::
  "'e env \<Rightarrow> 'b net \<Rightarrow> nat \<Rightarrow> nat \<Rightarrow> request \<Rightarrow> 'b \<Rightarrow> response res \<times> (bytes \<times> bytes) list \<times> 'b" where
  "DeleteFile env net ra rb req w =
     (if req_Method req \<noteq> ''DELETE'' then (Inr (http_Error ''Only DELETE allowed'' 405), [], w)
      else let fileId = req_Query req ''id'' in
      if fileId = [] then (Inr (http_Error ''Missing fileId'' 400), [], w)
      else (case GetFileManifestFromServer env net ra fileId w of
          (Inl (Panic p), w1) \<Rightarrow> (Inl (Panic p), [], w1)
        | (Inl (Err _), w1) \<Rightarrow> (Inr (http_Error ''File not found'' 404), [], w1)
        | (Inr manifest, w1) \<Rightarrow>
            (let tasks = (case manifest of None \<Rightarrow> [] | Some m \<Rightarrow> chunk_tasks m)
             in case DeleteManifestOnBootstrap env net rb fileId w1 of
                  (Some (Panic p), w2) \<Rightarrow> (Inl (Panic p), tasks, w2)
                | (Some (Err _), w2) \<Rightarrow> (Inr (http_Error ''Error deleting manifest'' 500), tasks, w2)
                | (None, w2) \<Rightarrow> (Inr (respond [] []), tasks, w2))))"

subsection \<open>POST /put\<close>

text \<open>
  The multipart form of the request as \<open>net/http\<close> presents it, and the calls on the temporary file
  that can fail. \<open>pw_source\<close> are the errors of the calls on the file when the worker reads it.
\<close>

record put_request =
  put_Method :: bytes
  put_File :: "string + bytes \<times> bytes"
  put_Release :: bytes

record temp_files =
  tf_create_err :: "string option"
  tf_copy_err :: "string option"
  tf_open_err :: "string option"
  tf_hash_err :: "string option"
  tf_seek_err :: "string option"
  tf_stat_err :: "string option"
  tf_read_err :: "(nat \<times> string) option"

record put_job =
  pj_content :: bytes
  pj_name :: bytes
  pj_release :: bytes
  pj_id :: bytes

definition PutFile :: "'db env \<Rightarrow> temp_files \<Rightarrow> put_request \<Rightarrow> bytes \<Rightarrow> 'db \<Rightarrow> response \<times> put_job option \<times> 'db" where
  "PutFile env tf req futureFileID db =
     (if put_Method req \<noteq> ''POST'' then (http_Error ''Only POST method allowed!'' 405, None, db)
      else (case put_File req of
          Inl _ \<Rightarrow> (http_Error ''Error retrieving file'' 400, None, db)
        | Inr (content, filename) \<Rightarrow>
            if tf_create_err tf \<noteq> None then (http_Error ''Server Error'' 500, None, db)
            else if tf_copy_err tf \<noteq> None then (http_Error ''Upload Error'' 500, None, db)
            else (respond [(''Content-Type'', ''text/plain; charset=utf-8'')] (futureFileID @ [CHR 0x0A]),
                  Some \<lparr>pj_content = content, pj_name = filename, pj_release = put_Release req, pj_id = futureFileID\<rparr>,
                  saveStatus env futureFileID ''processing'' db)))"

text \<open>What the worker passes on to the upload.\<close>

definition job_call :: "temp_files \<Rightarrow> nat \<Rightarrow> (nat \<Rightarrow> bytes) \<Rightarrow> (bytes \<Rightarrow> string option) set \<Rightarrow> put_job \<Rightarrow> upload_call" where
  "job_call tf numCPU uuid reads job =
     \<lparr>cl_file = \<lparr>src_content = pj_content job, src_hash_err = tf_hash_err tf, src_seek_err = tf_seek_err tf,
        src_stat_err = tf_stat_err tf, src_read_err = tf_read_err tf\<rparr>,
      cl_name = pj_name job, cl_blockSize = TargetChunkSize * DataShards, cl_releaseTime = pj_release job,
      cl_fileId = pj_id job, cl_numCPU = numCPU, cl_uuid = uuid, cl_reads = reads\<rparr>"

text \<open>An error and a panic that the worker recovers from leave the same status.\<close>

definition final_status :: "fault option \<Rightarrow> bytes" where
  "final_status e = (case e of None \<Rightarrow> ''completed'' | Some _ \<Rightarrow> ''error'')"

inductive put_worker ::
  "'db env \<Rightarrow> file_lib \<Rightarrow> 'b net \<Rightarrow> 'w gnet \<Rightarrow> (bytes \<Rightarrow> int option) \<Rightarrow> temp_files \<Rightarrow> nat \<Rightarrow> (nat \<Rightarrow> bytes)
    \<Rightarrow> (bytes \<Rightarrow> string option) set \<Rightarrow> put_job \<Rightarrow> 'b \<Rightarrow> 'w client \<Rightarrow> 'db \<Rightarrow> ('b, 'w) outcome \<Rightarrow> 'db \<Rightarrow> bool"
  for env L net gnet parse tf numCPU uuid reads job w client db where
  open_failed: "tf_open_err tf = Some e \<Longrightarrow>
    put_worker env L net gnet parse tf numCPU uuid reads job w client db
      \<lparr>oc_err = Some (Err e), oc_manifest = None, oc_deletions = [], oc_servers = w, oc_client = client\<rparr>
      (saveStatus env (pj_id job) ''error'' db)"
| uploaded: "tf_open_err tf = None \<Longrightarrow>
    uploads env L net gnet parse (job_call tf numCPU uuid reads job) w client oc \<Longrightarrow>
    put_worker env L net gnet parse tf numCPU uuid reads job w client db oc
      (saveStatus env (pj_id job) (final_status (oc_err oc)) db)"

subsection \<open>What the handlers see\<close>

text \<open>Writing to the response and to the hash leaves the same in both.\<close>

lemma reconstruct_hashed:
  "reconstruct_blocks L C gnet (multi_writer write_buf) clock m js (out, out) s =
    (case reconstruct_blocks L C gnet write_buf clock m js out s of (e, out1, s1) \<Rightarrow> (e, (out1, out1), s1))"
proof (induction js arbitrary: out s)
  case (Cons j js)
  then show ?case
    by (simp add: multi_writer_def write_buf_def split: prod.split sum.split)
qed simp

lemma StreamReconstruct_hashed:
  "StreamReconstruct L C gnet (multi_writer write_buf) clock r m ([], []) s =
    (case StreamReconstruct L C gnet write_buf clock r m [] s of (e, out1, s1) \<Rightarrow> (e, (out1, out1), s1))"
  by (simp add: StreamReconstruct_def reconstruct_hashed)

text \<open>A request for storage targets leaves the servers as they are.\<close>

lemma RequestNodes_same:
  assumes "reaches env ra c server p"
  shows "snd (RequestNodesForFileUpload env cluster_net ra T c) = c"
proof -
  note f = reaches_facts[OF assms]
  have "snd (call ''POST'' c (http_url server ''/file/nodes'') body) = c" for body
    using f(4,5) split_http_url[of server "''file/nodes''"] by (simp add: call_def bootstrap_mux_def Let_def fun_upd_idem)
  then show ?thesis
    using f(2,3) by (auto simp: RequestNodesForFileUpload_def Intn_def Let_def split: sum.splits prod.splits) (metis snd_conv)+
qed

lemma status_saved:
  assumes "badger_reliable (env_bg env)" "fileId \<noteq> []" "req_Method req = ''GET''" "req_Query req ''id'' = fileId"
  shows "CheckStatus env req (saveStatus env fileId st db)
    = respond [(''Content-Type'', ''application/json'')] (marshal enc_UploadStatus st)"
  using badger_ok.view_get[OF reliable_ok[OF assms(1)], of _ ns_upload_status fileId] assms
  by (simp add: CheckStatus_def saveStatus_def reliable_put Let_def)

text \<open>Every chunk of a block is among the deletions, at every node that may have it.\<close>

lemma chunk_tasks_all:
  assumes "map_of (elems (man_Split m)) i = Some blk" "ch \<in> set (elems (blk_Chunks blk))" "a \<in> set (elems (chk_Nodes ch))"
  shows "(chk_ChunkId ch, a) \<in> set (chunk_tasks m)"
  using assms map_of_SomeD[OF assms(1)] by (fastforce simp: chunk_tasks_def)

lemma nothing_obtainable:
  assumes "\<forall>(k, a) \<in> set (chunk_tasks m). h a k = None"
  shows "obtainable h (block_of m i) = 0"
proof (cases "map_of (elems (man_Split m)) i")
  case None
  then show ?thesis by (simp add: block_of_def obtainable_def zero_FileBlock_def)
next
  case (Some blk)
  then have "\<not> available h ch" if "ch \<in> set (elems (blk_Chunks blk))" for ch
    using that assms chunk_tasks_all[OF Some that] by (auto simp: available_def)
  then show ?thesis by (simp add: block_of_def obtainable_def Some filter_empty_conv)
qed

text \<open>A request, and a server that answers every request with the reference manifest.\<close>

definition ref_request :: "bytes \<Rightarrow> bytes \<Rightarrow> request" where
  "ref_request method fileId = \<lparr>req_Method = method, req_Path = ''/'', req_Query = (\<lambda>_. fileId), req_Body = []\<rparr>"

definition ref_named :: "bytes \<Rightarrow> FileManifest" where
  "ref_named name = ref_manifest\<lparr>man_FileName := name\<rparr>"

definition ref_manifest_http :: "bytes \<Rightarrow> unit net" where
  "ref_manifest_http name = \<lparr>net_post = (\<lambda>w u b. (Inr (200, marshal enc_FileManifest (ref_named name)), w)),
     net_delete = (\<lambda>w u b. (Inr (200, []), w))\<rparr>"

lemma ref_named_ok: "utf8_ok name \<Longrightarrow> ok_FileManifest (ref_named name)"
  by (simp add: ref_named_def ref_manifest_def zero_FileManifest_def ok_FileManifest_def ok_Split_def ok_ReedSolomonConfig_def
      ref_block_def ref_encrypted_def ok_FileBlock_def ok_Chunks_def ok_Chunk_def ok_strs_def upt5 gomap_ok_def in_int64_def list_all_iff)

lemma ref_named_got:
  assumes "utf8_ok name"
  shows "GetFileManifestFromServer (ref_env ''n'' [''b'']) (ref_manifest_http name) 0 ''f'' () = (Inr (Some (ref_named name)), ())"
proof -
  obtain sg where "sign (ref_env ''n'' [''b'']) (marshal enc_GetFileManifestRequest (manifest_request (ref_env ''n'' [''b'']) ''f'')) = Inr sg"
    using ref_env_sign by blast
  moreover have "decode_stream_ptr dec_FileManifest zero_FileManifest (marshal enc_FileManifest (ref_named name)) = (Some (ref_named name), True)"
    by (rule man.stream_ptr_marshal) (rule ref_named_ok[OF assms])
  ultimately show ?thesis
    by (simp add: GetFileManifestFromServer_def ref_manifest_http_def Intn_def Let_def)
qed

text \<open>The file of the manifest before its release time.\<close>

lemma ref_named_file:
  "sealed_file ref_libs ref_crypto (ref_holds ref_file_client) 1 (ref_named name) [''data'']"
  "0 = length (takeWhile (ready ref_libs (ref_holds ref_file_client) 1 (\<lambda>_. 0) (ref_named name)) [0..<length [''data'']])"
  "enough (ref_holds ref_file_client) (ref_named name) 0"
proof -
  have b: "block_of (ref_named name) i = block_of ref_manifest i" for i by (simp add: block_of_def ref_named_def)
  show "sealed_file ref_libs ref_crypto (ref_holds ref_file_client) 1 (ref_named name) [''data'']"
    using ref_sealed_file unfolding sealed_file_def b by (simp add: ref_named_def)
  show "0 = length (takeWhile (ready ref_libs (ref_holds ref_file_client) 1 (\<lambda>_. 0) (ref_named name)) [0..<length [''data'']])"
    by (simp add: ready_def ref_libs_def)
  show "enough (ref_holds ref_file_client) (ref_named name) 0"
    using ref_obtainable by (simp add: enough_def b) (simp add: block_of_def ref_named_def ref_manifest_def)
qed

lemma take_two: "set xs = {a} \<Longrightarrow> distinct (take 2 xs) \<Longrightarrow> take 2 xs = [a]"
  by (cases xs; cases "tl xs") auto

text \<open>An upload in a cluster of one server, one registered node and the uploading node.\<close>

definition ref_cluster :: "(bytes, bytes) RBT.rbt cluster" where
  "ref_cluster = [''b'' \<mapsto> ref_peer ''b'' (RBT.insert (makeKey ns_active_nodes ''n:1'') [] RBT.empty)]"

lemma ref_cluster_reaches:
  "reaches (ref_env host [''b'']) r ref_cluster ''b'' (ref_peer ''b'' (RBT.insert (makeKey ns_active_nodes ''n:1'') [] RBT.empty))"
  if "utf8_ok host"
  using ref_reaches[of host "[''b'']" r ref_cluster "''b''"] that by (simp add: ref_cluster_def)

lemma ref_cluster_upload:
  obtains oc m where "uploads ref_uploader ref_libs cluster_net ref_nodes_net ref_parse (ref_call ''data'') ref_cluster (ref_client []) oc"
    "oc_err oc = None" "oc_manifest oc = Some m" "client_ok (\<lambda>_. False) (oc_client oc)"
    "\<forall>i < nat (man_Blocks m). 3 \<le> obtainable (node_holds ref_uploader (\<lambda>_. False) (oc_client oc)) (block_of m (int i))"
proof -
  let ?db = "RBT.insert (makeKey ns_active_nodes ''n:1'') [] RBT.empty"
  let ?w = ref_cluster
  have r: "reaches ref_uploader 0 ?w ''b'' (ref_peer ''b'' ?db)" by (rule ref_cluster_reaches) simp
  have d: "dom (view mem_badger ?db ns_active_nodes) = {''n:1''}" by (auto simp: mem_view split: if_splits)
  then have keys: "set (elems (GetAllKeys mem_badger ?db ns_active_nodes)) = {''n:1''}"
    using badger_ok.view_keys[OF reliable_ok[OF mem_reliable]] by metis
  obtain ns where ns: "RequestNodesForFileUpload ref_uploader cluster_net 0 5 ?w = (Inr ns, ?w)"
    "distinct (elems ns)" "elems ns = take 2 (elems (GetAllKeys mem_badger ?db ns_active_nodes))"
  proof -
    have "\<forall>k \<in> set (elems (GetAllKeys (env_bg (per_env (ref_peer ''b'' ?db))) (per_db (ref_peer ''b'' ?db)) ns_active_nodes)). utf8_ok k"
      using keys by simp
    from targets_allocated[OF r _ _ this, of 5] show ?thesis using that by auto
  qed
  have "elems ns = [''n:1'']" using take_two[OF keys ns(2)[unfolded ns(3)]] ns(3) by simp
  then have "ns = Some [''n:1'']" by (cases ns) simp_all
  then obtain oc where oc: "uploads ref_uploader ref_libs cluster_net ref_nodes_net ref_parse (ref_call ''data'') ?w (ref_client []) oc"
    "oc_err oc = None"
  proof -
    have "\<exists>w2. UploadFileManifest ref_uploader cluster_net 0 m ?w = (None, w2)" if "ok_FileManifest m" for m
      using UploadFileManifest_stores[OF r that] by blast
    moreover have "RequestNodesForFileUpload ref_uploader cluster_net 0 5 ?w = (Inr (Some [''n:1'']), ?w)"
      using ns(1) \<open>ns = Some [''n:1'']\<close> by simp
    ultimately show ?thesis using ref_upload_via[of "''data''" cluster_net ?w ?w] that by auto
  qed
  then show thesis using ref_uploaded[OF oc] that[OF oc] by blast
qed

subsection \<open>Properties\<close>

text \<open>What an upload left is what \<open>GetFile\<close> serves.\<close>

lemma uploaded_file_served:
  fixes clock :: "int \<Rightarrow> int"
  assumes "usable env L c nenv bad client" "readable_call env c" "src_content (cl_file c) \<noteq> []"
    and "uploads env L cluster_net (node_net nenv bad) parse c w client oc" "oc_err oc = None" "oc_manifest oc = Some m"
    and "utf8_ok (cl_name c)" "cl_fileId c \<noteq> []" "\<forall>k n x. length (gcm_seal (env_C env) k n x) \<le> length x + 16"
    and "cfg_BootStrapServers (env_cfg env) = [server]" "reaches env 0 w server p" "reaches env' ra w server p"
    and "client_ok bad later"
    and "\<forall>a k. node_holds nenv bad later a (cl_uuid c k) = None
          \<or> node_holds nenv bad later a (cl_uuid c k) = node_holds nenv bad (oc_client oc) a (cl_uuid c k)"
    and "\<forall>i < nat (man_Blocks m). 3 \<le> obtainable (node_holds nenv bad later) (block_of m (int i))"
    and "parse (cl_releaseTime c) = Some t" "\<forall>i. t \<le> clock i" "tl_network L (relay rb) DrandChainHash"
    and "req_Method req = ''GET''" "req_Query req ''id'' = cl_fileId c"
  shows "\<exists>client1. GetFile env' L cluster_net (node_net nenv bad) write_buf clock ra rb req (oc_servers oc) later
    = (Inr (respond (file_headers (cl_name c) (cl_fileId c)) (src_content (cl_file c)), Hash_ok), oc_servers oc, client1)"
proof -
  note m = uploaded_manifest[OF assms(1-7,9)]
  obtain r ra' T q w1 where u: "RequestNodesForFileUpload env cluster_net ra' T w = (Inr q, w1)"
    "UploadFileManifest env cluster_net r m w1 = (None, oc_servers oc)" using m(5) by blast
  have rch: "reaches env k w server p" for k using assms(10,11) by (simp add: reaches_def)
  have "w1 = w" using RequestNodes_same[OF rch, of ra' T] u(1) by simp
  then obtain db1 where s: "oc_servers oc = w(server \<mapsto> p\<lparr>per_db := db1, per_tasks := per_tasks p @ []\<rparr>)"
    "view (env_bg (per_env p)) db1 ns_manifests (cl_fileId c) = Some (Inr (marshal enc_FileManifest m))"
    using UploadFileManifest_stores[OF rch m(1), of r] u(2) m(3) by auto
  have "utf8_ok (cl_fileId c)" using assms(2) by (simp add: readable_call_def)
  then have got: "GetFileManifestFromServer env' cluster_net ra (cl_fileId c) (oc_servers oc) = (Inr (Some m), oc_servers oc)"
    using GetFileManifestFromServer_reads[OF reaches_update[OF assms(12), where d = db1 and ts = "per_tasks p @ []"]]
      manifest_at_simps(1)[OF s(2) m(1), where ts = "per_tasks p @ []"] by (simp add: s(1))
  have "env_C env' = env_C env" using assms(11,12) by (simp add: reaches_def)
  moreover obtain s1 where "StreamReconstruct L (env_C env) (node_net nenv bad) write_buf clock rb m [] later
      = (None, src_content (cl_file c), s1)"
    using download_uploaded[OF assms(1-6,13-18)] by blast
  ultimately show ?thesis
    using got assms(8,19,20) m(2,4) by (simp add: GetFile_def StreamReconstruct_hashed Let_def)
qed

text \<open>
  C1: the whole system. A file that a node has uploaded is what any node with the same bootstrap
  server sends to its client for the file id: after the release time, as long as three chunks of
  every block can be had, \<open>GetFile\<close> answers 200 with the name and the content of the file, and the
  hash it computes is the one in the manifest.
\<close>

theorem put_then_get:
  fixes clock :: "int \<Rightarrow> int"
  assumes "usable env L c nenv bad client" "readable_call env c" "src_content (cl_file c) \<noteq> []"
    and "uploads env L cluster_net (node_net nenv bad) parse c w client oc" "oc_err oc = None" "oc_manifest oc = Some m"
    and "utf8_ok (cl_name c)" "cl_fileId c \<noteq> []" "\<forall>k n x. length (gcm_seal (env_C env) k n x) \<le> length x + 16"
    and "cfg_BootStrapServers (env_cfg env) = [server]" "reaches env 0 w server p" "reaches env' ra w server p"
    and "client_ok bad later"
    and "\<forall>a k. node_holds nenv bad later a (cl_uuid c k) = None
          \<or> node_holds nenv bad later a (cl_uuid c k) = node_holds nenv bad (oc_client oc) a (cl_uuid c k)"
    and "\<forall>i < nat (man_Blocks m). 3 \<le> obtainable (node_holds nenv bad later) (block_of m (int i))"
    and "parse (cl_releaseTime c) = Some t" "\<forall>i. t \<le> clock i" "tl_network L (relay rb) DrandChainHash"
    and "req_Method req = ''GET''" "req_Query req ''id'' = cl_fileId c"
  shows "\<exists>client1. GetFile env' L cluster_net (node_net nenv bad) write_buf clock ra rb req (oc_servers oc) later
    = (Inr (respond (file_headers (cl_name c) (cl_fileId c)) (src_content (cl_file c)), Hash_ok), oc_servers oc, client1)"
  using assms by (rule uploaded_file_served)

theorem put_then_get_witness:
  "\<exists>oc client1. uploads ref_uploader ref_libs cluster_net ref_nodes_net ref_parse (ref_call ''data'') ref_cluster (ref_client []) oc
    \<and> GetFile (ref_env ''m'' [''b'']) ref_libs cluster_net ref_nodes_net write_buf (\<lambda>_. 60000000000) 0 0
        \<lparr>req_Method = ''GET'', req_Path = ''/get'', req_Query = (\<lambda>_. ''f''), req_Body = []\<rparr> (oc_servers oc) (oc_client oc)
      = (Inr (respond (file_headers ''name'' ''f'') ''data'', Hash_ok), oc_servers oc, client1)"
proof -
  obtain oc m where oc: "uploads ref_uploader ref_libs cluster_net ref_nodes_net ref_parse (ref_call ''data'') ref_cluster (ref_client []) oc"
    "oc_err oc = None" and m: "oc_manifest oc = Some m" "client_ok (\<lambda>_. False) (oc_client oc)"
    "\<forall>i < nat (man_Blocks m). 3 \<le> obtainable (node_holds ref_uploader (\<lambda>_. False) (oc_client oc)) (block_of m (int i))"
    by (rule ref_cluster_upload)
  note r = ref_cluster_reaches[of "''n''" 0, simplified] ref_cluster_reaches[of "''m''" 0, simplified]
  let ?req = "\<lparr>req_Method = ''GET'', req_Path = ''/get'', req_Query = (\<lambda>_. ''f''), req_Body = []\<rparr>"
  have call: "cl_name (ref_call ''data'') = ''name''" "cl_fileId (ref_call ''data'') = ''f''" by (simp_all add: ref_call_def)
  have "\<exists>client1. GetFile (ref_env ''m'' [''b'']) ref_libs cluster_net ref_nodes_net write_buf (\<lambda>_. 60000000000) 0 0 ?req (oc_servers oc) (oc_client oc)
    = (Inr (respond (file_headers (cl_name (ref_call ''data'')) (cl_fileId (ref_call ''data''))) (src_content (cl_file (ref_call ''data''))), Hash_ok),
       oc_servers oc, client1)"
    by (rule put_then_get[OF ref_usable ref_read_data _ oc m(1) _ _ _ _ r m(2), where t = 30000000000])
      (use m(3) call in \<open>simp_all add: ref_libs_def ref_crypto_def\<close>)
  then show ?thesis using oc(1) unfolding call ref_content by blast
qed

text \<open>
  C9: deleting a file takes it away for everyone: \<open>DeleteFile\<close> answers 200, no node gets the manifest
  from the server any more, and when the deletions it has started are acknowledged, no chunk of any
  block can be had from a node that the manifest names.
\<close>

theorem delete_file_removes:
  assumes "cfg_BootStrapServers (env_cfg env) = [server]" "reaches env 0 w server p" "reaches env' r w server p"
    and "utf8_ok fileId" "fileId \<noteq> []" "manifest_at p fileId = Some m"
    and "req_Method req = ''DELETE''" "req_Query req ''id'' = fileId"
    and "DeleteFile env cluster_net ra rb req w = (rsp, tasks, w1)"
    and "badger_ok (env_bg nenv)" "client_ok bad client"
    and "run_deletions (node_net nenv bad) tasks client = (es, client1)" "set es \<subseteq> {None}"
  shows "rsp = Inr (respond [] []) \<and> GetFileManifestFromServer env' cluster_net r fileId w1 = (Inr None, w1)
    \<and> (\<forall>i. obtainable (node_holds nenv bad client1) (block_of m i) = 0)"
proof -
  have rch: "reaches env k w server p" for k using assms(1,2) by (simp add: reaches_def)
  obtain db1 where d: "DeleteManifestOnBootstrap env cluster_net rb fileId w = (None, w(server \<mapsto> p\<lparr>per_db := db1, per_tasks := per_tasks p @ []\<rparr>))"
    "view (env_bg (per_env p)) db1 ns_manifests fileId = None"
    using DeleteManifestOnBootstrap_removes[OF rch assms(4), of rb] by auto
  have got: "GetFileManifestFromServer env cluster_net ra fileId w = (Inr (Some m), w)"
    using GetFileManifestFromServer_reads[OF rch assms(4), of ra] assms(6) by simp
  have del: "rsp = Inr (respond [] [])" "tasks = chunk_tasks m" "w1 = w(server \<mapsto> p\<lparr>per_db := db1, per_tasks := per_tasks p @ []\<rparr>)"
    using assms(5,7-9) got d(1) by (simp_all add: DeleteFile_def Let_def)
  have "GetFileManifestFromServer env' cluster_net r fileId w1 = (Inr None, w1)"
    using GetFileManifestFromServer_reads[OF reaches_update[OF assms(3), where d = db1 and ts = "per_tasks p @ []"] assms(4)]
      manifest_at_simps(2)[OF d(2), where ts = "per_tasks p @ []"] by (simp add: del(3))
  moreover have "obtainable (node_holds nenv bad client1) (block_of m i) = 0" for i
    using chunk_net.deletions_done[OF node_net_laws[OF assms(10)] assms(11), of tasks] assms(12,13)
    by (intro nothing_obtainable) (auto simp: del(2))
  ultimately show ?thesis using del(1) by blast
qed

theorem delete_file_removes_witness:
  "\<exists>tasks w1. DeleteFile ref_uploader cluster_net 0 0 (ref_request ''DELETE'' ''f'')
      [''b'' \<mapsto> ref_peer ''b'' (RBT.insert (makeKey ns_manifests ''f'') (marshal enc_FileManifest zero_FileManifest) RBT.empty)]
      = (Inr (respond [] []), tasks, w1)
    \<and> GetFileManifestFromServer (ref_env ''m'' [''b'']) cluster_net 0 ''f'' w1 = (Inr None, w1)"
proof -
  let ?db = "RBT.insert (makeKey ns_manifests ''f'') (marshal enc_FileManifest zero_FileManifest) RBT.empty"
  let ?w = "[''b'' \<mapsto> ref_peer ''b'' ?db]"
  have r: "reaches ref_uploader 0 ?w ''b'' (ref_peer ''b'' ?db)" "reaches (ref_env ''m'' [''b'']) 0 ?w ''b'' (ref_peer ''b'' ?db)"
    using ref_reaches[of "''n''" "[''b'']" 0 ?w "''b''"] ref_reaches[of "''m''" "[''b'']" 0 ?w "''b''"] by simp_all
  have m: "manifest_at (ref_peer ''b'' ?db) ''f'' = Some zero_FileManifest"
    by (simp add: manifest_at_def mem_view man.stream_ptr_marshal man.zero_ok)
  obtain rsp tasks w1 where d: "DeleteFile ref_uploader cluster_net 0 0 (ref_request ''DELETE'' ''f'') ?w = (rsp, tasks, w1)"
    by (metis prod_cases3)
  have "tasks = []"
    using d GetFileManifestFromServer_reads[OF r(1), of "''f''"] m
    by (auto simp: DeleteFile_def ref_request_def Let_def chunk_tasks_def zero_FileManifest_def split: prod.splits option.splits fault.splits)
  then have "run_deletions ref_nodes_net tasks (ref_client []) = ([], ref_client [])" by simp
  moreover have "client_ok (\<lambda>_. False) (ref_client [])" by (simp add: ref_client_def)
  ultimately have "rsp = Inr (respond [] []) \<and> GetFileManifestFromServer (ref_env ''m'' [''b'']) cluster_net 0 ''f'' w1 = (Inr None, w1)"
    using delete_file_removes[OF _ r _ _ m _ _ d _ _ , where nenv = ref_uploader and bad = "\<lambda>_. False" and client = "ref_client []"]
      reliable_ok[OF mem_reliable] by (simp add: ref_request_def)
  then show ?thesis using d by blast
qed

text \<open>
  C31: asking for a file id that does not exist crashes the handler. The server answers 200 with an
  empty body, the client function returns the nil pointer without an error, and \<open>GetFile\<close> reads the
  file name through it; the branch for an error is not reached.
\<close>

theorem get_unknown_panics:
  assumes "reaches env ra w server p" "utf8_ok fileId" "fileId \<noteq> []"
    and "view (env_bg (per_env p)) (per_db p) ns_manifests fileId = None"
    and "req_Method req = ''GET''" "req_Query req ''id'' = fileId"
  shows "GetFile env L cluster_net gnet wr clock ra rb req w client = (Inl (Panic ''nil pointer dereference''), w, client)"
  using GetFileManifestFromServer_reads[OF assms(1,2)] assms(3-6) by (simp add: GetFile_def manifest_at_def)

theorem get_unknown_panics_witness:
  "GetFile (ref_env ''n'' [''b'']) ref_libs cluster_net ref_nodes_net write_buf (\<lambda>_. 0) 0 0 (ref_request ''GET'' ''f'')
      [''b'' \<mapsto> ref_peer ''b'' RBT.empty] (ref_client [])
    = (Inl (Panic ''nil pointer dereference''), [''b'' \<mapsto> ref_peer ''b'' RBT.empty], ref_client [])"
  using ref_reaches[of "''n''" "[''b'']" 0 "[''b'' \<mapsto> ref_peer ''b'' RBT.empty]" "''b''"]
  by (intro get_unknown_panics[where p = "ref_peer ''b'' RBT.empty" and server = "''b''" and fileId = "''f''"])
    (simp_all add: mem_view ref_request_def)

text \<open>What \<open>GetFile\<close> serves of a file that cannot be rebuilt.\<close>

lemma failed_download_served:
  fixes clock :: "int \<Rightarrow> int"
  assumes "badger_ok (env_bg nenv)" "file_lib_ok L" "client_ok bad client" "tl_network L (relay rb) DrandChainHash"
    and "GetFileManifestFromServer env net ra fileId w = (Inr (Some m), w1)" "fileId \<noteq> []"
    and "req_Method req = ''GET''" "req_Query req ''id'' = fileId"
    and "sealed_file L (env_C env) (node_holds nenv bad client) round m plains"
    and "k = length (takeWhile (ready L (node_holds nenv bad client) round clock m) [0..<length plains])" "k < length plains"
  shows "\<exists>client1. GetFile env L net (node_net nenv bad) write_buf clock ra rb req w client
    = (Inr (respond (file_headers (man_FileName m) fileId) (concat (take k plains)),
         Aborted (stopped_by (node_holds nenv bad client) m k)), w1, client1)"
proof -
  have "download (node_net nenv bad) (client_ok bad) (node_holds nenv bad) L"
    using node_net_laws[OF assms(1)] assms(2) by (simp add: download_def)
  from download.StreamReconstruct_sealed[OF this assms(9,3) refl assms(4), of clock "[]"]
  obtain s1 where "StreamReconstruct L (env_C env) (node_net nenv bad) write_buf clock rb m [] client
      = (Some (stopped_by (node_holds nenv bad client) m k), concat (take k plains), s1)"
    using assms(10,11) by auto
  then show ?thesis
    using assms(5-8) by (simp add: GetFile_def StreamReconstruct_hashed stopped_by_def)
qed

text \<open>
  A download that fails on the way still answers 200: when block \<open>k\<close> is the first that is not
  ready, the client gets status 200 with the blocks before it, a truncated file, and only the log
  has the error.
\<close>

theorem failed_download_answers_200:
  fixes clock :: "int \<Rightarrow> int"
  assumes "badger_ok (env_bg nenv)" "file_lib_ok L" "client_ok bad client" "tl_network L (relay rb) DrandChainHash"
    and "GetFileManifestFromServer env net ra fileId w = (Inr (Some m), w1)" "fileId \<noteq> []"
    and "req_Method req = ''GET''" "req_Query req ''id'' = fileId"
    and "sealed_file L (env_C env) (node_holds nenv bad client) round m plains"
    and "k = length (takeWhile (ready L (node_holds nenv bad client) round clock m) [0..<length plains])" "k < length plains"
  shows "\<exists>client1. GetFile env L net (node_net nenv bad) write_buf clock ra rb req w client
    = (Inr (respond (file_headers (man_FileName m) fileId) (concat (take k plains)),
         Aborted (stopped_by (node_holds nenv bad client) m k)), w1, client1)"
  using assms by (rule failed_download_served)

theorem failed_download_answers_200_witness:
  "\<exists>client1. GetFile (ref_env ''n'' [''b'']) ref_libs (ref_manifest_http ''name'') ref_net write_buf (\<lambda>_. 0) 0 0 (ref_request ''GET'' ''f'') () ref_file_client
    = (Inr (respond (file_headers ''name'' ''f'') [], Aborted (Err ''failed to unlock key with drand'')), (), client1)"
proof -
  have name: "utf8_ok ''name''" "man_FileName (ref_named ''name'') = ''name''" by (simp_all add: ref_named_def)
  have "badger_ok (env_bg (ref_env ''n'' []))" using reliable_ok[OF mem_reliable] by simp
  from failed_download_answers_200[OF this ref_libs.file_lib_ok_axioms _ _ ref_named_got[OF name(1)] _ _ _ _ ref_named_file(2)]
  show ?thesis
    using ref_named_file(1,3) name(2) by (simp add: ref_client_def ref_libs_def ref_request_def stopped_by_def)
qed

text \<open>
  The status of an upload. \<open>PutFile\<close> answers with the new file id before anything is uploaded, and
  \<open>CheckStatus\<close> then shows ''processing''; when the worker is done it shows ''completed'' if the upload
  returned no error, and ''error'' if it failed, panicked or could not open the temporary file.
\<close>

theorem put_status_shown:
  assumes "badger_reliable (env_bg env)" "fileId \<noteq> []" "PutFile env tf req fileId db = (rsp, Some job, db1)"
    and "put_worker env L net gnet parse tf numCPU uuid reads job w client db2 oc db3"
    and "req_Method ask = ''GET''" "req_Query ask ''id'' = fileId"
  shows "rsp_Status rsp = 200 \<and> rsp_Body rsp = fileId @ [CHR 0x0A]
    \<and> rsp_Body (CheckStatus env ask db1) = marshal enc_UploadStatus ''processing''
    \<and> rsp_Body (CheckStatus env ask db3) = marshal enc_UploadStatus (if oc_err oc = None then ''completed'' else ''error'')"
proof -
  have p: "rsp_Status rsp = 200" "rsp_Body rsp = fileId @ [CHR 0x0A]" "pj_id job = fileId" "db1 = saveStatus env fileId ''processing'' db"
    using assms(3) by (auto simp: PutFile_def split: if_splits sum.splits)
  from assms(4) have "db3 = saveStatus env fileId (if oc_err oc = None then ''completed'' else ''error'') db2"
    by (cases rule: put_worker.cases) (auto simp: p(3) final_status_def split: option.split)
  then show ?thesis using p status_saved[OF assms(1,2,5,6)] by simp
qed

theorem put_status_shown_witness:
  "rsp_Body (CheckStatus (ref_env ''n'' []) (ref_request ''GET'' ''f'')
      (saveStatus (ref_env ''n'' []) ''f'' ''error'' RBT.empty)) = marshal enc_UploadStatus ''error''"
proof -
  let ?E = "ref_env ''n'' []"
  let ?tf = "\<lparr>tf_create_err = None, tf_copy_err = None, tf_open_err = Some ''gone'', tf_hash_err = None, tf_seek_err = None,
    tf_stat_err = None, tf_read_err = None\<rparr>"
  let ?req = "\<lparr>put_Method = ''POST'', put_File = Inr (''data'', ''name''), put_Release = ''2030''\<rparr>"
  let ?job = "\<lparr>pj_content = ''data'', pj_name = ''name'', pj_release = ''2030'', pj_id = ''f''\<rparr>"
  have put: "PutFile ?E ?tf ?req ''f'' RBT.empty = (respond [(''Content-Type'', ''text/plain; charset=utf-8'')] (''f'' @ [CHR 0x0A]),
      Some ?job, saveStatus ?E ''f'' ''processing'' RBT.empty)"
    by (simp add: PutFile_def)
  have worker: "put_worker ?E ref_libs ref_http ref_nodes_net ref_parse ?tf 4 (\<lambda>_. []) {} ?job () (ref_client []) RBT.empty
      \<lparr>oc_err = Some (Err ''gone''), oc_manifest = None, oc_deletions = [], oc_servers = (), oc_client = ref_client []\<rparr>
      (saveStatus ?E ''f'' ''error'' RBT.empty)"
    using put_worker.open_failed[of ?tf "''gone''" ?E ref_libs ref_http ref_nodes_net ref_parse 4 "\<lambda>_. []" "{}" ?job "()" "ref_client []" RBT.empty]
    by simp
  have "badger_reliable (env_bg ?E)" using mem_reliable by simp
  from put_status_shown[OF this _ put worker, of "ref_request ''GET'' ''f''"] show ?thesis
    by (simp add: ref_request_def)
qed

end
