(* ===== verification/Node_Process.thy ===== *)
theory Node_Process
  imports Node_Api
begin

text \<open>
  The process of a storage node, the \<open>main\<close> function of \<open>cmd/k-node/main.go\<close>: its routes, and what its
  goroutines do between start and shutdown, as a step relation on the state of the process. A step is
  one request, one call over gRPC, one worker of \<open>PutFile\<close> from its start to its end, one deletion, one
  pass of the collector or one subscription; \<open>others\<close> is everything that happens elsewhere.
\<close>

subsection \<open>Routes\<close>

text \<open>A request with its multipart form, and what the handlers take from outside while they serve it.\<close>

record node_request = request +
  nrq_File :: "string + bytes \<times> bytes"
  nrq_Release :: bytes

record node_outside =
  no_write :: "bytes writer"
  no_clock :: "int \<Rightarrow> int"
  no_draws :: "nat \<times> nat"
  no_temp :: temp_files
  no_id :: bytes
  no_machine :: machine

text \<open>
  The state: the store, the pool with the other nodes, the bootstrap servers, and the goroutines that
  have been started and have not run yet.
\<close>

record ('db, 'b, 'w) node_proc =
  np_db :: 'db
  np_client :: "'w client"
  np_servers :: 'b
  np_puts :: "put_job list"
  np_deletions :: "(bytes \<times> bytes) list"

definition form_of :: "node_request \<Rightarrow> put_request" where
  "form_of req = \<lparr>put_Method = req_Method req, put_File = nrq_File req, put_Release = nrq_Release req\<rparr>"

text \<open>The routes, matched exactly; a path that \<open>ServeMux\<close> would clean and redirect is unknown here.\<close>

definition node_mux ::
  "'db env \<Rightarrow> file_lib \<Rightarrow> 'b net \<Rightarrow> 'w gnet \<Rightarrow> node_outside \<Rightarrow> node_request \<Rightarrow> ('db, 'b, 'w) node_proc
    \<Rightarrow> response res \<times> ('db, 'b, 'w) node_proc" where
  "node_mux env L net gnet out req s =
     (let path = req_Path req; r = request.truncate req; (ra, rb) = no_draws out in
      if path = ''/put'' then
        (case PutFile env (no_temp out) (form_of req) (no_id out) (np_db s) of (rsp, job, db1) \<Rightarrow>
           (Inr rsp, s\<lparr>np_db := db1, np_puts := np_puts s @ (case job of None \<Rightarrow> [] | Some j \<Rightarrow> [j])\<rparr>))
      else if path = ''/get'' then
        (case GetFile env L net gnet (no_write out) (no_clock out) ra rb r (np_servers s) (np_client s) of (rsp, w1, client1) \<Rightarrow>
           (case rsp of Inl e \<Rightarrow> Inl e | Inr (rsp, _) \<Rightarrow> Inr rsp, s\<lparr>np_servers := w1, np_client := client1\<rparr>))
      else if path = ''/delete'' then
        (case DeleteFile env net ra rb r (np_servers s) of (rsp, tasks, w1) \<Rightarrow>
           (rsp, s\<lparr>np_servers := w1, np_deletions := np_deletions s @ tasks\<rparr>))
      else if path = ''/chunk'' then
        (case Chunk_handler env r (np_db s) of (rsp, db1) \<Rightarrow> (Inr rsp, s\<lparr>np_db := db1\<rparr>))
      else if path = ''/upload/status'' then (Inr (CheckStatus env r (np_db s)), s)
      else if path = ''/metrics'' then (Inr (GetNodeMetrics env (no_machine out) r (np_db s)), s)
      else (Inr (http_Error ''404 page not found'' 404), s))"

subsection \<open>Start and stop\<close>

definition node_grpc_port :: "Config \<Rightarrow> int" where
  "node_grpc_port cfg = wrap64 (cfg_Port cfg + 1000)"

definition empty_pool :: pool where
  "empty_pool = \<lparr>pl_conns = (\<lambda>_. None), pl_count = 0, pl_target = (\<lambda>_. []), pl_state = (\<lambda>_. Idle)\<rparr>"

definition node_start :: "'db \<Rightarrow> 'b \<Rightarrow> 'w \<Rightarrow> ('db, 'b, 'w) node_proc" where
  "node_start db b w = \<lparr>np_db = db, np_client = (empty_pool, w), np_servers = b, np_puts = [], np_deletions = []\<rparr>"

text \<open>
  On a signal the connections are closed, in the order \<open>ks\<close> the map is walked in, and then the store.
  Nobody waits for the workers and the deletions: they end with the process.
\<close>

definition node_stop :: "bytes list \<Rightarrow> ('db, 'b, 'w) node_proc \<Rightarrow> ('db, 'b, 'w) node_proc" where
  "node_stop ks s = s\<lparr>np_client := (CloseAllGrpcConnections ks (fst (np_client s)), snd (np_client s)), np_puts := [], np_deletions := []\<rparr>"

subsection \<open>Runs\<close>

datatype node_event =
    Served node_outside node_request "response res"
  | Rpc
  | Worked put_job "fault option"
  | Deleted bytes bytes "string option"
  | Collected
  | Subscribed "fault option"
  | Others
  | Restarted

inductive node_does ::
  "'db env \<Rightarrow> file_lib \<Rightarrow> 'b net \<Rightarrow> 'w gnet \<Rightarrow> (bytes \<Rightarrow> int option) \<Rightarrow> ('db, 'b, 'w) node_proc \<Rightarrow> node_event
    \<Rightarrow> ('db, 'b, 'w) node_proc \<Rightarrow> bool" for env L net gnet parse where
  http: "node_mux env L net gnet out req s = (rsp, t) \<Longrightarrow> node_does env L net gnet parse s (Served out req rsp) t"
| rpc_save: "ok_ChunkRequest req \<Longrightarrow> NodeServer_SaveChunk env req (np_db s) = (rsp, db1) \<Longrightarrow>
    node_does env L net gnet parse s Rpc (s\<lparr>np_db := db1\<rparr>)"
| rpc_delete: "NodeServer_DeleteChunk env chunkId (np_db s) = (rsp, db1) \<Longrightarrow>
    node_does env L net gnet parse s Rpc (s\<lparr>np_db := db1\<rparr>)"
| worker: "np_puts s = before @ job # after \<Longrightarrow>
    put_worker env L net gnet parse tf numCPU uuid reads job (np_servers s) (np_client s) (np_db s) oc db1 \<Longrightarrow>
    node_does env L net gnet parse s (Worked job (oc_err oc))
      (s\<lparr>np_db := db1, np_servers := oc_servers oc, np_client := oc_client oc, np_puts := before @ after,
         np_deletions := np_deletions s @ oc_deletions oc\<rparr>)"
| deletion: "np_deletions s = before @ (k, a) # after \<Longrightarrow> run_deletion gnet (k, a) (np_client s) = (e, client1) \<Longrightarrow>
    node_does env L net gnet parse s (Deleted k a e) (s\<lparr>np_client := client1, np_deletions := before @ after\<rparr>)"
| collect: "clean_node_pass env net parse clock r (np_db s) (np_servers s) = (Inr (n, db1), w1) \<Longrightarrow>
    node_does env L net gnet parse s Collected (s\<lparr>np_db := db1, np_servers := w1\<rparr>)"
| subscribe: "SubscribeNode env net r (np_servers s) = (e, w1) \<Longrightarrow>
    node_does env L net gnet parse s (Subscribed e) (s\<lparr>np_servers := w1\<rparr>)"
| others: "node_does env L net gnet parse s Others (s\<lparr>np_servers := b, np_client := c\<rparr>)"
| restart: "node_does env L net gnet parse s Restarted (node_start (np_db (node_stop ks s)) b w)"

inductive node_runs ::
  "'db env \<Rightarrow> file_lib \<Rightarrow> 'b net \<Rightarrow> 'w gnet \<Rightarrow> (bytes \<Rightarrow> int option) \<Rightarrow> ('db, 'b, 'w) node_proc \<Rightarrow> node_event list
    \<Rightarrow> ('db, 'b, 'w) node_proc \<Rightarrow> bool" for env L net gnet parse s where
  none: "node_runs env L net gnet parse s [] s"
| more: "node_runs env L net gnet parse s evs t \<Longrightarrow> node_does env L net gnet parse t e u \<Longrightarrow>
    node_runs env L net gnet parse s (evs @ [e]) u"

lemma node_runs_one: "node_does env L net gnet parse s e t \<Longrightarrow> node_runs env L net gnet parse s [e] t"
  using node_runs.more[OF node_runs.none] by fastforce

subsection \<open>What a step does to the store\<close>

lemma put_worker_status:
  assumes "put_worker env L net gnet parse tf numCPU uuid reads job b c db oc db1"
  shows "db1 = saveStatus env (pj_id job) (final_status (oc_err oc)) db"
  using assms by (cases rule: put_worker.cases) (simp_all add: final_status_def)

lemma PutFile_effect:
  "PutFile env tf req fileId db = (rsp, job, db1) \<Longrightarrow>
    (job = None \<and> db1 = db \<and> rsp_Status rsp \<noteq> 200)
    \<or> (job \<noteq> None \<and> pj_id (the job) = fileId \<and> db1 = saveStatus env fileId ''processing'' db \<and> rsp_Status rsp = 200)"
  by (auto simp: PutFile_def split: if_splits sum.splits)

text \<open>A request: an upload is accepted, or a chunk is handled, or the store stays as it is.\<close>

lemma mux_effect:
  assumes "node_mux env L net gnet out req s = (rsp, t)"
  obtains (put) r j where "req_Path req = ''/put''" "rsp = Inr r" "rsp_Status r = 200" "pj_id j = no_id out"
      "np_db t = saveStatus env (no_id out) ''processing'' (np_db s)" "np_puts t = np_puts s @ [j]"
  | (chunk) r where "req_Path req = ''/chunk''" "Chunk_handler env (request.truncate req) (np_db s) = (r, np_db t)" "np_puts t = np_puts s"
  | (other) "np_db t = np_db s" "np_puts t = np_puts s" "req_Path req = ''/put'' \<longrightarrow> (\<exists>r. rsp = Inr r \<and> rsp_Status r \<noteq> 200)"
proof -
  obtain ra rb where d: "no_draws out = (ra, rb)" by fastforce
  consider "req_Path req = ''/put''" | "req_Path req = ''/chunk''" | "req_Path req \<noteq> ''/put''" "req_Path req \<noteq> ''/chunk''" by blast
  then show thesis
  proof cases
    case 1
    obtain r job db1 where p: "PutFile env (no_temp out) (form_of req) (no_id out) (np_db s) = (r, job, db1)"
      by (metis prod_cases3)
    then have t: "rsp = Inr r" "t = s\<lparr>np_db := db1, np_puts := np_puts s @ (case job of None \<Rightarrow> [] | Some j \<Rightarrow> [j])\<rparr>"
      using assms 1 d by (auto simp: node_mux_def Let_def)
    from PutFile_effect[OF p] show thesis
    proof
      assume "job = None \<and> db1 = np_db s \<and> rsp_Status r \<noteq> 200"
      then show thesis using other t by simp
    next
      assume "job \<noteq> None \<and> pj_id (the job) = no_id out \<and> db1 = saveStatus env (no_id out) ''processing'' (np_db s) \<and> rsp_Status r = 200"
      then show thesis using put 1 t by auto
    qed
  next
    case 2
    then show thesis using chunk assms d by (auto simp: node_mux_def Let_def split: prod.splits)
  next
    case 3
    then have "np_db t = np_db s \<and> np_puts t = np_puts s"
      using assms d by (auto simp: node_mux_def Let_def split: prod.splits if_splits)
    then show thesis using other 3 by simp
  qed
qed

text \<open>In terms of the ways to write to the store that \<open>Node_Server\<close> lists.\<close>

lemma node_does_store:
  assumes "node_does env L net gnet parse s e t"
  shows "np_db t = np_db s \<or> node_step env net (np_db s) (np_db t)"
  using assms
proof (cases rule: node_does.cases)
  case (http out req rsp)
  from http(2) show ?thesis
  proof (cases rule: mux_effect)
    case (put r j)
    then show ?thesis using node_step.status[OF refl] by metis
  next
    case (chunk r)
    then show ?thesis using node_step.http_chunk by metis
  qed simp
next
  case (worker before job after tf numCPU uuid reads oc db1)
  then show ?thesis using put_worker_status[OF worker(4)] by (auto intro: node_step.status)
qed (auto simp: node_start_def node_stop_def intro: node_step.intros)

lemma node_runs_chunks:
  assumes "badger_ok (env_bg env)" "node_runs env L net gnet parse s evs t" "chunks_ok env (np_db s)"
  shows "chunks_ok env (np_db t)"
  using assms(2,3)
proof induction
  case (more evs t e u)
  then show ?case using node_does_store[OF more.hyps(2)] node_step_preserves[OF assms(1)] by metis
qed

subsection \<open>The status of uploads\<close>

text \<open>
  The abstract view of the namespace \<open>upload_status\<close>: the last event about the file id, an accepted
  upload or the end of its worker.
\<close>

definition status_change :: "bytes \<Rightarrow> node_event \<Rightarrow> bytes option" where
  "status_change fileId e = (case e of
     Served out req (Inr rsp) \<Rightarrow>
       if req_Path req = ''/put'' \<and> rsp_Status rsp = 200 \<and> no_id out = fileId then Some ''processing'' else None
   | Worked job err \<Rightarrow> if pj_id job = fileId then Some (final_status err) else None
   | _ \<Rightarrow> None)"

fun status_log :: "bytes \<Rightarrow> bytes option \<Rightarrow> node_event list \<Rightarrow> bytes option" where
  "status_log fileId st [] = st"
| "status_log fileId st (e # evs) =
     status_log fileId (case status_change fileId e of None \<Rightarrow> st | Some st1 \<Rightarrow> Some st1) evs"

lemma status_log_append [simp]:
  "status_log fileId st (evs @ [e]) = (case status_change fileId e of None \<Rightarrow> status_log fileId st evs | Some st1 \<Rightarrow> Some st1)"
  by (induction evs arbitrary: st) (simp_all split: option.split)

lemma saveStatus_view:
  assumes "badger_reliable (env_bg env)"
  shows "view (env_bg env) (saveStatus env g st db) ns_upload_status f
    = (if f = g then Some (Inr (marshal enc_UploadStatus st)) else view (env_bg env) db ns_upload_status f)"
  by (simp add: saveStatus_def reliable_put[OF assms])

text \<open>Whatever is done to chunks leaves the status of uploads alone.\<close>

lemma chunk_ops_status:
  assumes "badger_ok (env_bg env)"
  shows "NodeServer_SaveChunk env req db = (rsp, db1) \<Longrightarrow> view (env_bg env) db1 ns_upload_status f = view (env_bg env) db ns_upload_status f"
    "NodeServer_DeleteChunk env k db = (rsp, db1) \<Longrightarrow> view (env_bg env) db1 ns_upload_status f = view (env_bg env) db ns_upload_status f"
    "view (env_bg env) (snd (Chunk_handler env r db)) ns_upload_status f = view (env_bg env) db ns_upload_status f"
    "clean_node_pass env net parse clock d db b = (Inr (n, db1), b1)
      \<Longrightarrow> view (env_bg env) db1 ns_upload_status f = view (env_bg env) db ns_upload_status f"
proof -
  note put = badger_ok.view_put_other[OF assms, of ns_chunks ns_upload_status] and del = badger_ok.view_del_other[OF assms, of ns_chunks ns_upload_status]
  have save: "view (env_bg env) (snd (SaveChunk env r db)) ns_upload_status f = view (env_bg env) db ns_upload_status f"
    by (cases rule: SaveChunk_cases[of env r db]) (simp_all add: put)
  show "view (env_bg env) db1 ns_upload_status f = view (env_bg env) db ns_upload_status f"
    if "NodeServer_SaveChunk env req db = (rsp, db1)"
    using arg_cong[OF that, of snd] by (auto simp: NodeServer_SaveChunk_def Let_def case_prod_beta put split: if_splits)
  show "view (env_bg env) db1 ns_upload_status f = view (env_bg env) db ns_upload_status f"
    if "NodeServer_DeleteChunk env k db = (rsp, db1)"
    using arg_cong[OF that, of snd] by (auto simp: NodeServer_DeleteChunk_def Let_def case_prod_beta del split: if_splits)
  show "view (env_bg env) (snd (Chunk_handler env r db)) ns_upload_status f = view (env_bg env) db ns_upload_status f"
    using save by (simp add: Chunk_handler_def Let_def case_prod_beta del split: prod.split option.split sum.split)
  assume "clean_node_pass env net parse clock d db b = (Inr (n, db1), b1)"
  then obtain ks where "db1 = snd (delete_keys (env_bg env) ns_chunks ks db)"
    by (rule clean_node_pass_keys)
  then show "view (env_bg env) db1 ns_upload_status f = view (env_bg env) db ns_upload_status f"
    using delete_keys_frame[OF assms, of ns_chunks ns_upload_status ks db] by simp
qed

lemma node_does_status:
  assumes "badger_reliable (env_bg env)" "node_does env L net gnet parse s e t"
  shows "view (env_bg env) (np_db t) ns_upload_status f = (case status_change f e of
      None \<Rightarrow> view (env_bg env) (np_db s) ns_upload_status f | Some st \<Rightarrow> Some (Inr (marshal enc_UploadStatus st)))"
  using assms(2)
proof (cases rule: node_does.cases)
  case (http out req rsp)
  from http(2) show ?thesis
  proof (cases rule: mux_effect)
    case (put r j)
    then show ?thesis using saveStatus_view[OF assms(1)] by (simp add: http(1) status_change_def)
  next
    case (chunk r)
    then show ?thesis
      using chunk_ops_status(3)[OF reliable_ok[OF assms(1)], of "request.truncate req" "np_db s" f]
      by (simp add: http(1) status_change_def split: sum.split)
  next
    case other
    then show ?thesis by (auto simp: http(1) status_change_def split: sum.split)
  qed
next
  case (worker before job after tf numCPU uuid reads oc db1)
  then show ?thesis
    using put_worker_status[OF worker(4)] saveStatus_view[OF assms(1)] by (simp add: status_change_def)
qed (use chunk_ops_status[OF reliable_ok[OF assms(1)]] in \<open>simp_all add: status_change_def node_start_def node_stop_def\<close>)

lemma node_runs_status:
  assumes "badger_reliable (env_bg env)" "node_runs env L net gnet parse s evs t"
    and "view (env_bg env) (np_db s) ns_upload_status f = map_option (\<lambda>st. Inr (marshal enc_UploadStatus st)) st"
  shows "view (env_bg env) (np_db t) ns_upload_status f = map_option (\<lambda>st. Inr (marshal enc_UploadStatus st)) (status_log f st evs)"
  using assms(2)
  by induction (simp_all add: assms(3) node_does_status[OF assms(1)] split: option.split)

lemma CheckStatus_view:
  assumes "badger_reliable (env_bg env)" "f \<noteq> []" "req_Method ask = ''GET''" "req_Query ask ''id'' = f"
    and "view (env_bg env) db ns_upload_status f = map_option (\<lambda>st. Inr (marshal enc_UploadStatus st)) st"
  shows "CheckStatus env ask db = (case st of None \<Rightarrow> http_Error ''Status not found'' 404
    | Some st \<Rightarrow> respond [(''Content-Type'', ''application/json'')] (marshal enc_UploadStatus st))"
  using badger_ok.view_get[OF reliable_ok[OF assms(1)], of db ns_upload_status f] assms(2-5)
  by (simp add: CheckStatus_def Let_def split: option.split)

text \<open>Workers are started by requests only.\<close>

definition puts_of :: "node_event list \<Rightarrow> bytes set" where
  "puts_of evs = {no_id out |out req rsp. Served out req rsp \<in> set evs \<and> req_Path req = ''/put''}"

lemma puts_of_append [simp]: "puts_of (evs @ [e]) = puts_of evs \<union> puts_of [e]"
  by (auto simp: puts_of_def)

lemma node_does_puts:
  assumes "node_does env L net gnet parse s e t"
  shows "pj_id ` set (np_puts t) \<subseteq> pj_id ` set (np_puts s) \<union> puts_of [e]"
    "e = Worked job err \<Longrightarrow> job \<in> set (np_puts s)"
proof -
  show "pj_id ` set (np_puts t) \<subseteq> pj_id ` set (np_puts s) \<union> puts_of [e]"
    using assms
  proof (cases rule: node_does.cases)
    case (http out req rsp)
    from http(2) show ?thesis
      by (cases rule: mux_effect) (auto simp: http(1) puts_of_def)
  qed (auto simp: node_start_def)
  show "job \<in> set (np_puts s)" if "e = Worked job err"
    using assms that by (cases rule: node_does.cases) auto
qed

lemma node_runs_puts:
  assumes "node_runs env L net gnet parse s evs t"
  shows "pj_id ` set (np_puts t) \<subseteq> pj_id ` set (np_puts s) \<union> puts_of evs"
  using assms
proof induction
  case (more evs t e u)
  then show ?case using node_does_puts(1)[OF more.hyps(2)] unfolding puts_of_append by blast
qed simp

lemma no_status_change:
  assumes "node_does env L net gnet parse s e t" "f \<notin> pj_id ` set (np_puts s)" "f \<notin> puts_of [e]"
  shows "status_change f e = None"
  using assms(2,3) node_does_puts(2)[OF assms(1)]
  by (cases e) (auto simp: status_change_def puts_of_def split: sum.split)

lemma forgotten_status:
  assumes "node_runs env L net gnet parse s evs t" "f \<notin> pj_id ` set (np_puts s)" "f \<notin> puts_of evs"
  shows "status_log f st evs = st"
  using assms(1,3)
proof induction
  case (more evs t e u)
  then have "status_change f e = None"
    using no_status_change[OF more.hyps(2)] node_runs_puts[OF more.hyps(1)] assms(2) by auto
  then show ?case using more by simp
qed simp

subsection \<open>An example run\<close>

definition ref_outside :: node_outside where
  "ref_outside = \<lparr>no_write = write_buf, no_clock = (\<lambda>_. 0), no_draws = (0, 0),
     no_temp = \<lparr>tf_create_err = None, tf_copy_err = None, tf_open_err = None, tf_hash_err = None, tf_seek_err = None,
       tf_stat_err = None, tf_read_err = None\<rparr>,
     no_id = ''f'', no_machine = out_machine ref_out\<rparr>"

definition ref_put :: node_request where
  "ref_put = \<lparr>req_Method = ''POST'', req_Path = ''/put'', req_Query = (\<lambda>_. []), req_Body = [],
     nrq_File = Inr (''data'', ''name''), nrq_Release = ''2030''\<rparr>"

definition ref_accepted :: response where
  "ref_accepted = respond [(''Content-Type'', ''text/plain; charset=utf-8'')] (''f'' @ [CHR 0x0A])"

lemma ref_put_served:
  "\<exists>t. node_does env L net gnet parse s (Served ref_outside ref_put (Inr ref_accepted)) t"
  by (rule exI, rule node_does.http)
    (simp add: node_mux_def PutFile_def ref_outside_def ref_put_def form_of_def ref_accepted_def)

lemma ref_put_log: "status_log ''f'' None [Served ref_outside ref_put (Inr ref_accepted)] = Some ''processing''"
  by (simp add: status_change_def ref_put_def ref_outside_def ref_accepted_def)

subsection \<open>Properties\<close>

text \<open>
  C17: in every state a node's process reaches from an empty store, through requests on all its
  routes, calls over gRPC, uploads, deletions, passes of the collector, subscriptions and restarts, each
  stored chunk is filed under its own id, carries no signature, and its bytes were signed under the
  public key in it.
\<close>

theorem process_chunks_authentic:
  assumes "badger_ok (env_bg env)" "\<And>p k. view (env_bg env) db p k = None"
    and "node_runs env L net gnet parse (node_start db b w) evs s"
    and "view (env_bg env) (np_db s) ns_chunks k = Some (Inr v)"
  shows "\<exists>chunk sg. decode_stream dec_ChunkRequest zero_ChunkRequest v = (chunk, True)
    \<and> crq_ChunkId chunk = k \<and> crq_Signature chunk = None \<and> check env v sg (crq_PublicKey chunk)"
proof -
  have "chunks_ok env (np_db (node_start db b w))" using assms(2) by (simp add: chunks_ok_def node_start_def)
  then have "chunks_ok env (np_db s)" by (rule node_runs_chunks[OF assms(1,3)])
  then obtain chunk sg where "v = marshal enc_ChunkRequest chunk" "ok_ChunkRequest chunk" "crq_ChunkId chunk = k"
    "crq_Signature chunk = None" "check env v sg (crq_PublicKey chunk)"
    using assms(4) unfolding chunks_ok_def chunk_entry_def by blast
  then show ?thesis using crq.stream_marshal_end by blast
qed

theorem process_chunks_authentic_witness:
  "\<exists>s v chunk sg. node_runs (ref_env ''a'' []) ref_libs ref_down ref_nodes_net ref_parse (node_start RBT.empty () Map.empty) [Rpc] s
     \<and> view mem_badger (np_db s) ns_chunks ''k'' = Some (Inr v)
     \<and> decode_stream dec_ChunkRequest zero_ChunkRequest v = (chunk, True) \<and> crq_ChunkId chunk = ''k''
     \<and> check (ref_env ''a'' []) v sg (crq_PublicKey chunk)"
proof -
  let ?e = "ref_env ''a'' []"
  let ?r = "ref_chunk\<lparr>crq_PublicKey := cfg_PublicKey (env_cfg ?e)\<rparr>"
  obtain sg where sg: "check ?e (marshal enc_ChunkRequest ?r) (Some sg) (cfg_PublicKey (env_cfg ?e))"
    using ref_env_sign by blast
  let ?req = "?r\<lparr>crq_Signature := Some sg\<rparr>"
  let ?db = "ref_store ns_chunks ''k'' (marshal enc_ChunkRequest ?r)"
    and ?s = "node_start RBT.empty () Map.empty :: (_, unit, bytes \<Rightarrow> (bytes, bytes) RBT.rbt option) node_proc"
  have req: "?req\<lparr>crq_Signature := None\<rparr> = ?r" "ok_ChunkRequest ?req"
    using ref_chunk_ok by (simp_all add: ref_chunk_def zero_ChunkRequest_def ok_ChunkRequest_def)
  obtain rsp where "NodeServer_SaveChunk ?e ?req (np_db ?s) = (rsp, ?db)"
    using sg req(1) by (simp add: NodeServer_SaveChunk_def Let_def ref_store_def node_start_def)
  then have run: "node_runs ?e ref_libs ref_down ref_nodes_net ref_parse ?s [Rpc] (?s\<lparr>np_db := ?db\<rparr>)"
    by (intro node_runs_one node_does.rpc_save[OF req(2)])
  have v: "view (env_bg ?e) (np_db (?s\<lparr>np_db := ?db\<rparr>)) ns_chunks ''k'' = Some (Inr (marshal enc_ChunkRequest ?r))"
    by (simp add: ref_store_view)
  have "badger_ok (env_bg ?e)" "\<And>p k. view (env_bg ?e) RBT.empty p k = None"
    by (simp_all add: mem_reliable reliable_ok mem_view)
  from process_chunks_authentic[OF this run v] show ?thesis
    using run v unfolding ref_env_simps(1) by blast
qed

text \<open>
  C18: \<open>GET /upload/status\<close> is the log of the uploads: in every run of the process it shows for a
  file id the last thing that happened to it, ''processing'' from the accepted upload on, ''completed'' or
  ''error'' from the end of its worker on, and 404 before; nothing else that the process does changes it.
\<close>

theorem status_is_log:
  assumes "badger_reliable (env_bg env)" "view (env_bg env) db ns_upload_status fileId = None"
    and "node_runs env L net gnet parse (node_start db b w) evs s"
    and "fileId \<noteq> []" "req_Method ask = ''GET''" "req_Query ask ''id'' = fileId"
  shows "CheckStatus env ask (np_db s) = (case status_log fileId None evs of
      None \<Rightarrow> http_Error ''Status not found'' 404
    | Some st \<Rightarrow> respond [(''Content-Type'', ''application/json'')] (marshal enc_UploadStatus st))"
  using node_runs_status[OF assms(1,3), of fileId None] assms(2)
  by (intro CheckStatus_view[OF assms(1,4-6)]) (simp add: node_start_def)

theorem status_is_log_witness:
  "\<exists>s. node_runs (ref_env ''n'' []) ref_libs ref_http ref_nodes_net ref_parse (node_start RBT.empty () Map.empty) [Served ref_outside ref_put (Inr ref_accepted)] s
    \<and> CheckStatus (ref_env ''n'' []) (ref_request ''GET'' ''f'') (np_db s)
      = respond [(''Content-Type'', ''application/json'')] (marshal enc_UploadStatus ''processing'')"
proof -
  let ?e = "ref_env ''n'' []" and ?s = "node_start RBT.empty () Map.empty :: (_, unit, bytes \<Rightarrow> (bytes, bytes) RBT.rbt option) node_proc"
  obtain t where "node_does ?e ref_libs ref_http ref_nodes_net ref_parse ?s (Served ref_outside ref_put (Inr ref_accepted)) t"
    using ref_put_served by blast
  then have run: "node_runs ?e ref_libs ref_http ref_nodes_net ref_parse ?s [Served ref_outside ref_put (Inr ref_accepted)] t"
    by (rule node_runs_one)
  from status_is_log[OF _ _ run, of "''f''" "ref_request ''GET'' ''f''"] show ?thesis
    using run unfolding ref_put_log by (auto simp: mem_reliable mem_view ref_request_def)
qed

text \<open>
  C34: an upload that a restart interrupts is lost, and its status never says so: when the
  process stops while the status of a file id is ''processing'', it stays ''processing'' in every run of the
  restarted process in which no new upload gets this id, and no worker for it runs any more.
\<close>

theorem interrupted_upload_stays_processing:
  assumes "badger_reliable (env_bg env)" "view (env_bg env) db ns_upload_status fileId = None"
    and "node_runs env L net gnet parse (node_start db b w) evs s" "status_log fileId None evs = Some ''processing''"
    and "node_does env L net gnet parse s Restarted t" "node_runs env L net gnet parse t later u" "fileId \<notin> puts_of later"
    and "fileId \<noteq> []" "req_Method ask = ''GET''" "req_Query ask ''id'' = fileId"
  shows "rsp_Body (CheckStatus env ask (np_db u)) = marshal enc_UploadStatus ''processing''
    \<and> fileId \<notin> pj_id ` set (np_puts u)"
proof -
  have start: "view (env_bg env) (np_db (node_start db b w)) ns_upload_status fileId = map_option (\<lambda>st. Inr (marshal enc_UploadStatus st)) None"
    using assms(2) by (simp add: node_start_def)
  from assms(5) have t: "np_db t = np_db s" "np_puts t = []"
    by (cases rule: node_does.cases, auto simp: node_start_def node_stop_def)+
  have "status_log fileId (Some ''processing'') later = Some ''processing''"
    by (rule forgotten_status[OF assms(6) _ assms(7)]) (simp add: t)
  then have "view (env_bg env) (np_db u) ns_upload_status fileId = map_option (\<lambda>st. Inr (marshal enc_UploadStatus st)) (Some ''processing'')"
    using node_runs_status[OF assms(1,6), of fileId "Some ''processing''"] node_runs_status[OF assms(1,3) start] assms(4) t(1) by simp
  from CheckStatus_view[OF assms(1,8-10) this] show ?thesis
    using node_runs_puts[OF assms(6)] assms(7) t(2) by auto
qed

theorem interrupted_upload_stays_processing_witness:
  "\<exists>s t. node_runs (ref_env ''n'' []) ref_libs ref_http ref_nodes_net ref_parse (node_start RBT.empty () Map.empty) [Served ref_outside ref_put (Inr ref_accepted)] s
    \<and> node_does (ref_env ''n'' []) ref_libs ref_http ref_nodes_net ref_parse s Restarted t
    \<and> rsp_Body (CheckStatus (ref_env ''n'' []) (ref_request ''GET'' ''f'') (np_db t)) = marshal enc_UploadStatus ''processing''"
proof -
  let ?e = "ref_env ''n'' []" and ?s = "node_start RBT.empty () Map.empty :: (_, unit, bytes \<Rightarrow> (bytes, bytes) RBT.rbt option) node_proc"
  obtain s where "node_does ?e ref_libs ref_http ref_nodes_net ref_parse ?s (Served ref_outside ref_put (Inr ref_accepted)) s"
    using ref_put_served by blast
  then have run: "node_runs ?e ref_libs ref_http ref_nodes_net ref_parse ?s [Served ref_outside ref_put (Inr ref_accepted)] s"
    by (rule node_runs_one)
  define t where "t = node_start (np_db (node_stop [] s)) () (snd (np_client s))"
  have stop: "node_does ?e ref_libs ref_http ref_nodes_net ref_parse s Restarted t"
    unfolding t_def by (rule node_does.restart)
  have r: "badger_reliable (env_bg ?e)" "view (env_bg ?e) RBT.empty ns_upload_status ''f'' = None" "''f'' \<notin> puts_of []"
    by (simp_all add: mem_reliable mem_view puts_of_def)
  have "rsp_Body (CheckStatus ?e (ref_request ''GET'' ''f'') (np_db t)) = marshal enc_UploadStatus ''processing'' \<and> ''f'' \<notin> pj_id ` set (np_puts t)"
    by (rule interrupted_upload_stays_processing[OF r(1,2) run ref_put_log stop node_runs.none r(3)]) (simp_all add: ref_request_def)
  then show ?thesis using run stop by blast
qed

end
