(* ===== verification/Cli_System.thy ===== *)
theory Cli_System
  imports Cli Node_Process
begin

text \<open>
  The command line client against a storage node: what a user gets who puts a file with one node and
  gets it from another. The node's HTTP server is \<open>node_mux\<close>; multipart forms are passed on as their
  parts, and URLs carry ids that need no escaping, as those of \<open>uuid\<close> do.
\<close>

subsection \<open>From the client to the routes of the node\<close>

text \<open>\<open>FormFile\<close> and \<open>FormValue\<close>; \<open>mime/multipart\<close> takes the base of a file name once more.\<close>

fun form_file :: "bytes \<Rightarrow> part list \<Rightarrow> string + bytes \<times> bytes" where
  "form_file key [] = Inl ''http: no such file''"
| "form_file key (FilePart name filename content # ps) = (if name = key then Inr (content, base_name filename) else form_file key ps)"
| "form_file key (FieldPart name v # ps) = form_file key ps"

fun form_value :: "bytes \<Rightarrow> part list \<Rightarrow> bytes" where
  "form_value key [] = []"
| "form_value key (FieldPart name v # ps) = (if name = key then v else form_value key ps)"
| "form_value key (FilePart name filename content # ps) = form_value key ps"

definition node_url :: "bytes \<Rightarrow> bytes \<times> (bytes \<Rightarrow> bytes)" where
  "node_url url = (let r = drop (length NodeURL) url; qs = drop 1 (dropWhile (\<lambda>c. c \<noteq> CHR ''?'') r) in
     (takeWhile (\<lambda>c. c \<noteq> CHR ''?'') r,
      \<lambda>k. if take (length k + 1) qs = k @ ''='' then drop (length k + 1) qs else []))"

definition cli_view :: "response \<Rightarrow> cli_response" where
  "cli_view rsp = \<lparr>cr_Status = rsp_Status rsp,
     cr_Header = (\<lambda>k. case map_of (rsp_Header rsp) k of Some v \<Rightarrow> v | None \<Rightarrow> []), cr_Body = rsp_Body rsp, cr_BodyErr = None\<rparr>"

text \<open>A handler that panics drops the connection.\<close>

definition node_http ::
  "'db env \<Rightarrow> file_lib \<Rightarrow> 'b net \<Rightarrow> 'w gnet \<Rightarrow> node_outside \<Rightarrow> bytes \<Rightarrow> part list \<Rightarrow> (('db, 'b, 'w) node_proc) cli_http" where
  "node_http env L net gnet out method parts url s =
     (case node_url url of (path, query) \<Rightarrow>
       (case node_mux env L net gnet out
               \<lparr>req_Method = method, req_Path = path, req_Query = query, req_Body = [],
                nrq_File = form_file ''file'' parts, nrq_Release = form_value ''release_time'' parts\<rparr> s of
          (Inl _, s1) \<Rightarrow> (Inl ''EOF'', s1)
        | (Inr rsp, s1) \<Rightarrow> (Inr (cli_view rsp), s1)))"

lemma node_url_simps:
  "node_url (NodeURL @ ''/put'') = (''/put'', \<lambda>k. [])"
  "fst (node_url (NodeURL @ ''/get?id='' @ fileId)) = ''/get''"
  "snd (node_url (NodeURL @ ''/get?id='' @ fileId)) ''id'' = fileId"
  by (simp_all add: node_url_def NodeURL_def Let_def)

lemmas node_url_norm [simp] = node_url_simps [simplified append.simps]

lemma base_name_idem: "base_name (base_name path) = base_name path"
proof -
  let ?p = "rev (dropWhile (\<lambda>c. c = CHR ''/'') (rev path))"
  let ?b = "rev (takeWhile (\<lambda>c. c \<noteq> CHR ''/'') (rev ?p))"
  have plain: "base_name b = b" if "b \<noteq> []" "CHR ''/'' \<notin> set b" for b
  proof -
    have "hd (rev b) \<noteq> CHR ''/''" using that by (metis hd_in_set rev_is_Nil_conv set_rev)
    then have "dropWhile (\<lambda>c. c = CHR ''/'') (rev b) = rev b" using that(1) by (cases "rev b") simp_all
    moreover have "takeWhile (\<lambda>c. c \<noteq> CHR ''/'') (rev b) = rev b"
      unfolding takeWhile_eq_all_conv using that(2) by auto
    ultimately show ?thesis using that(1) by (simp only: base_name_def Let_def rev_rev_ident if_False)
  qed
  have "base_name ''/'' = ''/''" by (simp add: base_name_def)
  moreover have "base_name ''.'' = ''.''" by (simp add: base_name_def)
  moreover have "base_name ?b = ?b" if "?p \<noteq> []"
  proof (rule plain)
    have "dropWhile (\<lambda>c. c = CHR ''/'') (rev path) \<noteq> []" using that by auto
    then have "hd (dropWhile (\<lambda>c. c = CHR ''/'') (rev path)) \<noteq> CHR ''/''" by (rule hd_dropWhile)
    then show "?b \<noteq> []" using that by (cases "dropWhile (\<lambda>c. c = CHR ''/'') (rev path)") simp_all
    show "CHR ''/'' \<notin> set ?b" using set_takeWhileD by fastforce
  qed
  ultimately show ?thesis unfolding base_name_def[of path] Let_def by simp
qed

subsection \<open>The commands against the node\<close>

text \<open>A file that can be read is accepted under a new id, with its base name, and waits for its worker.\<close>

lemma cli_put_accepted:
  assumes "cli_put os (node_http env L net gnet out ''POST'') path releaseTime s = (Put_done msg, s1)"
    and "os_open os path = Inr (content, None)"
  shows "msg = no_id out @ [CHR 0x0A]"
    "np_puts s1 = np_puts s @ [\<lparr>pj_content = content, pj_name = base_name path, pj_release = releaseTime, pj_id = no_id out\<rparr>]"
  using assms
  by (auto simp: cli_put_def put_form_def node_http_def node_mux_def PutFile_def form_of_def cli_view_def base_name_idem
      split: if_splits prod.splits)

text \<open>Getting a file is the handler \<open>GetFile\<close> and the name in its header.\<close>

lemma cli_get_served:
  assumes "GetFile env L net gnet (no_write out) (no_clock out) (fst (no_draws out)) (snd (no_draws out))
      \<lparr>req_Method = ''GET'', req_Path = ''/get'', req_Query = snd (node_url (NodeURL @ ''/get?id='' @ fileId)), req_Body = []\<rparr>
      (np_servers s) (np_client s) = (Inr (respond (file_headers name fileId) content, v), w1, client1)"
    and "get_filename (disposition name) fileId = Inr filename"
    and "os_create_err os (dir @ ''/'' @ filename) = None" "os_write_limit os (dir @ ''/'' @ filename) = None"
  shows "cli_get os (node_http env L net gnet out ''GET'' []) fileId dir files s
    = (Inr (Get_done (dir @ ''/'' @ filename)), files(dir @ ''/'' @ filename \<mapsto> content), s\<lparr>np_servers := w1, np_client := client1\<rparr>)"
proof -
  have "node_http env L net gnet out ''GET'' [] (NodeURL @ ''/get?id='' @ fileId) s
      = (Inr (cli_view (respond (file_headers name fileId) content)), s\<lparr>np_servers := w1, np_client := client1\<rparr>)"
    using assms(1) node_url_simps(2)[of fileId]
    by (cases "node_url (NodeURL @ ''/get?id='' @ fileId)"; cases "no_draws out")
      (simp add: node_http_def node_mux_def Let_def request.truncate_def)
  moreover have "cr_Header (cli_view (respond (file_headers name fileId) content)) ''Content-Disposition'' = disposition name"
    by (simp add: cli_view_def file_headers_def disposition_def)
  ultimately show ?thesis
    using assms(2-4) by (simp add: cli_get_def cli_view_def copy_body_def Let_def)
qed

subsection \<open>Properties\<close>

text \<open>
  C2: the whole way from one command line to another. A file that is not empty and whose base name is UTF-8
  without white space (\<open>plain_name\<close>; \<open>name_cut_at_space\<close> is what happens otherwise), put with a node,
  is accepted under the id that is printed. Once the worker has uploaded it without an error, a \<open>get\<close> of
  this id at any node with the same bootstrap server, the only one in their settings, after the release
  time and while three chunks of every block can be had, ends with success and leaves exactly the
  content in the output directory, under the base name of the file. The relay of the beacon is
  reached and the output file can be written.
\<close>

theorem cli_put_get:
  fixes s s1 :: "('db, 'b, 'w) node_proc" and s2 :: "('db2, _, _) node_proc"
  assumes "c = job_call tf numCPU uuid reads (last (np_puts s1))"
    and "cli_put os (node_http env L net gnet out ''POST'') path releaseTime s = (Put_done msg, s1)"
    and "os_open os path = Inr (content, None)" "content \<noteq> []" "plain_name (base_name path)" "no_id out \<noteq> []"
    and "put_worker env L cluster_net (node_net nenv bad) parse tf numCPU uuid reads (last (np_puts s1)) w client db oc db1"
    and "oc_err oc = None" "oc_manifest oc = Some m"
    and "usable env L c nenv bad client" "readable_call env c"
    and "\<forall>k n x. length (gcm_seal (env_C env) k n x) \<le> length x + 16"
    and "cfg_BootStrapServers (env_cfg env) = [server]" "reaches env 0 w server p" "reaches env' (fst (no_draws out2)) w server p"
    and "np_servers s2 = oc_servers oc" "client_ok bad (np_client s2)"
    and "\<forall>a k. node_holds nenv bad (np_client s2) a (uuid k) = None
          \<or> node_holds nenv bad (np_client s2) a (uuid k) = node_holds nenv bad (oc_client oc) a (uuid k)"
    and "\<forall>i < nat (man_Blocks m). 3 \<le> obtainable (node_holds nenv bad (np_client s2)) (block_of m (int i))"
    and "parse releaseTime = Some t" "\<forall>i. t \<le> no_clock out2 i" "no_write out2 = write_buf"
    and "tl_network L (relay (snd (no_draws out2))) DrandChainHash"
    and "os_create_err os2 (dir @ ''/'' @ base_name path) = None" "os_write_limit os2 (dir @ ''/'' @ base_name path) = None"
  shows "msg = no_id out @ [CHR 0x0A] \<and> (\<exists>s3. cli_get os2 (node_http env' L cluster_net (node_net nenv bad) out2 ''GET'' []) (no_id out) dir files s2
    = (Inr (Get_done (dir @ ''/'' @ base_name path)), files(dir @ ''/'' @ base_name path \<mapsto> content), s3))"
proof -
  note put = cli_put_accepted[OF assms(2,3)]
  let ?job = "\<lparr>pj_content = content, pj_name = base_name path, pj_release = releaseTime, pj_id = no_id out\<rparr>"
  have last: "last (np_puts s1) = ?job" by (simp add: put(2))
  have job: "c = job_call tf numCPU uuid reads ?job" by (simp add: assms(1) last)
  have up: "uploads env L cluster_net (node_net nenv bad) parse c w client oc"
    using assms(7,8) by (cases rule: put_worker.cases) (simp_all add: assms(1))
  have name: "utf8_ok (cl_name c)" "src_content (cl_file c) \<noteq> []" "cl_fileId c \<noteq> []"
    using assms(4-6) by (simp_all add: job job_call_def plain_name_def)
  let ?req = "\<lparr>req_Method = ''GET'', req_Path = ''/get'', req_Query = snd (node_url (NodeURL @ ''/get?id='' @ no_id out)), req_Body = []\<rparr> :: request"
  obtain client1 where "GetFile env' L cluster_net (node_net nenv bad) write_buf (no_clock out2) (fst (no_draws out2)) (snd (no_draws out2)) ?req (oc_servers oc) (np_client s2)
      = (Inr (respond (file_headers (cl_name c) (cl_fileId c)) (src_content (cl_file c)), Hash_ok), oc_servers oc, client1)"
    using uploaded_file_served[OF assms(10,11) name(2) up assms(8,9) name(1,3) assms(12-15,17) _ assms(19) _ assms(21,23), where req = ?req]
      assms(18,20) by (auto simp: job job_call_def)
  then have "GetFile env' L cluster_net (node_net nenv bad) (no_write out2) (no_clock out2) (fst (no_draws out2)) (snd (no_draws out2)) ?req (np_servers s2) (np_client s2)
      = (Inr (respond (file_headers (base_name path) (no_id out)) content, Hash_ok), oc_servers oc, client1)"
    by (simp add: assms(16,22) job job_call_def)
  from cli_get_served[OF this get_filename_plain[OF assms(5)] assms(24,25)] show ?thesis
    using put(1) by blast
qed

text \<open>The upload of \<open>Node_Api\<close>'s example, put from a command line: \<open>/data/name\<close> with four bytes.\<close>

definition ref_os :: cli_os where
  "ref_os = \<lparr>os_open = (\<lambda>p. if p = ''/data/name'' then Inr (''data'', None) else Inl ''no such file''),
     os_create_err = (\<lambda>_. None), os_write_limit = (\<lambda>_. None)\<rparr>"

definition ref_proc :: "'b \<Rightarrow> 'w client \<Rightarrow> ((bytes, bytes) RBT.rbt, 'b, 'w) node_proc" where
  "ref_proc b client = \<lparr>np_db = RBT.empty, np_client = client, np_servers = b, np_puts = [], np_deletions = []\<rparr>"

abbreviation "ref_at t \<equiv> ref_outside\<lparr>no_clock := \<lambda>_. t\<rparr>"

lemma ref_name: "base_name ''/data/name'' = ''name''" "base_name ''name'' = ''name''" "plain_name ''name''"
  by (code_simp, code_simp, simp add: plain_name_def runes_ascii rune_space_def in_range_def)

lemma ref_put_result:
  "\<exists>s1. cli_put ref_os (node_http env L net gnet ref_outside ''POST'') ''/data/name'' ''2030'' (ref_proc b client) = (Put_done (''f'' @ [CHR 0x0A]), s1)
    \<and> np_puts s1 = [\<lparr>pj_content = ''data'', pj_name = ''name'', pj_release = ''2030'', pj_id = ''f''\<rparr>]"
  by (simp add: cli_put_def put_form_def node_http_def node_mux_def PutFile_def form_of_def cli_view_def ref_os_def ref_outside_def
      ref_proc_def base_name_idem ref_name)

theorem cli_put_get_witness:
  "\<exists>s1 oc s3. cli_put ref_os (node_http ref_uploader ref_libs cluster_net ref_nodes_net ref_outside ''POST'') ''/data/name'' ''2030''
        (ref_proc ref_cluster (ref_client [])) = (Put_done (''f'' @ [CHR 0x0A]), s1)
    \<and> uploads ref_uploader ref_libs cluster_net ref_nodes_net ref_parse (ref_call ''data'') ref_cluster (ref_client []) oc
    \<and> cli_get ref_os (node_http (ref_env ''m'' [''b'']) ref_libs cluster_net ref_nodes_net (ref_at 60000000000) ''GET'' []) ''f'' ''out'' (\<lambda>_. None)
        (ref_proc (oc_servers oc) (oc_client oc)) = (Inr (Get_done ''out/name''), [''out/name'' \<mapsto> ''data''], s3)"
proof -
  obtain oc m where oc: "uploads ref_uploader ref_libs cluster_net ref_nodes_net ref_parse (ref_call ''data'') ref_cluster (ref_client []) oc"
    "oc_err oc = None" and m: "oc_manifest oc = Some m" "client_ok (\<lambda>_. False) (oc_client oc)"
    "\<forall>i < nat (man_Blocks m). 3 \<le> obtainable (node_holds ref_uploader (\<lambda>_. False) (oc_client oc)) (block_of m (int i))"
    by (rule ref_cluster_upload)
  obtain s1 where put: "cli_put ref_os (node_http ref_uploader ref_libs cluster_net ref_nodes_net ref_outside ''POST'') ''/data/name'' ''2030''
      (ref_proc ref_cluster (ref_client [])) = (Put_done (''f'' @ [CHR 0x0A]), s1)"
    and job: "np_puts s1 = [\<lparr>pj_content = ''data'', pj_name = ''name'', pj_release = ''2030'', pj_id = ''f''\<rparr>]"
    using ref_put_result[of ref_uploader ref_libs cluster_net ref_nodes_net ref_cluster "ref_client []"] by blast
  let ?uuid = "cl_uuid (ref_call ''data'')" and ?reads = "cl_reads (ref_call ''data'')"
  have c: "job_call (no_temp ref_outside) 4 ?uuid ?reads (last (np_puts s1)) = ref_call ''data''"
    by (simp add: job job_call_def ref_call_def ref_outside_def TargetChunkSize_def DataShards_def)
  have "tf_open_err (no_temp ref_outside) = None" by (simp add: ref_outside_def)
  moreover have "uploads ref_uploader ref_libs cluster_net ref_nodes_net ref_parse
      (job_call (no_temp ref_outside) 4 ?uuid ?reads (last (np_puts s1))) ref_cluster (ref_client []) oc"
    unfolding c by (rule oc(1))
  ultimately have worker: "put_worker ref_uploader ref_libs cluster_net ref_nodes_net ref_parse (no_temp ref_outside) 4 ?uuid ?reads (last (np_puts s1))
      ref_cluster (ref_client []) RBT.empty oc (saveStatus ref_uploader (pj_id (last (np_puts s1))) (final_status (oc_err oc)) RBT.empty)"
    by (rule put_worker.uploaded)
  note r = ref_cluster_reaches[of "''n''" 0, simplified] ref_cluster_reaches[of "''m''" 0, simplified]
  let ?s2 = "ref_proc (oc_servers oc) (oc_client oc)"
  have env: "os_open ref_os ''/data/name'' = Inr (''data'', None)" "plain_name (base_name ''/data/name'')"
    "no_id ref_outside = ''f''" "np_servers ?s2 = oc_servers oc" "np_client ?s2 = oc_client oc"
    "no_draws (ref_at 60000000000) = (0, 0)" "no_write (ref_at 60000000000) = write_buf"
    by (simp_all add: ref_os_def ref_name ref_outside_def ref_proc_def)
  have "''f'' @ [CHR 0x0A] = no_id ref_outside @ [CHR 0x0A] \<and> (\<exists>s3. cli_get ref_os
      (node_http (ref_env ''m'' [''b'']) ref_libs cluster_net ref_nodes_net (ref_at 60000000000) ''GET'' []) (no_id ref_outside) ''out'' (\<lambda>_. None) ?s2
      = (Inr (Get_done (''out'' @ ''/'' @ base_name ''/data/name'')), [''out'' @ ''/'' @ base_name ''/data/name'' \<mapsto> ''data''], s3))"
    by (rule cli_put_get[OF c[symmetric] put env(1) _ env(2) _ worker oc(2) m(1) ref_usable ref_read_data _ _ r(1), where t = 30000000000])
      (use env m r in \<open>simp_all add: ref_os_def ref_libs_def ref_crypto_def ref_outside_def\<close>)
  then have "\<exists>s3. cli_get ref_os (node_http (ref_env ''m'' [''b'']) ref_libs cluster_net ref_nodes_net (ref_at 60000000000) ''GET'' []) ''f'' ''out'' (\<lambda>_. None)
        ?s2 = (Inr (Get_done ''out/name''), [''out/name'' \<mapsto> ''data''], s3)"
    unfolding env(3) ref_name(1) by simp
  then show ?thesis using put oc(1) by blast
qed

text \<open>
  C32: a download that fails on the way looks like a success to the user. When block \<open>k\<close> is the
  first of a file that is not ready, because too few chunks are left or the release time has not come, \<open>get\<close> saves
  the blocks before it under the name of the file and reports that the file was reconstructed.
\<close>

theorem cli_saves_truncated:
  assumes "badger_ok (env_bg nenv)" "file_lib_ok L" "client_ok bad (np_client s)"
    and "tl_network L (relay (snd (no_draws out))) DrandChainHash" "no_write out = write_buf"
    and "GetFileManifestFromServer env net (fst (no_draws out)) fileId (np_servers s) = (Inr (Some m), w1)" "fileId \<noteq> []"
    and "sealed_file L (env_C env) (node_holds nenv bad (np_client s)) round m plains" "plain_name (man_FileName m)"
    and "k = length (takeWhile (ready L (node_holds nenv bad (np_client s)) round (no_clock out) m) [0..<length plains])" "k < length plains"
    and "os_create_err os (dir @ ''/'' @ man_FileName m) = None" "os_write_limit os (dir @ ''/'' @ man_FileName m) = None"
  shows "\<exists>s1. cli_get os (node_http env L net (node_net nenv bad) out ''GET'' []) fileId dir files s
    = (Inr (Get_done (dir @ ''/'' @ man_FileName m)), files(dir @ ''/'' @ man_FileName m \<mapsto> concat (take k plains)), s1)"
proof -
  let ?req = "\<lparr>req_Method = ''GET'', req_Path = ''/get'', req_Query = snd (node_url (NodeURL @ ''/get?id='' @ fileId)), req_Body = []\<rparr> :: request"
  have req: "req_Method ?req = ''GET''" "req_Query ?req ''id'' = fileId" by simp_all
  obtain client1 where "GetFile env L net (node_net nenv bad) write_buf (no_clock out) (fst (no_draws out)) (snd (no_draws out)) ?req (np_servers s) (np_client s)
    = (Inr (respond (file_headers (man_FileName m) fileId) (concat (take k plains)),
         Aborted (stopped_by (node_holds nenv bad (np_client s)) m k)), w1, client1)"
    using failed_download_served[OF assms(1-4,6,7) req assms(8,10,11)] by blast
  from cli_get_served[OF this[folded assms(5)] get_filename_plain[OF assms(9)] assms(12,13)] show ?thesis by blast
qed

text \<open>The release time of the example has not come.\<close>

lemma ref_env_ok: "badger_ok (env_bg (ref_env host servers))" "env_C (ref_env host servers) = ref_crypto"
  by (simp_all add: reliable_ok mem_reliable)

theorem cli_saves_truncated_witness:
  "\<exists>s1. cli_get ref_os (node_http (ref_env ''n'' [''b'']) ref_libs (ref_manifest_http ''name'') ref_net (ref_at 0) ''GET'' []) ''f'' ''out'' (\<lambda>_. None)
      (ref_proc () ref_file_client) = (Inr (Get_done ''out/name''), [''out/name'' \<mapsto> []], s1)"
proof -
  let ?s = "ref_proc () ref_file_client"
  have facts: "utf8_ok ''name''" "man_FileName (ref_named ''name'') = ''name''" "np_client ?s = ref_file_client" "np_servers ?s = ()"
    "no_draws (ref_at 0) = (0, 0)" "no_write (ref_at 0) = write_buf" "no_clock (ref_at 0) = (\<lambda>_. 0)"
    by (simp_all add: ref_named_def ref_proc_def ref_outside_def)
  have got: "GetFileManifestFromServer (ref_env ''n'' [''b'']) (ref_manifest_http ''name'') (fst (no_draws (ref_at 0))) ''f'' (np_servers ?s)
      = (Inr (Some (ref_named ''name'')), ())"
    using ref_named_got[OF facts(1)] by (simp add: facts)
  have sealed: "sealed_file ref_libs (env_C (ref_env ''n'' [''b''])) (ref_holds (np_client ?s)) 1 (ref_named ''name'') [''data'']"
    "0 = length (takeWhile (ready ref_libs (ref_holds (np_client ?s)) 1 (no_clock (ref_at 0)) (ref_named ''name'')) [0..<length [''data'']])"
    using ref_named_file(1,2)[of "''name''"] unfolding facts ref_env_ok by simp_all
  have "\<exists>s1. cli_get ref_os (node_http (ref_env ''n'' [''b'']) ref_libs (ref_manifest_http ''name'') ref_net (ref_at 0) ''GET'' []) ''f'' ''out'' (\<lambda>_. None) ?s
      = (Inr (Get_done (''out'' @ ''/'' @ man_FileName (ref_named ''name''))),
         [''out'' @ ''/'' @ man_FileName (ref_named ''name'') \<mapsto> concat (take 0 [''data''])], s1)"
    by (rule cli_saves_truncated[OF ref_env_ok(1) ref_libs.file_lib_ok_axioms _ _ _ got _ sealed(1) _ sealed(2)])
      (use ref_name facts in \<open>simp_all add: ref_client_def ref_libs_def ref_os_def\<close>)
  then show ?thesis unfolding facts(2) by simp
qed

text \<open>
  C33: a name with a space is not found in the header. \<open>get\<close> saves the file under the part of the name
  before the first space without its last character: \<open>report.pdf\<close> keeps its name, but \<open>my report.pdf\<close> is saved as \<open>m\<close>.
\<close>

theorem name_cut_at_space:
  assumes "plain_name a" "a \<noteq> []"
    and "GetFile env L net gnet (no_write out) (no_clock out) (fst (no_draws out)) (snd (no_draws out))
      \<lparr>req_Method = ''GET'', req_Path = ''/get'', req_Query = snd (node_url (NodeURL @ ''/get?id='' @ fileId)), req_Body = []\<rparr>
      (np_servers s) (np_client s) = (Inr (respond (file_headers (a @ '' '' @ b) fileId) content, v), w1, client1)"
    and "os_create_err os (dir @ ''/'' @ butlast a) = None" "os_write_limit os (dir @ ''/'' @ butlast a) = None"
  shows "\<exists>s1. cli_get os (node_http env L net gnet out ''GET'' []) fileId dir files s
    = (Inr (Get_done (dir @ ''/'' @ butlast a)), files(dir @ ''/'' @ butlast a \<mapsto> content), s1)"
  using cli_get_served[OF assms(3) get_filename_cut[OF assms(1,2)] assms(4,5)] by blast

theorem name_cut_at_space_witness:
  "\<exists>s1. cli_get ref_os (node_http (ref_env ''n'' [''b'']) ref_libs (ref_manifest_http ''my report.pdf'') ref_net (ref_at 0) ''GET'' []) ''f'' ''out'' (\<lambda>_. None)
      (ref_proc () ref_file_client) = (Inr (Get_done ''out/m''), [''out/m'' \<mapsto> []], s1)"
proof -
  let ?s = "ref_proc () ref_file_client" and ?m = "ref_named ''my report.pdf''" and ?out = "ref_at 0"
  let ?req = "\<lparr>req_Method = ''GET'', req_Path = ''/get'', req_Query = snd (node_url (NodeURL @ ''/get?id='' @ ''f'')), req_Body = []\<rparr> :: request"
  have facts: "utf8_ok ''my report.pdf''" "man_FileName ?m = ''my report.pdf''" "np_client ?s = ref_file_client" "np_servers ?s = ()"
    "no_draws ?out = (0, 0)" "no_write ?out = write_buf" "no_clock ?out = (\<lambda>_. 0)"
    by (simp_all add: ref_named_def ref_proc_def ref_outside_def)
  have tl: "tl_network ref_libs (relay 0) DrandChainHash" "client_ok (\<lambda>_. False) ref_file_client"
    by (simp_all add: ref_libs_def ref_client_def)
  have req: "req_Method ?req = ''GET''" "req_Query ?req ''id'' = ''f''" by simp_all
  obtain client1 where "GetFile (ref_env ''n'' [''b'']) ref_libs (ref_manifest_http ''my report.pdf'') ref_net write_buf (\<lambda>_. 0) 0 0 ?req () ref_file_client
      = (Inr (respond (file_headers (man_FileName ?m) ''f'') (concat (take 0 [''data''])), Aborted (stopped_by (ref_holds ref_file_client) ?m 0)), (), client1)"
    using failed_download_served[OF ref_env_ok(1) ref_libs.file_lib_ok_axioms tl(2,1) ref_named_got[OF facts(1)] _ req _ ref_named_file(2)]
      ref_named_file(1) by auto
  then have get: "GetFile (ref_env ''n'' [''b'']) ref_libs (ref_manifest_http ''my report.pdf'') ref_net (no_write ?out) (no_clock ?out)
        (fst (no_draws ?out)) (snd (no_draws ?out)) ?req (np_servers ?s) (np_client ?s)
      = (Inr (respond (file_headers (''my'' @ '' '' @ ''report.pdf'') ''f'') [], Aborted (stopped_by (ref_holds ref_file_client) ?m 0)), (), client1)"
    by (simp add: facts)
  have "plain_name ''my''" by (simp add: plain_name_def runes_ascii rune_space_def in_range_def)
  from name_cut_at_space[OF this _ get, of ref_os "''out''" "\<lambda>_. None"] show ?thesis by (simp add: ref_os_def)
qed

end
