(* ===== verification/Bootstrap_Process.thy ===== *)
theory Bootstrap_Process
  imports Cluster Clean_Database
begin

text \<open>
  The process of a bootstrap server, the \<open>main\<close> function of \<open>cmd/k-bootstrap/main.go\<close>: its routes, the
  goroutines that align pushed data, and its three background workers, as steps on one state. The
  clock is part of the state, because the registry and the collectors compare times.
\<close>

subsection \<open>Steps\<close>

record 'db boot_proc =
  bp_now :: int
  bp_db :: 'db
  bp_tasks :: "task list"

text \<open>
  Time passes, a request is served, a pending alignment runs, a round of synchronisation with the
  peers in a given state, a pass of one of the two collectors, and a restart, which keeps the store only.
\<close>

datatype 'w boot_event =
    Passed nat | Asked outside request | Aligned nat | Synced nat 'w | Swept | Cleaned | Rebooted

fun boot_do ::
  "'db env \<Rightarrow> 'w net \<Rightarrow> (bytes \<Rightarrow> int option) \<Rightarrow> 'w boot_event \<Rightarrow> 'db boot_proc \<Rightarrow> 'db boot_proc" where
  "boot_do env net parse (Passed n) s = s\<lparr>bp_now := bp_now s + int n\<rparr>"
| "boot_do env net parse (Asked out req) s =
     (case bootstrap_mux env (out\<lparr>out_now := bp_now s\<rparr>) req (bp_db s) of
        (_, db1, ts) \<Rightarrow> s\<lparr>bp_db := db1, bp_tasks := bp_tasks s @ ts\<rparr>)"
| "boot_do env net parse (Aligned i) s =
     (if i < length (bp_tasks s)
      then s\<lparr>bp_db := run_task env (bp_tasks s ! i) (bp_db s), bp_tasks := take i (bp_tasks s) @ drop (Suc i) (bp_tasks s)\<rparr>
      else s)"
| "boot_do env net parse (Synced r w) s = s\<lparr>bp_db := fst (performSync env net r (bp_db s) w)\<rparr>"
| "boot_do env net parse Swept s = s\<lparr>bp_db := snd (clean_inactive_pass env (bp_now s) (bp_db s))\<rparr>"
| "boot_do env net parse Cleaned s = s\<lparr>bp_db := snd (clean_bootstrap_pass env parse (bp_now s) (bp_db s))\<rparr>"
| "boot_do env net parse Rebooted s = s\<lparr>bp_tasks := []\<rparr>"

fun boot_run ::
  "'db env \<Rightarrow> 'w net \<Rightarrow> (bytes \<Rightarrow> int option) \<Rightarrow> 'w boot_event list \<Rightarrow> 'db boot_proc \<Rightarrow> 'db boot_proc" where
  "boot_run env net parse [] s = s"
| "boot_run env net parse (e # es) s = boot_run env net parse es (boot_do env net parse e s)"

definition boot_start :: "int \<Rightarrow> 'db \<Rightarrow> 'db boot_proc" where
  "boot_start now db = \<lparr>bp_now = now, bp_db = db, bp_tasks = []\<rparr>"

lemma boot_run_append: "boot_run env net parse (xs @ ys) s = boot_run env net parse ys (boot_run env net parse xs s)"
  by (induction xs arbitrary: s) simp_all

lemma boot_do_now: "bp_now s \<le> bp_now (boot_do env net parse e s)"
  by (cases e) (auto split: prod.split)

lemma boot_run_now: "bp_now s \<le> bp_now (boot_run env net parse es s)"
proof (induction es arbitrary: s)
  case (Cons e es)
  then show ?case using boot_do_now[of s env net parse e] by (metis boot_run.simps(2) order_trans)
qed simp

subsection \<open>What comes from peers\<close>

text \<open>The maps of a payload, as a list of alignments: of a pushed one, and of an answer to a digest.\<close>

definition push_payload :: "request \<Rightarrow> SyncPayload" where
  "push_payload req = body_of dec_SyncPayload zero_SyncPayload req"

definition sync_payload :: "bytes \<Rightarrow> SyncPayload" where
  "sync_payload body = fst (decode_stream dec_SyncPayload zero_SyncPayload body)"

text \<open>
  \<open>P\<close> holds of the nodes and manifests in everything that is aligned in a step: the bodies of
  validly signed pushes, the answers of the peers.
\<close>

definition peers_send ::
  "((bytes \<times> char slice) list \<Rightarrow> (bytes \<times> char slice) list \<Rightarrow> bool) \<Rightarrow> 'db env \<Rightarrow> 'w net \<Rightarrow> 'w boot_event \<Rightarrow> bool" where
  "peers_send P env net e \<longleftrightarrow> (case e of
     Asked out req \<Rightarrow> req_Path req = ''/sync/push'' \<and> authorised env req
       \<longrightarrow> P (elems (pay_ActiveNodes (push_payload req))) (elems (pay_FileManifests (push_payload req)))
   | Synced r w \<Rightarrow> \<forall>url body status answer w1. net_post net w url body = (Inr (status, answer), w1)
       \<longrightarrow> P (elems (pay_ActiveNodes (sync_payload answer))) (elems (pay_FileManifests (sync_payload answer)))
   | _ \<Rightarrow> True)"

definition task_ok :: "((bytes \<times> char slice) list \<Rightarrow> (bytes \<times> char slice) list \<Rightarrow> bool) \<Rightarrow> task \<Rightarrow> bool" where
  "task_ok P t = (case t of Align nodes manifests \<Rightarrow> P nodes manifests)"

lemma performSync_effect:
  assumes "peers_send P env net (Synced r w)"
  obtains (same) "fst (performSync env net r db w) = db"
  | (aligned) nodes manifests where "P nodes manifests"
      "fst (performSync env net r db w) = snd (ProcessAlignment (env_bg env) nodes manifests db)"
proof -
  let ?digest = "sync_digest env db" and ?server = "cfg_BootStrapServers (env_cfg env) ! (r mod length (cfg_BootStrapServers (env_cfg env)))"
  show thesis
  proof (cases "sign env (marshal enc_SyncDigest ?digest)")
    case (Inl e)
    then have "fst (performSync env net r db w) = db" by (simp add: performSync_def Let_def)
    then show thesis by (rule same)
  next
    case (Inr sg)
    obtain a w1 where a: "net_post net w (http_url ?server ''/sync/digest'')
        (marshal enc_SyncDigest (?digest\<lparr>dig_Signature := Some sg\<rparr>)) = (a, w1)" by fastforce
    show thesis
    proof (cases a)
      case (Inl e)
      then have "fst (performSync env net r db w) = db" using a Inr by (simp add: performSync_def Let_def)
      then show thesis by (rule same)
    next
      case (Inr sb)
      obtain st body where b: "sb = (st, body)" by fastforce
      obtain p ok where d: "decode_stream dec_SyncPayload zero_SyncPayload body = (p, ok)" by fastforce
      have "P (elems (pay_ActiveNodes p)) (elems (pay_FileManifests p))"
        using assms a Inr b d by (simp add: peers_send_def sync_payload_def) (metis fst_conv)
      moreover have "fst (performSync env net r db w) = db \<or> fst (performSync env net r db w)
          = snd (ProcessAlignment (env_bg env) (elems (pay_ActiveNodes p)) (elems (pay_FileManifests p)) db)"
        using a Inr b d \<open>sign env (marshal enc_SyncDigest ?digest) = Inr sg\<close>
        by (cases ok) (simp_all add: performSync_def Let_def)
      ultimately show thesis using same aligned by blast
    qed
  qed
qed

text \<open>Tasks come from pushes only.\<close>

lemma mux_tasks:
  "snd (snd (bootstrap_mux env out req db)) = []
   \<or> req_Path req = ''/sync/push'' \<and> authorised env req \<and> snd (snd (bootstrap_mux env out req db))
      = [Align (elems (pay_ActiveNodes (push_payload req))) (elems (pay_FileManifests (push_payload req)))]"
  by (auto simp: bootstrap_mux_def SyncPushHandler_def push_payload_def authorised_def auth_push_def Let_def case_prod_beta)

lemma boot_do_tasks:
  assumes "list_all (task_ok P) (bp_tasks s)" "peers_send P env net e"
  shows "list_all (task_ok P) (bp_tasks (boot_do env net parse e s))"
proof (cases e)
  case (Asked out req)
  then show ?thesis
    using assms mux_tasks[of env "out\<lparr>out_now := bp_now s\<rparr>" req "bp_db s"]
    by (auto simp: case_prod_beta peers_send_def task_ok_def)
next
  case (Aligned i)
  then show ?thesis using assms(1) by (auto simp: list_all_iff dest: in_set_takeD in_set_dropD)
qed (use assms(1) in simp_all)

text \<open>The store after a step.\<close>

lemma boot_do_store:
  assumes "list_all (task_ok P) (bp_tasks s)" "peers_send P env net e"
  obtains (same) "\<And>out req. e \<noteq> Asked out req" "bp_db (boot_do env net parse e s) = bp_db s"
  | (asked) out req where "e = Asked out req" "bp_db (boot_do env net parse e s) = fst (snd (bootstrap_mux env (out\<lparr>out_now := bp_now s\<rparr>) req (bp_db s)))"
  | (aligned) nodes manifests where "\<And>out req. e \<noteq> Asked out req" "P nodes manifests"
      "bp_db (boot_do env net parse e s) = snd (ProcessAlignment (env_bg env) nodes manifests (bp_db s))"
  | (swept) "e = Swept" "bp_db (boot_do env net parse e s) = snd (clean_inactive_pass env (bp_now s) (bp_db s))"
  | (cleaned) "e = Cleaned" "bp_db (boot_do env net parse e s) = snd (clean_bootstrap_pass env parse (bp_now s) (bp_db s))"
proof (cases e)
  case (Asked out req)
  then show thesis using asked[of out req] by (simp add: case_prod_beta)
next
  case (Aligned i)
  show thesis
  proof (cases "i < length (bp_tasks s)")
    case True
    obtain nodes manifests where t: "bp_tasks s ! i = Align nodes manifests" by (cases "bp_tasks s ! i")
    then have "P nodes manifests" using assms(1) True by (auto simp: list_all_length task_ok_def)
    then show thesis using aligned[of nodes manifests] t True Aligned by simp
  next
    case False
    then show thesis using same Aligned by simp
  qed
next
  case (Synced r w)
  then show thesis
    using assms(2) same aligned performSync_effect[of P env net r w "bp_db s" thesis] by simp
qed (use same swept cleaned in simp_all)

subsection \<open>Manifests\<close>

text \<open>Every manifest under its own file id: in a store, and in what a peer sends.\<close>

definition filed :: "'db env \<Rightarrow> 'db \<Rightarrow> bool" where
  "filed env db \<longleftrightarrow> (\<forall>k v m. view (env_bg env) db ns_manifests k = Some (Inr v)
     \<longrightarrow> decode_stream dec_FileManifest zero_FileManifest v = (m, True) \<longrightarrow> man_FileId m = k)"

definition sent_filed :: "(bytes \<times> char slice) list \<Rightarrow> (bytes \<times> char slice) list \<Rightarrow> bool" where
  "sent_filed nodes manifests \<longleftrightarrow> (\<forall>(k, x) \<in> set manifests. \<forall>m.
     decode_stream dec_FileManifest zero_FileManifest (elems x) = (m, True) \<longrightarrow> man_FileId m = k)"

lemma align_manifests_origin:
  assumes "badger_reliable bg"
  shows "view bg (snd (align_manifests bg es db)) ns_manifests k = view bg db ns_manifests k
    \<or> (\<exists>x. (k, x) \<in> set es \<and> view bg (snd (align_manifests bg es db)) ns_manifests k = Some (Inr (elems x)))"
proof (induction es arbitrary: db)
  case (Cons e es)
  obtain l x where e: "e = (l, x)" by (cases e)
  show ?case
    using Cons[of db] Cons[of "snd (PutData bg db ns_manifests l (elems x))"]
    by (auto simp: e align_manifests_Cons reliable_put[OF assms] split: if_splits)
qed simp

lemma alignment_manifests:
  assumes "badger_reliable bg"
  shows "view bg (snd (ProcessAlignment bg nodes manifests db)) ns_manifests k = view bg db ns_manifests k
    \<or> (\<exists>x. (k, x) \<in> set manifests \<and> view bg (snd (ProcessAlignment bg nodes manifests db)) ns_manifests k = Some (Inr (elems x)))"
    "view bg db ns_manifests k = Some r \<Longrightarrow> view bg (snd (ProcessAlignment bg nodes manifests db)) ns_manifests k = Some r"
proof -
  have n: "view bg (snd (align_nodes bg nodes db)) ns_manifests k = view bg db ns_manifests k"
    using badger_ok.align_nodes_other[OF reliable_ok[OF assms], of ns_manifests k nodes db] by simp
  show "view bg (snd (ProcessAlignment bg nodes manifests db)) ns_manifests k = view bg db ns_manifests k
    \<or> (\<exists>x. (k, x) \<in> set manifests \<and> view bg (snd (ProcessAlignment bg nodes manifests db)) ns_manifests k = Some (Inr (elems x)))"
    using align_manifests_origin[OF assms, of manifests "snd (align_nodes bg nodes db)" k] by (simp add: ProcessAlignment_snd n)
  show "view bg (snd (ProcessAlignment bg nodes manifests db)) ns_manifests k = Some r" if "view bg db ns_manifests k = Some r"
    using badger_ok.align_manifests_keeps[OF reliable_ok[OF assms]] that by (simp add: ProcessAlignment_snd n)
qed

text \<open>A request stores manifests under their ids.\<close>

lemma mux_manifests:
  assumes "badger_reliable (env_bg env)"
  shows "view (env_bg env) (fst (snd (bootstrap_mux env out req db))) ns_manifests k \<in> {None, view (env_bg env) db ns_manifests k}
    \<or> (\<exists>m. ok_FileManifest m \<and> man_FileId m = k
        \<and> view (env_bg env) (fst (snd (bootstrap_mux env out req db))) ns_manifests k = Some (Inr (marshal enc_FileManifest m)))"
proof -
  let ?x = "body_of dec_FileManifestRequest zero_FileManifestRequest req"
  have "ok_FileManifestRequest ?x" using fmr.stream_ok by (simp add: body_of_def)
  then have ok: "ok_FileManifest (fmr_Manifest ?x)" by (simp add: ok_FileManifestRequest_def)
  have ins: "view (env_bg env) (snd (InsertFileManifest env req db)) ns_manifests k = view (env_bg env) db ns_manifests k
      \<or> man_FileId (fmr_Manifest ?x) = k
        \<and> view (env_bg env) (snd (InsertFileManifest env req db)) ns_manifests k = Some (Inr (marshal enc_FileManifest (fmr_Manifest ?x)))"
    by (simp add: InsertFileManifest_def Let_def reliable_put[OF assms])
  have "view (env_bg env) (snd (SubsribeNode env now req db)) ns_manifests k = view (env_bg env) db ns_manifests k" for now
    using badger_ok.view_put_other[OF reliable_ok[OF assms], of ns_active_nodes ns_manifests] by (simp add: SubsribeNode_def Let_def)
  moreover have "view (env_bg env) (snd (DeleteFileManifest env req db)) ns_manifests k \<in> {None, view (env_bg env) db ns_manifests k}"
    by (simp add: DeleteFileManifest_def Let_def reliable_del[OF assms])
  ultimately show ?thesis using ins ok by (auto simp: mux_store)
qed

lemma boot_do_filed:
  assumes "badger_reliable (env_bg env)" "list_all (task_ok sent_filed) (bp_tasks s)" "peers_send sent_filed env net e"
    and "filed env (bp_db s)"
  shows "filed env (bp_db (boot_do env net parse e s))"
proof -
  let ?db = "bp_db (boot_do env net parse e s)"
  have step: "view (env_bg env) ?db ns_manifests k \<in> {None, view (env_bg env) (bp_db s) ns_manifests k}
      \<or> (\<exists>v. view (env_bg env) ?db ns_manifests k = Some (Inr v)
          \<and> (\<forall>m. decode_stream dec_FileManifest zero_FileManifest v = (m, True) \<longrightarrow> man_FileId m = k))" for k
    using assms(2,3)
  proof (cases rule: boot_do_store[of sent_filed s env net e parse])
    case (asked out req)
    then show ?thesis
      using mux_manifests[OF assms(1), of "out\<lparr>out_now := bp_now s\<rparr>" req "bp_db s" k] by (auto simp: man.stream_marshal_end)
  next
    case (aligned nodes manifests)
    then show ?thesis
      using alignment_manifests(1)[OF assms(1), of nodes manifests "bp_db s" k] by (fastforce simp: sent_filed_def)
  next
    case swept
    then show ?thesis using clean_inactive_view(2)[OF assms(1), of ns_manifests] by simp
  next
    case cleaned
    then show ?thesis using clean_bootstrap_view(1)[OF assms(1), where k = k] by simp
  qed simp
  show ?thesis
    unfolding filed_def using assms(4) step unfolding filed_def by (metis insertE option.distinct(1) option.inject sum.inject(2) singletonD)
qed

text \<open>A stored manifest and a step: no authorised request about it, and not yet past its retention.\<close>

lemma boot_do_manifest:
  assumes "badger_reliable (env_bg env)" "list_all (task_ok sent_filed) (bp_tasks s)" "peers_send sent_filed env net e"
    and "filed env (bp_db s)" "view (env_bg env) (bp_db s) ns_manifests fileId = Some (Inr v)"
    and "\<And>out req. e = Asked out req \<Longrightarrow> \<not> (authorised env req \<and> (ns_manifests, fileId) \<in> touched req)"
    and "\<not> past_retention parse (bp_now s) (man_ReleaseDate (fst (decode_stream dec_FileManifest zero_FileManifest v)))"
  shows "view (env_bg env) (bp_db (boot_do env net parse e s)) ns_manifests fileId = Some (Inr v)"
  using assms(2,3)
proof (cases rule: boot_do_store[of sent_filed s env net e parse])
  case (asked out req)
  show ?thesis
  proof (cases "authorised env req")
    case True
    then show ?thesis
      using mux_frame_lemma[OF reliable_ok[OF assms(1)], of ns_manifests fileId req] assms(5,6) asked by simp
  next
    case False
    then show ?thesis using unauthorised_same[OF False, of "out\<lparr>out_now := bp_now s\<rparr>" "bp_db s"] asked(2) assms(5) by simp
  qed
next
  case (aligned nodes manifests)
  then show ?thesis using alignment_manifests(2)[OF assms(1,5)] by simp
next
  case swept
  then show ?thesis using clean_inactive_view(2)[OF assms(1), of ns_manifests] assms(5) by simp
next
  case cleaned
  have "k = fileId" if "view (env_bg env) (bp_db s) ns_manifests k = Some (Inr x)"
      "decode_stream dec_FileManifest zero_FileManifest x = (m, True)" "man_FileId m = fileId" for k x m
    using assms(4) that unfolding filed_def by blast
  then have "\<not> (\<exists>k x m. view (env_bg env) (bp_db s) ns_manifests k = Some (Inr x)
      \<and> decode_stream dec_FileManifest zero_FileManifest x = (m, True) \<and> man_FileId m = fileId
      \<and> past_retention parse (bp_now s) (man_ReleaseDate m))"
    using assms(5,7) by (metis fst_conv option.inject sum.inject(2))
  then show ?thesis
    using clean_bootstrap_view(1)[OF assms(1), where k = fileId and db = "bp_db s" and now = "bp_now s" and parse = parse] assms(5) cleaned by simp
qed (simp add: assms(5))

lemma past_retention_mono: "past_retention parse t d \<Longrightarrow> t \<le> u \<Longrightarrow> past_retention parse u d"
  by (simp add: past_retention_def split: option.splits)

subsection \<open>A manifest is kept\<close>

lemma boot_run_manifest:
  assumes "badger_reliable (env_bg env)" "list_all (peers_send sent_filed env net) es"
    and "\<And>out req. Asked out req \<in> set es \<Longrightarrow> \<not> (authorised env req \<and> (ns_manifests, fileId) \<in> touched req)"
    and "list_all (task_ok sent_filed) (bp_tasks s)" "filed env (bp_db s)"
    and "view (env_bg env) (bp_db s) ns_manifests fileId = Some (Inr v)"
    and "\<not> past_retention parse (bp_now (boot_run env net parse es s)) (man_ReleaseDate (fst (decode_stream dec_FileManifest zero_FileManifest v)))"
  shows "view (env_bg env) (bp_db (boot_run env net parse es s)) ns_manifests fileId = Some (Inr v)
    \<and> filed env (bp_db (boot_run env net parse es s))"
  using assms(2-)
proof (induction es arbitrary: s)
  case (Cons e es)
  let ?s = "boot_do env net parse e s"
  have peers: "peers_send sent_filed env net e" "list_all (peers_send sent_filed env net) es" using Cons.prems(1) by simp_all
  have "bp_now s \<le> bp_now (boot_run env net parse es ?s)"
    using boot_do_now[of s env net parse e] boot_run_now[of ?s env net parse es] by linarith
  then have "\<not> past_retention parse (bp_now s) (man_ReleaseDate (fst (decode_stream dec_FileManifest zero_FileManifest v)))"
    using Cons.prems(6) past_retention_mono by auto
  then have v: "view (env_bg env) (bp_db ?s) ns_manifests fileId = Some (Inr v)"
    by (intro boot_do_manifest[OF assms(1) Cons.prems(3) peers(1) Cons.prems(4,5)]) (use Cons.prems(2) in auto)
  show ?case
    using Cons.IH[OF peers(2) _ boot_do_tasks[OF Cons.prems(3) peers(1)] boot_do_filed[OF assms(1) Cons.prems(3) peers(1) Cons.prems(4)] v]
      Cons.prems(2,6) by auto
qed simp

text \<open>
  C10: a bootstrap server keeps a manifest, as long as manifests are filed under their own ids. In
  every run of its process, with requests from anybody, alignments with peers, passes of both
  collectors and restarts, a stored manifest is what \<open>DownloadFileManifest\<close> reads for its id up to
  seven days after its release date, provided that no authorised request inserts or deletes this
  very id, that every manifest stored at the start has the file id it is stored under (\<open>filed\<close>), and
  that so has every manifest in a validly signed push and in an answer to a synchronisation
  (\<open>sent_filed\<close>). The last is needed: \<open>pushed_manifest_deletes_another\<close>.
\<close>

theorem manifest_kept:
  assumes "badger_reliable (env_bg env)" "filed env db" "view (env_bg env) db ns_manifests fileId = Some (Inr v)"
    and "decode_stream dec_FileManifest zero_FileManifest v = (m, True)"
    and "\<forall>e \<in> set es. peers_send sent_filed env net e"
    and "\<forall>out req. Asked out req \<in> set es \<longrightarrow> \<not> (authorised env req \<and> (ns_manifests, fileId) \<in> touched req)"
    and "case parse (man_ReleaseDate m) of None \<Rightarrow> True
      | Some t \<Rightarrow> bp_now (boot_run env net parse es (boot_start now db)) \<le> t + 7 * 24 * 3600 * 1000000000"
  shows "GetData (env_bg env) (bp_db (boot_run env net parse es (boot_start now db))) ns_manifests fileId = Inr v"
proof -
  let ?s = "boot_run env net parse es (boot_start now db)"
  have late: "\<not> past_retention parse (bp_now ?s) (man_ReleaseDate (fst (decode_stream dec_FileManifest zero_FileManifest v)))"
    using assms(4,7) by (simp add: past_retention_def retention_def second_def split: option.splits)
  have "view (env_bg env) (bp_db ?s) ns_manifests fileId = Some (Inr v)"
    using boot_run_manifest[OF assms(1) _ _ _ _ _ late, of fileId] assms(2,3,5,6) by (auto simp: boot_start_def list_all_iff)
  then show ?thesis
    using badger_ok.view_get[OF reliable_ok[OF assms(1)]] by simp
qed

theorem manifest_kept_witness:
  "GetData mem_badger (bp_db (boot_run (ref_env ''b'' []) ref_down (\<lambda>_. Some 0)
      [Asked ref_out (http_request ''DELETE'' ''/manifests'' []), Passed 604800000000000, Cleaned, Swept, Rebooted]
      (boot_start 0 (ref_store ns_manifests [] (marshal enc_FileManifest zero_FileManifest))))) ns_manifests []
    = Inr (marshal enc_FileManifest zero_FileManifest)"
proof -
  let ?v = "marshal enc_FileManifest zero_FileManifest" and ?e = "ref_env ''b'' []"
  let ?db = "ref_store ns_manifests [] ?v"
  let ?es = "[Asked ref_out (http_request ''DELETE'' ''/manifests'' []), Passed 604800000000000, Cleaned, Swept, Rebooted]"
  have d: "decode_stream dec_FileManifest zero_FileManifest ?v = (zero_FileManifest, True)"
    by (rule man.stream_marshal_end) (rule man.zero_ok)
  have f: "filed ?e ?db"
    using d by (auto simp: filed_def ref_store_view zero_FileManifest_def split: if_splits)
  have v: "view (env_bg ?e) ?db ns_manifests [] = Some (Inr ?v)" by (simp add: ref_store_view)
  have "\<not> authorised ?e (http_request ''DELETE'' ''/manifests'' [])"
    by (simp add: authorised_def auth_file_def body_of_def decode_stream_empty zero_GetFileManifestRequest_def
        check_def check_signature_def VerifySignature_def ref_crypto_def)
  then have "bp_now (boot_run ?e ref_down (\<lambda>_. Some 0) ?es (boot_start 0 ?db)) = 604800000000000"
    by (simp add: boot_start_def unauthorised_same)
  then show ?thesis
    using manifest_kept[OF _ f v d, of ?es ref_down "\<lambda>_. Some 0" 0] \<open>\<not> authorised ?e _\<close>
    by (simp add: mem_reliable peers_send_def)
qed

subsection \<open>A manifest is deleted\<close>

lemma DownloadFileManifest_gone:
  assumes "badger_ok (env_bg env)" "view (env_bg env) db ns_manifests fileId = None" "auth_file env req"
    and "gfm_FileId (body_of dec_GetFileManifestRequest zero_GetFileManifestRequest req) = fileId"
  shows "DownloadFileManifest env req db = respond [] []"
  using assms by (auto simp: DownloadFileManifest_def auth_file_def Let_def badger_ok.view_get[OF assms(1)]
      split: sum.split option.splits)

text \<open>
  C30: anybody can delete a manifest. A push that is signed with any key pair files, under a key nobody uses, a
  manifest with the file id of another and a release date more than seven days back. Once it is
  aligned, the next pass of \<open>CleanBootstrapDatabase\<close> deletes by the file id in the body: the
  manifest stored under that id, whatever its own release date, is gone, and every valid request for
  it is answered with an empty body.
\<close>

theorem pushed_manifest_deletes_another:
  assumes "badger_reliable (env_bg env)" "view (env_bg env) (bp_db s) ns_manifests fileId = Some (Inr v)"
    and "req_Path req = ''/sync/push''" "authorised env req"
    and "(k, x) \<in> set (elems (pay_FileManifests (push_payload req)))" "view (env_bg env) (bp_db s) ns_manifests k = None"
    and "decode_stream dec_FileManifest zero_FileManifest (elems x) = (m, True)" "man_FileId m = fileId"
    and "parse (man_ReleaseDate m) = Some t" "t + 7 * 24 * 3600 * 1000000000 < bp_now s"
    and "db = bp_db (boot_run env net parse [Asked out req, Aligned (length (bp_tasks s)), Cleaned] s)"
  shows "view (env_bg env) db ns_manifests fileId = None
    \<and> (auth_file env ask \<and> gfm_FileId (body_of dec_GetFileManifestRequest zero_GetFileManifestRequest ask) = fileId
        \<longrightarrow> DownloadFileManifest env ask db = respond [] [])"
proof -
  let ?nodes = "elems (pay_ActiveNodes (push_payload req))" and ?manifests = "elems (pay_FileManifests (push_payload req))"
  have "auth_push env req" using assms(3,4) by (simp add: authorised_def)
  then have mux: "bootstrap_mux env outs req (bp_db s) = (Inr (respond [] []), bp_db s, [Align ?nodes ?manifests])" for outs
    using assms(3) by (simp add: bootstrap_mux_def SyncPushHandler_def auth_push_def push_payload_def Let_def)
  let ?db1 = "snd (ProcessAlignment (env_bg env) ?nodes ?manifests (bp_db s))"
  have "ok_SyncPayload (push_payload req)" using pay.stream_ok by (simp add: push_payload_def body_of_def)
  then have "distinct (map fst ?nodes)" "distinct (map fst ?manifests)"
    by (simp_all add: ok_SyncPayload_def ok_bmap_def gomap_distinct)
  then have "view (env_bg env) ?db1 ns_manifests = received ?manifests ++ view (env_bg env) (bp_db s) ns_manifests"
    and "received ?manifests k = Some (Inr (elems x))"
    using badger_reliable.ProcessAlignment_view(2)[OF assms(1)] assms(5) by (simp_all add: received_def map_of_eq_Some_iff comp_def case_prod_beta image_iff) force
  then have "view (env_bg env) ?db1 ns_manifests k = Some (Inr (elems x))" using assms(6) by (simp add: map_add_def)
  moreover have "past_retention parse (bp_now s) (man_ReleaseDate m)"
    using assms(9,10) by (simp add: past_retention_def retention_def second_def)
  moreover have "db = snd (clean_bootstrap_pass env parse (bp_now s) ?db1)"
    using assms(11) by (simp add: mux nth_append)
  ultimately have gone: "view (env_bg env) db ns_manifests fileId = None"
    using clean_bootstrap_view(1)[OF assms(1), where parse = parse and now = "bp_now s" and db = ?db1 and k = fileId] assms(7,8) by auto
  then show ?thesis
    using DownloadFileManifest_gone[OF reliable_ok[OF assms(1)]] by blast
qed

text \<open>A manifest released in the far future, and one with its id that has long been released.\<close>

definition ref_released :: "bytes \<Rightarrow> FileManifest" where
  "ref_released date = zero_FileManifest\<lparr>man_FileId := ''f'', man_ReleaseDate := date\<rparr>"

lemma ref_released_decodes:
  "utf8_ok date \<Longrightarrow> decode_stream dec_FileManifest zero_FileManifest (marshal enc_FileManifest (ref_released date)) = (ref_released date, True)"
  by (rule man.stream_marshal_end) (use man.zero_ok in \<open>simp add: ref_released_def ok_FileManifest_def\<close>)

theorem pushed_manifest_deletes_another_witness:
  "\<exists>req. view mem_badger (bp_db (boot_run (ref_env ''b'' []) ref_down (\<lambda>d. if d = ''old'' then Some 0 else Some 1000000000000000000)
      [Asked ref_out req, Aligned 0, Cleaned]
      (boot_start 700000000000000 (ref_store ns_manifests ''f'' (marshal enc_FileManifest (ref_released ''new'')))))) ns_manifests ''f'' = None"
proof -
  let ?e = "ref_env ''b'' []" and ?db = "ref_store ns_manifests ''f'' (marshal enc_FileManifest (ref_released ''new''))"
  let ?old = "Some (marshal enc_FileManifest (ref_released ''old''))"
  let ?p = "zero_SyncPayload\<lparr>pay_PublicKey := cfg_PublicKey (env_cfg ?e), pay_FileManifests := Some [(''x'', ?old)]\<rparr>"
  have p: "ok_SyncPayload ?p" "pay_Signature ?p = None" "pay_PublicKey ?p = cfg_PublicKey (env_cfg ?e)"
    by (simp_all add: ok_SyncPayload_def zero_SyncPayload_def ok_bmap_def gomap_ok_Cons)
  obtain req sg where r: "req_Path req = ''/sync/push''" "auth_push ?e req"
      "body_of dec_SyncPayload zero_SyncPayload req = ?p\<lparr>pay_Signature := sg\<rparr>"
    by (rule ref_push[OF p])
  let ?s = "boot_start 700000000000000 ?db" and ?parse = "\<lambda>d. if d = ''old'' then Some 0 else Some 1000000000000000000 :: int option"
  let ?t = "boot_run ?e ref_down ?parse [Asked ref_out req, Aligned (length (bp_tasks ?s)), Cleaned] ?s"
  have stored: "view (env_bg ?e) (bp_db ?s) ns_manifests ''f'' = Some (Inr (marshal enc_FileManifest (ref_released ''new'')))"
    "view (env_bg ?e) (bp_db ?s) ns_manifests ''x'' = None"
    by (simp_all add: boot_start_def ref_store_view)
  have sent: "(''x'', ?old) \<in> set (elems (pay_FileManifests (push_payload req)))"
    using r(3) by (simp add: push_payload_def)
  have old: "decode_stream dec_FileManifest zero_FileManifest (elems ?old) = (ref_released ''old'', True)"
    by (simp add: ref_released_decodes)
  have "authorised ?e req" using r(1,2) by (simp add: authorised_def)
  from pushed_manifest_deletes_another[OF _ stored(1) r(1) this sent stored(2) old, where parse = ?parse and t = 0 and net = ref_down and out = ref_out]
  have "view (env_bg ?e) (bp_db ?t) ns_manifests ''f'' = None"
    by (simp add: mem_reliable ref_released_def boot_start_def del: boot_run.simps boot_do.simps)
  then show ?thesis by (intro exI[of _ req]) (simp add: boot_start_def del: boot_run.simps boot_do.simps)
qed

end
