(* ===== verification/Heartbeat.thy ===== *)
theory Heartbeat
  imports Bootstrap_Process
begin

text \<open>
  The heartbeat: the goroutine of \<open>cmd/k-node/main.go\<close> that subscribes the node again and again, and
  the registry of the bootstrap server (\<open>Bootstrap_Process\<close>), whose \<open>CleanInactiveNodes\<close> removes nodes
  that have not been heard of for two minutes. The interval of the one, the timeout of its HTTP client and the
  patience of the other fit together exactly.
\<close>

subsection \<open>The loop of the node\<close>

definition subscribe_delay :: "fault option \<Rightarrow> int" where
  "subscribe_delay e = (if e = None then 60 * second else 5 * second)"

text \<open>
  A call: the draw, the time until the server has it and the time until the answer is back. The loop
  gives the times at which the requests arrive, with the results. It runs as long as the process.
\<close>

type_synonym round = "nat \<times> int \<times> int"

fun subscribe_loop :: "'db env \<Rightarrow> 'w net \<Rightarrow> round list \<Rightarrow> int \<Rightarrow> 'w \<Rightarrow> (int \<times> fault option) list \<times> 'w" where
  "subscribe_loop env net [] now w = ([], w)"
| "subscribe_loop env net ((r, up, down) # rounds) now w =
     (let (e, w1) = SubscribeNode env net r w;
          (rest, w2) = subscribe_loop env net rounds (now + up + down + subscribe_delay e) w1
      in ((now + up, e) # rest, w2))"

definition start_subscriptions :: "'db env \<Rightarrow> 'w net \<Rightarrow> round list \<Rightarrow> int \<Rightarrow> 'w \<Rightarrow> (int \<times> fault option) list \<times> 'w" where
  "start_subscriptions env net rounds now w =
     (if cfg_BootStrapServers (env_cfg env) = [] then ([], w) else subscribe_loop env net rounds now w)"

text \<open>\<open>config.HttpClient\<close> gives up after thirty seconds.\<close>

definition http_timeout :: int where "http_timeout = 30 * second"

definition in_time :: "round \<Rightarrow> bool" where
  "in_time = (\<lambda>(r, up, down). 0 \<le> up \<and> 0 \<le> down \<and> up + down \<le> http_timeout)"

text \<open>Arrivals at most two minutes apart, the first at most that long after \<open>seen\<close>.\<close>

fun spaced :: "int \<Rightarrow> int list \<Rightarrow> bool" where
  "spaced seen [] = True"
| "spaced seen (t # ts) \<longleftrightarrow> seen \<le> t \<and> t - seen \<le> heartbeat_timeout \<and> spaced t ts"

lemma loop_spaced:
  assumes "list_all in_time rounds" "list_all (\<lambda>x. snd x = None) (fst (subscribe_loop env net rounds now w))"
    and "seen \<le> now" "now - seen \<le> 90 * second"
  shows "spaced seen (map fst (fst (subscribe_loop env net rounds now w)))"
  using assms
proof (induction rounds arbitrary: now w seen)
  case (Cons round rounds)
  obtain r up down where round: "round = (r, up, down)" by (metis prod_cases3)
  obtain e w1 where s: "SubscribeNode env net r w = (e, w1)" by fastforce
  let ?next = "now + up + down + subscribe_delay e"
  have e: "e = None" and rest: "list_all (\<lambda>x. snd x = None) (fst (subscribe_loop env net rounds ?next w1))"
    using Cons.prems(2) s by (auto simp: round case_prod_beta Let_def)
  have t: "0 \<le> up" "0 \<le> down" "up + down \<le> 30 * second" "0 < second"
    using Cons.prems(1) by (auto simp: round in_time_def http_timeout_def second_def)
  then have "spaced (now + up) (map fst (fst (subscribe_loop env net rounds ?next w1)))"
    using Cons.IH[OF _ rest, of "now + up"] Cons.prems(1) e by (simp add: subscribe_delay_def)
  then show ?case
    using t s Cons.prems(3,4) by (simp add: round case_prod_beta Let_def heartbeat_timeout_def second_def)
qed simp

subsection \<open>The registry\<close>

text \<open>A request that subscribes the address, and the record it leaves.\<close>

definition beat :: "'db env \<Rightarrow> bytes \<Rightarrow> request \<Rightarrow> bool" where
  "beat env a req \<longleftrightarrow> req_Path req = ''/subscribe'' \<and> authorised env req
     \<and> sub_Address (body_of dec_SubscriptionRequest zero_SubscriptionRequest req) = a"

definition listed :: "'db env \<Rightarrow> bytes \<Rightarrow> int \<Rightarrow> int \<Rightarrow> 'db \<Rightarrow> bool" where
  "listed env a seen now db \<longleftrightarrow> (\<exists>pk ts. view (env_bg env) db ns_active_nodes a
     = Some (Inr (marshal enc_ActiveNodeRecord \<lparr>anr_PublicKey = pk, anr_Timestamp = ts\<rparr>)) \<and> seen \<le> ts \<and> ts \<le> now)"

lemma mux_registry:
  assumes "badger_reliable (env_bg env)"
  shows "view (env_bg env) (fst (snd (bootstrap_mux env out req db))) ns_active_nodes a =
    (if beat env a req
     then Some (Inr (marshal enc_ActiveNodeRecord \<lparr>anr_PublicKey = sub_PublicKey (body_of dec_SubscriptionRequest zero_SubscriptionRequest req),
       anr_Timestamp = out_now out\<rparr>))
     else view (env_bg env) db ns_active_nodes a)"
proof (cases "authorised env req")
  case True
  then show ?thesis
    using badger_ok.view_put_other[OF reliable_ok[OF assms], of ns_manifests ns_active_nodes]
      badger_ok.view_del_other[OF reliable_ok[OF assms], of ns_manifests ns_active_nodes]
    by (auto simp: mux_store beat_def authorised_def auth_subscribe_def SubsribeNode_def InsertFileManifest_def
        DeleteFileManifest_def Let_def reliable_put[OF assms])
next
  case False
  then show ?thesis by (simp add: unauthorised_same beat_def)
qed

text \<open>What peers send says nothing about the address.\<close>

definition sent_silent :: "bytes \<Rightarrow> (bytes \<times> char slice) list \<Rightarrow> (bytes \<times> char slice) list \<Rightarrow> bool" where
  "sent_silent a nodes manifests \<longleftrightarrow> a \<notin> fst ` set nodes"

lemma alignment_registry:
  assumes "badger_ok bg" "sent_silent a nodes manifests"
  shows "view bg (snd (ProcessAlignment bg nodes manifests db)) ns_active_nodes a = view bg db ns_active_nodes a"
  using badger_ok.align_nodes_other[OF assms(1), of ns_active_nodes a nodes db] assms(2)
    badger_ok.align_manifests_other[OF assms(1), of ns_active_nodes a manifests]
  by (simp add: ProcessAlignment_snd sent_silent_def)

text \<open>When the address was last heard of, after a step at the given time.\<close>

definition heard_at :: "'db env \<Rightarrow> bytes \<Rightarrow> int \<Rightarrow> int \<Rightarrow> 'w boot_event \<Rightarrow> int" where
  "heard_at env a now seen e = (case e of Asked out req \<Rightarrow> if beat env a req then now else seen | _ \<Rightarrow> seen)"

lemma heard_at_other: "(\<And>out req. e \<noteq> Asked out req) \<Longrightarrow> heard_at env a now seen e = seen"
  by (auto simp: heard_at_def split: boot_event.split)

lemma boot_do_listed:
  assumes "badger_reliable (env_bg env)" "list_all (task_ok (sent_silent a)) (bp_tasks s)" "peers_send (sent_silent a) env net e"
    and "listed env a seen (bp_now s) (bp_db s)" "0 \<le> seen" "bp_now s < 2 ^ 63"
    and "e = Swept \<Longrightarrow> bp_now s - seen \<le> heartbeat_timeout"
  shows "listed env a (heard_at env a (bp_now s) seen e) (bp_now (boot_do env net parse e s)) (bp_db (boot_do env net parse e s))"
proof -
  obtain pk ts where v: "view (env_bg env) (bp_db s) ns_active_nodes a
      = Some (Inr (marshal enc_ActiveNodeRecord \<lparr>anr_PublicKey = pk, anr_Timestamp = ts\<rparr>))" "seen \<le> ts" "ts \<le> bp_now s"
    using assms(4) unfolding listed_def by blast
  have keep: "listed env a seen (bp_now (boot_do env net parse e s)) (bp_db (boot_do env net parse e s))"
    if "view (env_bg env) (bp_db (boot_do env net parse e s)) ns_active_nodes a = view (env_bg env) (bp_db s) ns_active_nodes a"
    using that v boot_do_now[of s env net parse e] unfolding listed_def by fastforce
  show ?thesis
    using assms(2,3)
  proof (cases rule: boot_do_store[of "sent_silent a" s env net e parse])
    case (asked out req)
    show ?thesis
    proof (cases "beat env a req")
      case True
      then show ?thesis
        using mux_registry[OF assms(1), of "out\<lparr>out_now := bp_now s\<rparr>" req "bp_db s" a] asked
        by (auto simp: listed_def heard_at_def case_prod_beta)
    next
      case False
      then show ?thesis
        using mux_registry[OF assms(1), of "out\<lparr>out_now := bp_now s\<rparr>" req "bp_db s" a] keep asked by (simp add: heard_at_def)
    qed
  next
    case (aligned nodes manifests)
    then show ?thesis
      using keep alignment_registry[OF reliable_ok[OF assms(1)]] by (simp add: heard_at_other)
  next
    case swept
    have "\<not> unresponsive (bp_now s) (marshal enc_ActiveNodeRecord \<lparr>anr_PublicKey = pk, anr_Timestamp = ts\<rparr>)"
      using v assms(5,6) assms(7)[OF swept(1)]
      by (simp add: unresponsive_def anr.stream_marshal_end ok_ActiveNodeRecord_def in_int64_def wrap64_id heartbeat_timeout_def second_def)
    then show ?thesis
      using keep clean_inactive_view(1)[OF assms(1), of "bp_now s" "bp_db s" a] v(1) swept by (simp add: heard_at_def)
  next
    case cleaned
    then show ?thesis using keep clean_bootstrap_view(2)[OF assms(1), of ns_active_nodes] by (simp add: heard_at_def)
  next
    case same
    then show ?thesis using keep by (simp add: heard_at_other)
  qed
qed

subsection \<open>The two together\<close>

definition unsigned_subscription :: "'db env \<Rightarrow> SubscriptionRequest" where
  "unsigned_subscription env =
     \<lparr>sub_Address = self_address (env_cfg env), sub_PublicKey = cfg_PublicKey (env_cfg env), sub_Signature = None\<rparr>"

definition subscription :: "'db env \<Rightarrow> request" where
  "subscription env = http_request ''POST'' ''/subscribe'' (marshal enc_SubscriptionRequest
     ((unsigned_subscription env)\<lparr>sub_Signature := sign_or_nil env (marshal enc_SubscriptionRequest (unsigned_subscription env))\<rparr>))"

text \<open>It is what \<open>SubscribeNode\<close> posts, and the server takes it for a sign of life.\<close>

lemma SubscribeNode_posts:
  assumes "can_sign env" "cfg_BootStrapServers (env_cfg env) \<noteq> []"
  shows "SubscribeNode env net r w = (let servers = cfg_BootStrapServers (env_cfg env) in
       case net_post net w (http_url (servers ! (r mod length servers)) ''/subscribe'') (req_Body (subscription env)) of
         (Inl e, w1) \<Rightarrow> (Some (Err e), w1)
       | (Inr (status, _), w1) \<Rightarrow> if status = 200 then (None, w1) else (Some (Err ''subscription failed with status''), w1))"
proof -
  obtain sg where "sign env (marshal enc_SubscriptionRequest (unsigned_subscription env)) = Inr sg"
    using can_sign_ok(1)[OF assms(1)] by blast
  then show ?thesis
    using assms(2) by (simp add: SubscribeNode_def Let_def subscription_def sign_or_nil_def unsigned_subscription_def)
qed

lemma subscription_beat:
  assumes "can_sign env" "env_C env' = env_C env"
  shows "beat env' (self_address (env_cfg env)) (subscription env)"
proof -
  let ?x = "unsigned_subscription env"
  obtain sg where sg: "sign env (marshal enc_SubscriptionRequest ?x) = Inr sg"
    using can_sign_ok(1)[OF assms(1)] by blast
  have "decode_stream dec_SubscriptionRequest zero_SubscriptionRequest (req_Body (subscription env)) = (?x\<lparr>sub_Signature := Some sg\<rparr>, True)"
    unfolding subscription_def sign_or_nil_def sg http_request_simps
    by (simp, rule sub.stream_marshal_end) (simp add: ok_SubscriptionRequest_def unsigned_subscription_def can_sign_ok(2)[OF assms(1)])
  then have "body_of dec_SubscriptionRequest zero_SubscriptionRequest (subscription env) = ?x\<lparr>sub_Signature := Some sg\<rparr>"
    by (simp add: body_of_def)
  moreover have "check env' (marshal enc_SubscriptionRequest ?x) (Some sg) (cfg_PublicKey (env_cfg env))"
    by (rule own_signature[OF assms(1) sg assms(2)])
  moreover have "req_Path (subscription env) = ''/subscribe''" by (simp add: subscription_def)
  ultimately show ?thesis
    by (simp add: beat_def authorised_def auth_subscribe_def Let_def unsigned_subscription_def)
qed

text \<open>The requests arrive as scheduled: no time passes over an arrival.\<close>

fun on_schedule :: "request \<Rightarrow> int \<Rightarrow> int list \<Rightarrow> 'w boot_event list \<Rightarrow> bool" where
  "on_schedule req now pending [] = True"
| "on_schedule req now pending (Passed n # es) \<longleftrightarrow>
     (case pending of [] \<Rightarrow> False | t # _ \<Rightarrow> now + int n \<le> t) \<and> on_schedule req (now + int n) pending es"
| "on_schedule req now pending (Asked out r # es) =
     (case pending of t # ts \<Rightarrow> on_schedule req now (if r = req \<and> now = t then ts else pending) es
      | [] \<Rightarrow> on_schedule req now [] es)"
| "on_schedule req now pending (e # es) = on_schedule req now pending es"

lemma boot_run_listed:
  assumes "badger_reliable (env_bg env)" "beat env a req" "list_all (peers_send (sent_silent a) env net) es"
    and "list_all (task_ok (sent_silent a)) (bp_tasks s)" "listed env a seen (bp_now s) (bp_db s)" "0 \<le> seen"
    and "bp_now (boot_run env net parse es s) < 2 ^ 63" "on_schedule req (bp_now s) pending es" "spaced seen pending"
    and "bp_now s - seen \<le> heartbeat_timeout" "pending \<noteq> [] \<longrightarrow> bp_now s \<le> hd pending"
  shows "\<exists>seen. bp_now (boot_run env net parse es s) - seen \<le> heartbeat_timeout
    \<and> listed env a seen (bp_now (boot_run env net parse es s)) (bp_db (boot_run env net parse es s))"
  using assms(3-)
proof (induction es arbitrary: s seen pending)
  case Nil
  show ?case using Nil.prems(3,8) by (intro exI[of _ seen]) simp
next
  case (Cons e es)
  let ?s = "boot_do env net parse e s" and ?seen = "heard_at env a (bp_now s) seen e"
  have peers: "peers_send (sent_silent a) env net e" "list_all (peers_send (sent_silent a) env net) es" using Cons.prems(1) by simp_all
  have now: "bp_now s < 2 ^ 63" "seen \<le> bp_now s"
    using Cons.prems(3,5) boot_run_now[of s env net parse "e # es"] by (auto simp: listed_def)
  have listed: "listed env a ?seen (bp_now ?s) (bp_db ?s)"
    using boot_do_listed[OF assms(1) Cons.prems(2) peers(1) Cons.prems(3,4) now(1)] Cons.prems(8) by blast
  let ?next = "\<exists>pending. on_schedule req (bp_now ?s) pending es \<and> spaced ?seen pending
      \<and> bp_now ?s - ?seen \<le> heartbeat_timeout \<and> (pending \<noteq> [] \<longrightarrow> bp_now ?s \<le> hd pending)"
  have still: ?next if "bp_now ?s = bp_now s" "?seen = seen" "on_schedule req (bp_now s) pending es"
    using that Cons.prems(7-9) by (intro exI[of _ pending]) simp
  have ?next
  proof (cases e)
    case (Passed n)
    then obtain t ts where p: "pending = t # ts" "bp_now s + int n \<le> t" "on_schedule req (bp_now ?s) pending es"
      using Cons.prems(6) by (auto split: list.splits)
    then show ?thesis
      using Cons.prems(7) Passed by (intro exI[of _ pending]) (auto simp: heard_at_def)
  next
    case (Asked out r)
    have same: "bp_now ?s = bp_now s" using Asked by (simp add: case_prod_beta)
    have sp: "spaced ?seen pending"
      using Cons.prems(7,9) now(2) Asked by (cases pending) (auto simp: heard_at_def)
    show ?thesis
    proof (cases "pending \<noteq> [] \<and> r = req \<and> bp_now s = hd pending")
      case True
      then obtain ts where p: "pending = bp_now s # ts" and r: "r = req" by (cases pending) auto
      have seen: "?seen = bp_now s" using r assms(2) Asked by (simp add: heard_at_def)
      have "on_schedule req (bp_now s) ts es" using Cons.prems(6) r p Asked by simp
      moreover have "spaced (bp_now s) ts" using sp p by simp
      moreover from this have "ts \<noteq> [] \<longrightarrow> bp_now s \<le> hd ts" by (cases ts) simp_all
      moreover have "0 \<le> heartbeat_timeout" by (simp add: heartbeat_timeout_def second_def)
      ultimately show ?thesis unfolding seen same by auto
    next
      case False
      then have "on_schedule req (bp_now ?s) pending es"
        using Cons.prems(6) Asked same by (cases pending) (auto split: if_splits)
      then show ?thesis
        using sp same now(2) Cons.prems(8,9) Asked
        by (intro exI[of _ pending] conjI) (simp_all add: heard_at_def heartbeat_timeout_def second_def)
    qed
  qed (rule still; use Cons.prems(6) in \<open>simp add: heard_at_def\<close>)+
  then obtain pending' where p: "on_schedule req (bp_now ?s) pending' es" "spaced ?seen pending'"
    "bp_now ?s - ?seen \<le> heartbeat_timeout" "pending' \<noteq> [] \<longrightarrow> bp_now ?s \<le> hd pending'" by blast
  have "0 \<le> ?seen" using Cons.prems(4) now(2) by (auto simp: heard_at_def split: boot_event.split)
  from Cons.IH[OF peers(2) boot_do_tasks[OF Cons.prems(2) peers(1)] listed this _ p] Cons.prems(5)
  show ?case by simp
qed

text \<open>
  C11: a node stays registered with a server that all its subscriptions reach. When every call of
  its loop goes to this one server (the settings name it alone, or the draw always falls on it) and
  is answered without an error within the thirty seconds of the HTTP client, and no record of the
  node's address, older or newer, is in a validly signed push or in an answer to a synchronisation
  of this server, then in every run of the server, whatever else is requested, swept, cleaned or
  synchronised, the node is among those the server allocates chunks to: every time
  \<open>CleanInactiveNodes\<close> runs, the last heartbeat is at most two minutes old. \<open>on_schedule\<close> says that the
  requests reach this server at the times the loop sends them.
\<close>

theorem heartbeat_keeps_registered:
  assumes "badger_reliable (env_bg env)" "can_sign node" "env_C env = env_C node"
    and "start_subscriptions node net0 rounds start w = (log, w1)" "map fst log = t # ts"
    and "\<forall>x \<in> set log. snd x = None" "\<forall>r \<in> set rounds. in_time r"
    and "bp_now s = t" "0 \<le> t" "on_schedule (subscription node) t ts es"
    and "\<forall>e \<in> set es. peers_send (sent_silent (self_address (env_cfg node))) env net e"
    and "\<forall>x \<in> set (bp_tasks s). task_ok (sent_silent (self_address (env_cfg node))) x"
    and "bp_now (boot_run env net parse (Asked out (subscription node) # es) s) < 2 ^ 63"
  shows "self_address (env_cfg node) \<in> set (elems (GetAllKeys (env_bg env)
    (bp_db (boot_run env net parse (Asked out (subscription node) # es) s)) ns_active_nodes))"
proof -
  let ?a = "self_address (env_cfg node)" and ?e = "Asked out (subscription node)"
  let ?s = "boot_do env net parse ?e s"
  have beat: "beat env ?a (subscription node)" by (rule subscription_beat[OF assms(2,3)])
  have "map fst log = map fst (fst (subscribe_loop node net0 rounds start w)) \<and> list_all (\<lambda>x. snd x = None) (fst (subscribe_loop node net0 rounds start w))"
    using assms(4-6) by (auto simp: start_subscriptions_def list_all_iff split: if_splits)
  then have "spaced start (t # ts)"
    using loop_spaced[of rounds node net0 start w start] assms(5,7) by (simp add: list_all_iff second_def)
  then have ts: "spaced t ts" "ts \<noteq> [] \<longrightarrow> t \<le> hd ts" by (auto simp: neq_Nil_conv)
  have now: "bp_now ?s = t" using assms(8) by (simp add: case_prod_beta)
  have "listed env ?a t t (bp_db ?s)"
    using mux_registry[OF assms(1), of "out\<lparr>out_now := bp_now s\<rparr>" "subscription node" "bp_db s" ?a] beat assms(8)
    by (auto simp: listed_def case_prod_beta)
  moreover have "list_all (task_ok (sent_silent ?a)) (bp_tasks ?s)"
    by (rule boot_do_tasks) (use assms(12) in \<open>simp_all add: list_all_iff peers_send_def subscription_def\<close>)
  moreover have "list_all (peers_send (sent_silent ?a) env net) es" using assms(11) by (simp add: list_all_iff)
  ultimately obtain seen where "listed env ?a seen (bp_now (boot_run env net parse es ?s)) (bp_db (boot_run env net parse es ?s))"
    using boot_run_listed[OF assms(1) beat, where s = ?s and seen = t and pending = ts and es = es] now assms(9,10,13) ts
    by (auto simp: heartbeat_timeout_def second_def)
  then have "?a \<in> dom (view (env_bg env) (bp_db (boot_run env net parse (?e # es) s)) ns_active_nodes)"
    by (auto simp: listed_def)
  then show ?thesis
    using badger_ok.view_keys[OF reliable_ok[OF assms(1)]] by metis
qed

text \<open>The example has the longest gap there can be: the second heartbeat comes two minutes after the first.\<close>

definition ref_accepts :: "unit net" where
  "ref_accepts = \<lparr>net_post = (\<lambda>w u b. (Inr (200, []), w)), net_delete = (\<lambda>w u b. (Inr (200, []), w))\<rparr>"

theorem heartbeat_keeps_registered_witness:
  "''n:8080'' \<in> set (elems (GetAllKeys mem_badger (bp_db (boot_run (ref_env ''b'' []) ref_down (\<lambda>_. None)
     [Asked ref_out (subscription (ref_env ''n'' [''b''])), Passed 60000000000, Swept, Passed 60000000000, Swept]
     (boot_start 0 RBT.empty))) ns_active_nodes))"
proof -
  let ?n = "ref_env ''n'' [''b'']" and ?rounds = "[(0, 0, 30 * second), (0, 30 * second, 0)]"
  let ?es = "[Passed 60000000000, Swept, Passed 60000000000, Swept] :: unit boot_event list"
  have ok: "can_sign ?n" by (simp add: ref_can_sign)
  have call: "SubscribeNode ?n ref_accepts r w = (None, w)" for r w
    by (simp add: SubscribeNode_posts[OF ok] ref_accepts_def Let_def)
  then have loop: "start_subscriptions ?n ref_accepts ?rounds 0 () = ([(0, None), (120000000000, None)], ())"
    by (simp add: start_subscriptions_def subscribe_delay_def second_def)
  have now: "bp_now (boot_run (ref_env ''b'' []) ref_down (\<lambda>_. None) (Asked ref_out (subscription ?n) # ?es) (boot_start 0 RBT.empty)) < 2 ^ 63"
    by (simp add: boot_start_def case_prod_beta)
  have "self_address (env_cfg ?n) \<in> set (elems (GetAllKeys (env_bg (ref_env ''b'' [])) (bp_db (boot_run (ref_env ''b'' []) ref_down (\<lambda>_. None)
      (Asked ref_out (subscription ?n) # ?es) (boot_start 0 RBT.empty))) ns_active_nodes))"
    by (rule heartbeat_keeps_registered[OF _ ok _ loop _ _ _ _ _ _ _ _ now, where t = 0 and ts = "[120000000000]"])
      (simp_all add: mem_reliable in_time_def http_timeout_def second_def boot_start_def peers_send_def)
  then show ?thesis by simp
qed

end
