(* ===== verification/Registry.thy ===== *)
theory Registry
  imports Heartbeat
begin

text \<open>
  What the store of a bootstrap server holds in the runs of its process: in both namespaces entries of
  the right type and entries that somebody sent, and no node that has not been heard of for two minutes.
\<close>

subsection \<open>Typed stores\<close>

















subsection \<open>Silent nodes\<close>

definition silent :: "'db env \<Rightarrow> bytes \<Rightarrow> 'w net \<Rightarrow> 'w boot_event \<Rightarrow> bool" where
  "silent env a net e \<longleftrightarrow> peers_send (sent_silent a) env net e \<and> (case e of Asked out req \<Rightarrow> \<not> beat env a req | _ \<Rightarrow> True)"

text \<open>The record of a silent node stays as it is until it goes.\<close>

lemma boot_do_silent:
  assumes "badger_reliable (env_bg env)" "list_all (task_ok (sent_silent a)) (bp_tasks s)" "silent env a net e"
    and "view (env_bg env) (bp_db s) ns_active_nodes a \<in> {None, Some (Inr v)}"
  shows "view (env_bg env) (bp_db (boot_do env net parse e s)) ns_active_nodes a \<in> {None, view (env_bg env) (bp_db s) ns_active_nodes a}"
proof -
  have peers: "peers_send (sent_silent a) env net e" using assms(3) by (simp add: silent_def)
  show ?thesis
    using assms(2) peers
  proof (cases rule: boot_do_store[of "sent_silent a" s env net e parse])
    case (asked out req)
    then show ?thesis
      using assms(3) mux_registry[OF assms(1), of "out\<lparr>out_now := bp_now s\<rparr>" req "bp_db s" a] by (simp add: silent_def)
  next
    case (aligned nodes manifests)
    then show ?thesis using alignment_registry[OF reliable_ok[OF assms(1)]] by simp
  next
    case swept
    then show ?thesis
      using clean_inactive_view(1)[OF assms(1), of "bp_now s" "bp_db s" a] assms(4) by (auto split: if_splits)
  next
    case cleaned
    then show ?thesis using clean_bootstrap_view(2)[OF assms(1), of ns_active_nodes] by simp
  qed simp
qed

lemma boot_run_silent:
  assumes "badger_reliable (env_bg env)" "list_all (silent env a net) es" "list_all (task_ok (sent_silent a)) (bp_tasks s)"
    and "view (env_bg env) (bp_db s) ns_active_nodes a \<in> {None, Some (Inr v)}"
  shows "view (env_bg env) (bp_db (boot_run env net parse es s)) ns_active_nodes a \<in> {None, view (env_bg env) (bp_db s) ns_active_nodes a}
    \<and> list_all (task_ok (sent_silent a)) (bp_tasks (boot_run env net parse es s))"
  using assms(2-)
proof (induction es arbitrary: s)
  case (Cons e es)
  let ?s = "boot_do env net parse e s"
  have e: "silent env a net e" "peers_send (sent_silent a) env net e" using Cons.prems(1) by (simp_all add: silent_def)
  note step = boot_do_silent[OF assms(1) Cons.prems(2) e(1) Cons.prems(3), of parse]
  then have "view (env_bg env) (bp_db ?s) ns_active_nodes a \<in> {None, Some (Inr v)}" using Cons.prems(3) by auto
  from Cons.IH[OF _ boot_do_tasks[OF Cons.prems(2) e(2)] this] step Cons.prems(1) show ?case by auto
qed simp

subsection \<open>Properties\<close>



text \<open>
  C12: a node that is not heard of any more is forgotten. When the record of an address is more than two
  minutes old at a pass of \<open>CleanInactiveNodes\<close>, it is removed, and unless the node subscribes
  again or a peer still sends it, no later allocation has it, whatever else happens before and after.
\<close>

theorem silent_node_purged:
  assumes "badger_reliable (env_bg env)" "view (env_bg env) (bp_db s) ns_active_nodes a = Some (Inr v)"
    and "decode_stream dec_ActiveNodeRecord zero_ActiveNodeRecord v = (record, True)" "0 \<le> anr_Timestamp record"
    and "\<forall>e \<in> set (before @ Swept # after). silent env a net e"
    and "\<forall>x \<in> set (bp_tasks s). task_ok (sent_silent a) x"
    and "anr_Timestamp record + 2 * 60 * 1000000000 < bp_now (boot_run env net parse before s)"
    and "bp_now (boot_run env net parse before s) < 2 ^ 63"
  shows "a \<notin> set (elems (GetAllKeys (env_bg env) (bp_db (boot_run env net parse (before @ Swept # after) s)) ns_active_nodes))"
proof -
  let ?s = "boot_run env net parse before s" and ?t = "boot_do env net parse Swept (boot_run env net parse before s)"
  have quiet: "list_all (silent env a net) before" "list_all (silent env a net) after" "silent env a net Swept"
    using assms(5) by (simp_all add: list_all_iff)
  have tasks: "list_all (task_ok (sent_silent a)) (bp_tasks s)" using assms(6) by (simp add: list_all_iff)
  have s: "view (env_bg env) (bp_db ?s) ns_active_nodes a \<in> {None, Some (Inr v)}" "list_all (task_ok (sent_silent a)) (bp_tasks ?s)"
    using boot_run_silent[OF assms(1) quiet(1) tasks, of v parse] assms(2) by simp_all
  have "unresponsive (bp_now ?s) v"
    using assms(3,4,7,8) by (simp add: unresponsive_def wrap64_id in_int64_def heartbeat_timeout_def second_def)
  then have "view (env_bg env) (bp_db ?t) ns_active_nodes a = None"
    using s(1) clean_inactive_view(1)[OF assms(1), of "bp_now ?s" "bp_db ?s" a] by auto
  then have "view (env_bg env) (bp_db (boot_run env net parse (before @ Swept # after) s)) ns_active_nodes a = None"
    using boot_run_silent[OF assms(1) quiet(2), of ?t v parse] boot_do_tasks[OF s(2), of env net Swept parse] quiet(3)
    by (simp add: boot_run_append silent_def)
  then show ?thesis
    using badger_ok.view_keys[OF reliable_ok[OF assms(1)]] by (metis domIff)
qed

theorem silent_node_purged_witness:
  "''x'' \<notin> set (elems (GetAllKeys mem_badger (bp_db (boot_run (ref_env ''b'' []) ref_down (\<lambda>_. None) [Passed 120000000001, Swept, Cleaned]
     (boot_start 0 (ref_store ns_active_nodes ''x'' (marshal enc_ActiveNodeRecord \<lparr>anr_PublicKey = None, anr_Timestamp = 0\<rparr>))))) ns_active_nodes))"
proof -
  let ?r = "\<lparr>anr_PublicKey = None, anr_Timestamp = 0\<rparr> :: ActiveNodeRecord" and ?e = "ref_env ''b'' []"
  let ?s = "boot_start 0 (ref_store ns_active_nodes ''x'' (marshal enc_ActiveNodeRecord ?r))"
  have v: "view (env_bg ?e) (bp_db ?s) ns_active_nodes ''x'' = Some (Inr (marshal enc_ActiveNodeRecord ?r))"
    by (simp add: boot_start_def ref_store_view)
  have d: "decode_stream dec_ActiveNodeRecord zero_ActiveNodeRecord (marshal enc_ActiveNodeRecord ?r) = (?r, True)"
    by (rule anr.stream_marshal_end) (simp add: ok_ActiveNodeRecord_def in_int64_def)
  show ?thesis
    using silent_node_purged[OF _ v d, of "[Passed 120000000001]" "[Cleaned]" ref_down "\<lambda>_. None"]
    by (simp add: mem_reliable silent_def peers_send_def boot_start_def heartbeat_timeout_def second_def)
qed

end
