(* ===== verification/Startup.thy ===== *)
theory Startup
  imports Registry Node_Process
begin

text \<open>
  The start of both processes, the \<open>main\<close> functions of \<open>cmd/k-node\<close> and \<open>cmd/k-bootstrap\<close> up to the
  wait for a signal: settings, database, keys, workers and listeners; and the two functions of
  \<open>internal/database/badger.go\<close> that are about the files of the database.
\<close>

subsection \<open>The database files\<close>

text \<open>
  The machine a process is started on: its environment variables, random bytes and files, what
  \<open>os.MkdirAll\<close> and \<open>badger.Open\<close> answer for a directory, and which ports are free.
\<close>

record 'db host =
  ht_env :: "bytes \<Rightarrow> bytes"
  ht_rand :: bytes
  ht_disk :: disk
  ht_mkdir :: "bytes \<Rightarrow> string option"
  ht_badger :: "bytes \<Rightarrow> string + 'db"
  ht_listen :: "int \<Rightarrow> string option"

definition OpenDatabase :: "'db host \<Rightarrow> bytes \<Rightarrow> string + 'db" where
  "OpenDatabase h dbDir = (case ht_mkdir h dbDir of Some e \<Rightarrow> Inl e | None \<Rightarrow> ht_badger h dbDir)"

text \<open>Badger's value log collection: an error, also that there was nothing to rewrite, ends the loop.\<close>

partial_function (option) RunValueLogGC :: "('db \<Rightarrow> string option \<times> 'db) \<Rightarrow> 'db \<Rightarrow> 'db option" where
  "RunValueLogGC gc db = (case gc db of (e, db1) \<Rightarrow> if e \<noteq> None then Some db1 else RunValueLogGC gc db1)"

text \<open>
  It ends, and no entry changes, because a call that succeeds has given up at least one file of the value log,
  and none changes what is stored.
\<close>

lemma RunValueLogGC_ends:
  assumes "\<And>db db1. gc db = (None, db1) \<Longrightarrow> files db1 < (files db :: nat)"
    and "\<And>db q. view bg (snd (gc db)) q = view bg db q"
  shows "\<exists>db1. RunValueLogGC gc db = Some db1 \<and> (\<forall>q. view bg db1 q = view bg db q)"
proof (induction "files db" arbitrary: db rule: less_induct)
  case less
  obtain e db1 where gc: "gc db = (e, db1)" by fastforce
  have same: "view bg db1 q = view bg db q" for q using assms(2)[of db q] gc by simp
  show ?case
  proof (cases e)
    case None
    with gc same less.hyps[OF assms(1)] show ?thesis by (simp add: RunValueLogGC.simps[of gc db])
  next
    case (Some x)
    then show ?thesis using gc same by (simp add: RunValueLogGC.simps[of gc db])
  qed
qed

subsection \<open>The main functions\<close>

text \<open>
  What has been started when \<open>main\<close> waits for a signal, or the message with which it died. The HTTP server
  listens in a goroutine, whose \<open>log.Fatalf\<close> ends the process as well; a subscription may have been sent before that.
\<close>

datatype worker = Subscriptions | Node_cleaner | Server_sync | Manifest_cleaner | Registry_cleaner

record 'db running =
  rn_env :: "'db env"
  rn_db :: 'db
  rn_workers :: "worker list"
  rn_grpc :: "int option"
  rn_http :: int

datatype 'a started = Fatal bytes | Running 'a

definition db_path :: "bytes \<Rightarrow> (bytes \<Rightarrow> bytes) \<Rightarrow> bytes" where
  "db_path defaultPath env = (if env ''KAIROS_DB_PATH'' = [] then defaultPath else env ''KAIROS_DB_PATH'')"

definition node_main :: "crypto_lib \<Rightarrow> 'db badger \<Rightarrow> 'db host \<Rightarrow> 'db running started \<times> disk" where
  "node_main C bg h =
     (let cfg = node_config (ht_env h)
      in case OpenDatabase h (db_path ''./data-node'' (ht_env h)) of
           Inl e \<Rightarrow> (Fatal ''Failed to open DB'', ht_disk h)
         | Inr db \<Rightarrow>
             (let (cfg1, d1) = startup_keys C (ht_rand h) cfg (ht_disk h);
                  workers = (if cfg_BootStrapServers cfg1 \<noteq> [] then [Subscriptions] else []) @ [Node_cleaner];
                  grpcPort = node_grpc_port cfg1
              in if ht_listen h grpcPort \<noteq> None then (Fatal ''Failed to listen for gRPC'', d1)
                 else if ht_listen h (cfg_Port cfg1) \<noteq> None then (Fatal ''Listen error'', d1)
                 else (Running \<lparr>rn_env = \<lparr>env_bg = bg, env_C = C, env_cfg = cfg1, env_disk = d1\<rparr>, rn_db = db,
                         rn_workers = workers, rn_grpc = Some grpcPort, rn_http = cfg_Port cfg1\<rparr>, d1)))"

definition bootstrap_main :: "crypto_lib \<Rightarrow> 'db badger \<Rightarrow> 'db host \<Rightarrow> 'db running started \<times> disk" where
  "bootstrap_main C bg h =
     (let cfg = bootstrap_config (ht_env h)
      in case OpenDatabase h (db_path ''./data-bootstrap'' (ht_env h)) of
           Inl e \<Rightarrow> (Fatal ''Failed to open DB'', ht_disk h)
         | Inr db \<Rightarrow>
             (let (cfg1, d1) = startup_keys C (ht_rand h) cfg (ht_disk h)
              in if ht_listen h (cfg_Port cfg1) \<noteq> None then (Fatal ''Listen error'', d1)
                 else (Running \<lparr>rn_env = \<lparr>env_bg = bg, env_C = C, env_cfg = cfg1, env_disk = d1\<rparr>, rn_db = db,
                         rn_workers = [Server_sync, Manifest_cleaner, Registry_cleaner],
                         rn_grpc = None, rn_http = cfg_Port cfg1\<rparr>, d1)))"

subsection \<open>Settings and keys\<close>

lemma atoi_in_int64: "in_int64 (atoi_value s)"
  by (auto simp: atoi_value_def in_int64_def Let_def split: option.split prod.split)

lemma config_of_env_simps:
  "in_int64 (cfg_Port (config_of_env p env))"
  "cfg_PrivateKeyDir (config_of_env p env) = db_path p env @ ''/keys/private_key.pem''"
  "cfg_PublicKeyDir (config_of_env p env) = db_path p env @ ''/keys/public_key.pem''"
  "cfg_BootStrapServers (config_of_env p env) \<noteq> [] \<longleftrightarrow> env ''BOOTSTRAP_SERVERS'' \<noteq> []"
  "cfg_AdvertisedAddress (config_of_env p env) = (if env ''POD_IP'' = [] then ''localhost'' else env ''POD_IP'')"
  by (simp_all add: config_of_env_def db_path_def Let_def default_config_def atoi_in_int64) (simp add: in_int64_def)

text \<open>Setting the keys changes nothing else.\<close>

lemma GenerateKeyPair_config:
  "GenerateKeyPair C rand cfg d = (e, cfg1, d1) \<Longrightarrow> \<exists>pub priv. cfg1 = cfg\<lparr>cfg_PublicKey := pub, cfg_PrivateKey := priv\<rparr>"
  by (auto simp: GenerateKeyPair_def split: option.splits sum.splits prod.splits)
    (metis Config.surjective Config.update_convs(4,5))+

lemma startup_keys_config:
  assumes "startup_keys C rand cfg d = (cfg1, d1)"
  shows "cfg_Port cfg1 = cfg_Port cfg" "cfg_AdvertisedAddress cfg1 = cfg_AdvertisedAddress cfg"
    "cfg_BootStrapServers cfg1 = cfg_BootStrapServers cfg" "cfg_PublicKeyDir cfg1 = cfg_PublicKeyDir cfg"
    "cfg_PrivateKeyDir cfg1 = cfg_PrivateKeyDir cfg"
proof -
  have "\<exists>pub priv. cfg1 = cfg\<lparr>cfg_PublicKey := pub, cfg_PrivateKey := priv\<rparr>"
  proof (cases "KeysExist cfg d")
    case True
    then show ?thesis using assms by (auto simp: startup_keys_def)
  next
    case False
    then show ?thesis
      using assms GenerateKeyPair_config[of C rand cfg d "fst (GenerateKeyPair C rand cfg d)" cfg1 d1]
      by (simp add: startup_keys_def prod_eq_iff)
  qed
  then show "cfg_Port cfg1 = cfg_Port cfg" "cfg_AdvertisedAddress cfg1 = cfg_AdvertisedAddress cfg"
    "cfg_BootStrapServers cfg1 = cfg_BootStrapServers cfg" "cfg_PublicKeyDir cfg1 = cfg_PublicKeyDir cfg"
    "cfg_PrivateKeyDir cfg1 = cfg_PrivateKeyDir cfg" by auto
qed

text \<open>A node that runs.\<close>

lemma node_main_running:
  assumes "node_main C bg h = (Running r, d)"
  obtains cfg where "startup_keys C (ht_rand h) (node_config (ht_env h)) (ht_disk h) = (cfg, d)"
    "rn_env r = \<lparr>env_bg = bg, env_C = C, env_cfg = cfg, env_disk = d\<rparr>" "rn_grpc r = Some (node_grpc_port cfg)" "rn_http r = cfg_Port cfg"
    "rn_workers r = (if cfg_BootStrapServers cfg \<noteq> [] then [Subscriptions] else []) @ [Node_cleaner]"
  using assms by (auto simp: node_main_def Let_def split: sum.splits prod.splits if_splits)

lemma key_paths: "cfg_PrivateKeyDir (node_config env) \<noteq> cfg_PublicKeyDir (node_config env)"
  by (simp add: node_config_def config_of_env_simps)

text \<open>The private key is saved first.\<close>

lemma private_key_left:
  assumes "GenerateKeyPair C rand cfg0 d0 = (Some (Err ''error saving public key''), cfg, d)"
    and "cfg_PrivateKeyDir cfg0 \<noteq> cfg_PublicKeyDir cfg0"
  shows "dsk_files d (cfg_PrivateKeyDir cfg0) \<noteq> None"
  using assms by (auto simp: GenerateKeyPair_def WriteFile_def split: option.splits sum.splits prod.splits)

text \<open>A request without a public key is not accepted.\<close>

lemma keyless_subscription:
  assumes "cfg_PublicKey (env_cfg env) = None" "pem_decode (env_C server) [] = None" "utf8_ok (cfg_AdvertisedAddress (env_cfg env))"
  shows "\<not> authorised server (subscription env)"
proof -
  let ?x = "(unsigned_subscription env)\<lparr>sub_Signature := sign_or_nil env (marshal enc_SubscriptionRequest (unsigned_subscription env))\<rparr>"
  have "decode_stream dec_SubscriptionRequest zero_SubscriptionRequest (marshal enc_SubscriptionRequest ?x) = (?x, True)"
    by (rule sub.stream_marshal_end) (simp add: ok_SubscriptionRequest_def unsigned_subscription_def utf8_ok_self_address assms(3))
  then have "body_of dec_SubscriptionRequest zero_SubscriptionRequest (subscription env) = ?x"
    by (simp add: subscription_def body_of_http_request)
  then show ?thesis
    using assms(1,2) by (simp add: authorised_def auth_subscribe_def Let_def subscription_def unsigned_subscription_def
        check_def check_signature_def VerifySignature_def)
qed

subsection \<open>Properties\<close>

text \<open>
  C24: a node that generated its keys at its first start can be reached and believed after every
  later start on the same database path: it signs every message, the signatures verify under the public key of
  the first start, which it still advertises, and its gRPC server listens on the very
  port that the other nodes dial for its advertised address. It subscribes if it was given servers.
\<close>

theorem started_node:
  assumes "crypto_ok C" "node_main C bg h = (Running r, d)" "node_main C bg h' = (Running r', d')"
    and "\<not> KeysExist (node_config (ht_env h)) (ht_disk h)"
    and "fst (GenerateKeyPair C (ht_rand h) (node_config (ht_env h)) (ht_disk h)) = None"
    and "ht_disk h' = d" "ht_env h' ''KAIROS_DB_PATH'' = ht_env h ''KAIROS_DB_PATH''"
    and "plain_host (cfg_AdvertisedAddress (env_cfg (rn_env r')))"
  shows "(\<exists>s. sign (rn_env r) m = Inr s \<and> check_signature C m (Some s) (cfg_PublicKey (env_cfg (rn_env r))))
    \<and> (\<exists>s. sign (rn_env r') m = Inr s \<and> check_signature C m (Some s) (cfg_PublicKey (env_cfg (rn_env r))))
    \<and> cfg_PublicKey (env_cfg (rn_env r')) = cfg_PublicKey (env_cfg (rn_env r))
    \<and> (\<exists>p. rn_grpc r' = Some p \<and> grpc_address (self_address (env_cfg (rn_env r')))
          = Inr (cfg_AdvertisedAddress (env_cfg (rn_env r')) @ '':'' @ show_int p))
    \<and> (Subscriptions \<in> set (rn_workers r') \<longleftrightarrow> ht_env h' ''BOOTSTRAP_SERVERS'' \<noteq> [])"
proof -
  let ?c = "node_config (ht_env h)" and ?c' = "node_config (ht_env h')"
  obtain cfg where r: "startup_keys C (ht_rand h) ?c (ht_disk h) = (cfg, d)"
    "rn_env r = \<lparr>env_bg = bg, env_C = C, env_cfg = cfg, env_disk = d\<rparr>"
    using assms(2) by (rule node_main_running)
  obtain cfg' where r': "startup_keys C (ht_rand h') ?c' (ht_disk h') = (cfg', d')"
    "rn_env r' = \<lparr>env_bg = bg, env_C = C, env_cfg = cfg', env_disk = d'\<rparr>" "rn_grpc r' = Some (node_grpc_port cfg')"
    "rn_workers r' = (if cfg_BootStrapServers cfg' \<noteq> [] then [Subscriptions] else []) @ [Node_cleaner]"
    using assms(3) by (rule node_main_running)
  have "GenerateKeyPair C (ht_rand h) ?c (ht_disk h) = (None, cfg, d)"
    using assms(4,5) r(1) by (simp add: startup_keys_def prod_eq_iff)
  then have g: "generated_keys C (ht_rand h) ?c cfg (ht_disk h) d"
    using assms(1) key_paths by (simp add: generated_keys_def generated_keys_axioms_def)
  have paths: "cfg_PrivateKeyDir ?c' = cfg_PrivateKeyDir ?c" "cfg_PublicKeyDir ?c' = cfg_PublicKeyDir ?c"
    using assms(7) by (simp_all add: node_config_def config_of_env_simps db_path_def)
  have k: "signer C cfg d" "signer C cfg' d'" "cfg_PublicKey cfg' = cfg_PublicKey cfg"
    using generated_keys.is_signer[OF g] restart_signer[OF g paths, of "ht_rand h'"] r'(1) assms(6) by auto
  have sign_check: "\<exists>s. SignMessage C cfg d m = Inr s \<and> check_signature C m (Some s) (cfg_PublicKey cfg)"
    if "signer C cfg d" for cfg d
    using signer.sign_ok[OF that] signer.check_own_signature[OF that] by blast
  have "grpc_address (self_address cfg') = Inr (cfg_AdvertisedAddress cfg' @ '':'' @ show_int (node_grpc_port cfg'))"
    unfolding node_grpc_port_def
    by (rule grpc_address_advertised)
      (use assms(8) r'(2) startup_keys_config(1)[OF r'(1)] in \<open>simp_all add: node_config_def config_of_env_simps\<close>)
  moreover have "cfg_BootStrapServers cfg' \<noteq> [] \<longleftrightarrow> ht_env h' ''BOOTSTRAP_SERVERS'' \<noteq> []"
    using startup_keys_config(3)[OF r'(1)] by (simp add: node_config_def config_of_env_simps)
  ultimately show ?thesis
    using sign_check[OF k(1)] sign_check[OF k(2)] k(3) r(2) r'(2-4) by (simp add: sign_def)
qed

definition ref_host :: "disk \<Rightarrow> (bytes, bytes) RBT.rbt host" where
  "ref_host d = \<lparr>ht_env = (\<lambda>k. if k = ''POD_IP'' then ''10.0.0.7'' else if k = ''BOOTSTRAP_SERVERS'' then ''b'' else []),
     ht_rand = ''k'', ht_disk = d, ht_mkdir = (\<lambda>_. None), ht_badger = (\<lambda>_. Inr RBT.empty), ht_listen = (\<lambda>_. None)\<rparr>"

lemma ref_starts: "\<exists>r d'. node_main ref_crypto mem_badger (ref_host d) = (Running r, d')
    \<and> cfg_AdvertisedAddress (env_cfg (rn_env r)) = ''10.0.0.7'' \<and> rn_http r = 8080"
proof -
  let ?h = "ref_host d"
  obtain cfg d' where k: "startup_keys ref_crypto (ht_rand ?h) (node_config (ht_env ?h)) (ht_disk ?h) = (cfg, d')" by fastforce
  have "cfg_AdvertisedAddress cfg = ''10.0.0.7'' \<and> cfg_Port cfg = 8080"
    using startup_keys_config(1,2)[OF k] by (simp add: ref_host_def node_config_def config_of_env_def default_config_def)
  then show ?thesis
    using k by (simp add: node_main_def OpenDatabase_def Let_def) (simp add: ref_host_def)
qed

theorem started_node_witness:
  "\<exists>r d r' d'. node_main ref_crypto mem_badger (ref_host empty_disk) = (Running r, d)
    \<and> node_main ref_crypto mem_badger (ref_host d) = (Running r', d')
    \<and> (\<exists>s. sign (rn_env r') ''m'' = Inr s \<and> check_signature ref_crypto ''m'' (Some s) (cfg_PublicKey (env_cfg (rn_env r))))
    \<and> Subscriptions \<in> set (rn_workers r')"
proof -
  obtain r d where r: "node_main ref_crypto mem_badger (ref_host empty_disk) = (Running r, d)"
    using ref_starts by blast
  obtain r' d' where r': "node_main ref_crypto mem_badger (ref_host d) = (Running r', d')"
    "cfg_AdvertisedAddress (env_cfg (rn_env r')) = ''10.0.0.7''"
    using ref_starts by blast
  have h: "\<not> KeysExist (node_config (ht_env (ref_host empty_disk))) (ht_disk (ref_host empty_disk))"
    by (simp add: ref_host_def KeysExist_def empty_disk_def)
  have g: "fst (GenerateKeyPair ref_crypto (ht_rand (ref_host empty_disk)) (node_config (ht_env (ref_host empty_disk)))
      (ht_disk (ref_host empty_disk))) = None"
    using key_paths by (simp add: GenerateKeyPair_def ref_crypto_def ref_host_def empty_disk_def WriteFile_def
      GetPublicKey_def GetPrivateKey_def ReadFile_def)
  have e: "ht_disk (ref_host d) = d" "ht_env (ref_host d) = ht_env (ref_host empty_disk)" "ht_env (ref_host d) ''BOOTSTRAP_SERVERS'' \<noteq> []"
    by (simp_all add: ref_host_def)
  have p: "plain_host (cfg_AdvertisedAddress (env_cfg (rn_env r')))" by (simp add: r'(2) plain_host_def)
  show ?thesis
    using started_node[OF ref.crypto_ok_axioms r r'(1) h g e(1) _ p, of "''m''"] e r r'(1) by auto
qed

text \<open>
  C35: half a key pair is for ever. When saving the public key fails at the first start, nobody
  notices: the error is dropped and the node runs. Every later start finds the private key and takes
  it for a pair, so it makes no new one and has no public key, and no server or node ever accepts
  a request of it, however often it is restarted on a disk that works again.
\<close>

theorem half_key_pair_is_for_ever:
  assumes "GenerateKeyPair C (ht_rand h) (node_config (ht_env h)) (ht_disk h) = (Some (Err ''error saving public key''), cfg, d)"
    and "\<not> KeysExist (node_config (ht_env h)) (ht_disk h)" "dsk_files d (cfg_PublicKeyDir (node_config (ht_env h))) = None"
    and "OpenDatabase h (db_path ''./data-node'' (ht_env h)) = Inr db" "ht_listen h = (\<lambda>_. None)"
    and "dsk_files (ht_disk h') = dsk_files d" "ht_env h' ''KAIROS_DB_PATH'' = ht_env h ''KAIROS_DB_PATH''"
    and "node_main C bg h' = (Running r', d')" "pem_decode C [] = None"
    and "env_C server = C" "utf8_ok (cfg_AdvertisedAddress (env_cfg (rn_env r')))"
  shows "(\<exists>r. node_main C bg h = (Running r, d)) \<and> dsk_files d' = dsk_files d
    \<and> cfg_PublicKey (env_cfg (rn_env r')) = None
    \<and> bootstrap_mux server out (subscription (rn_env r')) db' = (Inr unauthorized, db', [])"
proof -
  let ?c = "node_config (ht_env h)" and ?c' = "node_config (ht_env h')"
  have first: "startup_keys C (ht_rand h) ?c (ht_disk h) = (cfg, d)"
    using assms(1,2) by (simp add: startup_keys_def)
  have paths: "cfg_PrivateKeyDir ?c' = cfg_PrivateKeyDir ?c" "cfg_PublicKeyDir ?c' = cfg_PublicKeyDir ?c"
    using assms(7) by (simp_all add: node_config_def config_of_env_simps db_path_def)
  have runs: "\<exists>r. node_main C bg h = (Running r, d)"
    using first assms(4,5) by (simp add: node_main_def Let_def)
  have "dsk_files d (cfg_PrivateKeyDir ?c) \<noteq> None"
    using private_key_left[OF assms(1) key_paths] assms(3) by simp
  then have exist: "KeysExist ?c' (ht_disk h')" by (simp add: KeysExist_def paths assms(6))
  obtain cfg' where r': "startup_keys C (ht_rand h') ?c' (ht_disk h') = (cfg', d')"
    "rn_env r' = \<lparr>env_bg = bg, env_C = C, env_cfg = cfg', env_disk = d'\<rparr>"
    using assms(8) by (rule node_main_running)
  have none: "cfg_PublicKey cfg' = None" "d' = ht_disk h'"
    using r'(1) exist assms(3) by (auto simp: startup_keys_def GetPublicKey_def ReadFile_def slice_or_nil_def paths assms(6) split: option.splits)
  have "\<not> authorised server (subscription (rn_env r'))"
    by (rule keyless_subscription) (use none(1) r'(2) assms(9-11) in simp_all)
  then show ?thesis using runs none assms(6) r'(2) unauthorised_same by simp
qed

text \<open>A disk on which the public key cannot be written, and the same disk later.\<close>

definition ref_broken :: disk where
  "ref_broken = empty_disk\<lparr>dsk_write_err := (\<lambda>p. if p = ''./data-node/keys/public_key.pem'' then Some (''no space left'', None) else None)\<rparr>"

lemma ref_broken_keys:
  assumes "cfg_PublicKeyDir c = ''./data-node/keys/public_key.pem''" "cfg_PrivateKeyDir c = ''./data-node/keys/private_key.pem''"
  shows "\<exists>cfg d. GenerateKeyPair ref_crypto ''k'' c ref_broken = (Some (Err ''error saving public key''), cfg, d)
    \<and> dsk_files d (cfg_PublicKeyDir c) = None"
  by (simp add: GenerateKeyPair_def WriteFile_def assms ref_crypto_def ref_broken_def empty_disk_def)

theorem half_key_pair_is_for_ever_witness:
  "\<exists>r d r' d'. node_main ref_crypto mem_badger (ref_host ref_broken) = (Running r, d)
    \<and> node_main ref_crypto mem_badger (ref_host (d\<lparr>dsk_write_err := (\<lambda>_. None)\<rparr>)) = (Running r', d')
    \<and> bootstrap_mux (ref_env ''b'' []) ref_out (subscription (rn_env r')) RBT.empty = (Inr unauthorized, RBT.empty, [])"
proof -
  let ?h = "ref_host ref_broken" and ?c = "node_config (ht_env (ref_host ref_broken))"
  have paths: "cfg_PublicKeyDir ?c = ''./data-node/keys/public_key.pem''" "cfg_PrivateKeyDir ?c = ''./data-node/keys/private_key.pem''"
    by (simp_all add: ref_host_def node_config_def config_of_env_simps db_path_def)
  have h: "ht_disk ?h = ref_broken" "ht_rand ?h = ''k''" by (simp_all add: ref_host_def)
  obtain cfg d where g: "GenerateKeyPair ref_crypto (ht_rand ?h) ?c (ht_disk ?h) = (Some (Err ''error saving public key''), cfg, d)"
    "dsk_files d (cfg_PublicKeyDir ?c) = None"
    using ref_broken_keys[OF paths] unfolding h by blast
  have k: "\<not> KeysExist ?c (ht_disk ?h)" by (simp add: ref_host_def ref_broken_def KeysExist_def empty_disk_def)
  let ?h' = "ref_host (d\<lparr>dsk_write_err := (\<lambda>_. None)\<rparr>)"
  obtain r' d' where r': "node_main ref_crypto mem_badger ?h' = (Running r', d')"
    "cfg_AdvertisedAddress (env_cfg (rn_env r')) = ''10.0.0.7''"
    using ref_starts by blast
  have e: "OpenDatabase ?h (db_path ''./data-node'' (ht_env ?h)) = Inr RBT.empty" "ht_listen ?h = (\<lambda>_. None)"
    "dsk_files (ht_disk ?h') = dsk_files d" "ht_env ?h' ''KAIROS_DB_PATH'' = ht_env ?h ''KAIROS_DB_PATH''"
    "pem_decode ref_crypto [] = None" "env_C (ref_env ''b'' []) = ref_crypto"
    by (simp_all add: ref_host_def OpenDatabase_def ref_crypto_def)
  have "utf8_ok (cfg_AdvertisedAddress (env_cfg (rn_env r')))" by (simp add: r'(2))
  from half_key_pair_is_for_ever[OF g(1) k g(2) e(1-4) r'(1) e(5,6) this, where out = ref_out and db' = RBT.empty]
  show ?thesis using r'(1) by blast
qed

end
