(* ===== verification/Explorer.thy ===== *)
theory Explorer
  imports Node_Server Cluster "HOL-Library.Multiset"
begin

text \<open>
  The explorer, \<open>cmd/k-explorer/main.go\<close>: \<open>GetNetworkOverview\<close> asks one bootstrap server and all nodes
  for their metrics and adds up what they report. The goroutines that ask the nodes add their result
  under a lock, so what is left of their interleaving is the order \<open>arrival\<close> in which they get it.
\<close>

subsection \<open>Data\<close>

record StorageMetrics =
  stm_DatabaseUsedBytes :: int
  stm_DiskTotalBytes :: int
  stm_DiskUsedBytes :: int
  stm_DiskFreeBytes :: int

record NodeDetail =
  ndt_Address :: bytes
  ndt_Status :: bytes
  ndt_TotalChunks :: int
  ndt_Storage :: StorageMetrics

record BootstrapDetail =
  bsd_Address :: bytes
  bsd_Status :: bytes
  bsd_Storage :: StorageMetrics

record NetworkOverview =
  nov_TotalFiles :: int
  nov_ActiveNodesCount :: int
  nov_TotalChunksDistributed :: int
  nov_AggregatedNodeStorage :: StorageMetrics
  nov_Bootstrap :: BootstrapDetail
  nov_Nodes :: "NodeDetail list"

text \<open>The anonymous structs that the two kinds of metrics are decoded into.\<close>

record boot_network =
  bnw_ActiveNodes :: int
  bnw_TotalFiles :: int
  bnw_NodeAddresses :: "bytes slice"

record boot_data =
  bda_Status :: bytes
  bda_Network :: boot_network
  bda_Storage :: StorageMetrics

record node_data =
  nda_Status :: bytes
  nda_TotalChunks :: int
  nda_Storage :: StorageMetrics

definition zero_StorageMetrics :: StorageMetrics where
  "zero_StorageMetrics = \<lparr>stm_DatabaseUsedBytes = 0, stm_DiskTotalBytes = 0, stm_DiskUsedBytes = 0, stm_DiskFreeBytes = 0\<rparr>"

definition zero_boot_data :: boot_data where
  "zero_boot_data = \<lparr>bda_Status = [], bda_Network = \<lparr>bnw_ActiveNodes = 0, bnw_TotalFiles = 0, bnw_NodeAddresses = None\<rparr>,
     bda_Storage = zero_StorageMetrics\<rparr>"

definition zero_node_data :: node_data where
  "zero_node_data = \<lparr>nda_Status = [], nda_TotalChunks = 0, nda_Storage = zero_StorageMetrics\<rparr>"

subsection \<open>Codecs\<close>

text \<open>A \<open>uint64\<close> is a number below 2^64 without a sign.\<close>

fun dec_u64 :: "int dec" where
  "dec_u64 (JNum t) old =
     (if list_all is_digit t \<and> t \<noteq> []
      then (case read_nat 0 t of Some n \<Rightarrow> if n < 2 ^ 64 then (int n, True) else (old, False) | None \<Rightarrow> (old, False))
      else (old, False))"
| "dec_u64 JNull old = (old, True)"
| "dec_u64 _ old = (old, False)"

definition dec_StorageMetrics :: "StorageMetrics dec" where
  "dec_StorageMetrics = dec_struct
     [(''database_used_bytes'', fld dec_int stm_DatabaseUsedBytes stm_DatabaseUsedBytes_update),
      (''disk_total_bytes'', fld dec_u64 stm_DiskTotalBytes stm_DiskTotalBytes_update),
      (''disk_used_bytes'', fld dec_u64 stm_DiskUsedBytes stm_DiskUsedBytes_update),
      (''disk_free_bytes'', fld dec_u64 stm_DiskFreeBytes stm_DiskFreeBytes_update)]"

definition dec_boot_network :: "boot_network dec" where
  "dec_boot_network = dec_struct
     [(''active_nodes'', fld dec_int bnw_ActiveNodes bnw_ActiveNodes_update),
      (''total_files'', fld dec_int bnw_TotalFiles bnw_TotalFiles_update),
      (''node_addresses'', fld (dec_slice dec_str []) bnw_NodeAddresses bnw_NodeAddresses_update)]"

definition dec_boot_data :: "boot_data dec" where
  "dec_boot_data = dec_struct
     [(''status'', fld dec_str bda_Status bda_Status_update),
      (''network'', fld dec_boot_network bda_Network bda_Network_update),
      (''storage'', fld dec_StorageMetrics bda_Storage bda_Storage_update)]"

definition dec_node_data :: "node_data dec" where
  "dec_node_data = dec_struct
     [(''status'', fld dec_str nda_Status nda_Status_update),
      (''data'', dec_struct [(''total_chunks'', fld dec_int nda_TotalChunks nda_TotalChunks_update)]),
      (''storage'', fld dec_StorageMetrics nda_Storage nda_Storage_update)]"

definition enc_StorageMetrics :: "StorageMetrics \<Rightarrow> json" where
  "enc_StorageMetrics x = JObj
     [(''database_used_bytes'', enc_int (stm_DatabaseUsedBytes x)), (''disk_total_bytes'', enc_int (stm_DiskTotalBytes x)),
      (''disk_used_bytes'', enc_int (stm_DiskUsedBytes x)), (''disk_free_bytes'', enc_int (stm_DiskFreeBytes x))]"

definition enc_NodeDetail :: "NodeDetail \<Rightarrow> json" where
  "enc_NodeDetail x = JObj
     [(''address'', JStr (ndt_Address x)), (''status'', JStr (ndt_Status x)),
      (''total_chunks'', enc_int (ndt_TotalChunks x)), (''storage'', enc_StorageMetrics (ndt_Storage x))]"

definition enc_BootstrapDetail :: "BootstrapDetail \<Rightarrow> json" where
  "enc_BootstrapDetail x = JObj
     [(''address'', JStr (bsd_Address x)), (''status'', JStr (bsd_Status x)), (''storage'', enc_StorageMetrics (bsd_Storage x))]"

definition enc_NetworkOverview :: "NetworkOverview \<Rightarrow> json" where
  "enc_NetworkOverview x = JObj
     [(''total_files_secured'', enc_int (nov_TotalFiles x)), (''active_nodes_count'', enc_int (nov_ActiveNodesCount x)),
      (''total_chunks_distributed'', enc_int (nov_TotalChunksDistributed x)),
      (''aggregated_node_storage'', enc_StorageMetrics (nov_AggregatedNodeStorage x)),
      (''bootstrap_node'', enc_BootstrapDetail (nov_Bootstrap x)),
      (''nodes_detail'', JArr (map enc_NodeDetail (nov_Nodes x)))]"

subsection \<open>The handler\<close>

text \<open>\<open>httpClient.Get\<close>; it changes nothing at the other end.\<close>

type_synonym http_get = "bytes \<Rightarrow> string + int \<times> bytes"

fun pick_bootstrap :: "http_get \<Rightarrow> bytes list \<Rightarrow> (bytes \<times> bytes) option" where
  "pick_bootstrap get [] = None"
| "pick_bootstrap get (targetBootstrap # servers) =
     (case get (http_url targetBootstrap ''/metrics'') of
        Inr (status, body) \<Rightarrow> if status = 200 then Some (targetBootstrap, body) else pick_bootstrap get servers
      | Inl _ \<Rightarrow> pick_bootstrap get servers)"

text \<open>The status code of a node's answer is not looked at; an answer that does not decode counts as offline.\<close>

definition node_detail :: "http_get \<Rightarrow> bytes \<Rightarrow> NodeDetail" where
  "node_detail get addr =
     (let offline = \<lparr>ndt_Address = addr, ndt_Status = ''offline'', ndt_TotalChunks = 0, ndt_Storage = zero_StorageMetrics\<rparr> in
      case get (http_url addr ''/metrics'') of
        Inl _ \<Rightarrow> offline
      | Inr (_, body) \<Rightarrow>
          (case decode_stream dec_node_data zero_node_data body of
             (nData, True) \<Rightarrow> \<lparr>ndt_Address = addr, ndt_Status = nda_Status nData, ndt_TotalChunks = nda_TotalChunks nData,
                 ndt_Storage = nda_Storage nData\<rparr>
           | (_, False) \<Rightarrow> offline))"

definition add_storage :: "StorageMetrics \<Rightarrow> StorageMetrics \<Rightarrow> StorageMetrics" where
  "add_storage a b = \<lparr>stm_DatabaseUsedBytes = wrap64 (stm_DatabaseUsedBytes a + stm_DatabaseUsedBytes b),
     stm_DiskTotalBytes = wrap_u64 (stm_DiskTotalBytes a + stm_DiskTotalBytes b),
     stm_DiskUsedBytes = wrap_u64 (stm_DiskUsedBytes a + stm_DiskUsedBytes b),
     stm_DiskFreeBytes = wrap_u64 (stm_DiskFreeBytes a + stm_DiskFreeBytes b)\<rparr>"

definition add_detail :: "NodeDetail \<Rightarrow> NetworkOverview \<Rightarrow> NetworkOverview" where
  "add_detail detail overview = overview\<lparr>nov_Nodes := nov_Nodes overview @ [detail],
     nov_TotalChunksDistributed := wrap64 (nov_TotalChunksDistributed overview + ndt_TotalChunks detail),
     nov_AggregatedNodeStorage := add_storage (nov_AggregatedNodeStorage overview) (ndt_Storage detail)\<rparr>"

definition overview_of :: "http_get \<Rightarrow> (bytes list \<Rightarrow> bytes list) \<Rightarrow> bytes \<Rightarrow> boot_data \<Rightarrow> NetworkOverview" where
  "overview_of get arrival targetBootstrap bootData =
     fold (\<lambda>addr. add_detail (node_detail get addr)) (arrival (elems (bnw_NodeAddresses (bda_Network bootData))))
       \<lparr>nov_TotalFiles = bnw_TotalFiles (bda_Network bootData), nov_ActiveNodesCount = bnw_ActiveNodes (bda_Network bootData),
        nov_TotalChunksDistributed = 0, nov_AggregatedNodeStorage = zero_StorageMetrics,
        nov_Bootstrap = \<lparr>bsd_Address = targetBootstrap, bsd_Status = bda_Status bootData, bsd_Storage = bda_Storage bootData\<rparr>,
        nov_Nodes = []\<rparr>"

text \<open>\<open>perm\<close> is the order \<open>rand.Perm\<close> puts the servers in. An error of the decoder is ignored.\<close>

definition GetNetworkOverview ::
  "bytes list \<Rightarrow> http_get \<Rightarrow> (bytes list \<Rightarrow> bytes list) \<Rightarrow> (bytes list \<Rightarrow> bytes list) \<Rightarrow> request \<Rightarrow> response" where
  "GetNetworkOverview servers get perm arrival req =
     (if req_Method req \<noteq> ''GET'' then http_Error ''Only GET allowed'' 405
      else if servers = [] then http_Error ''No bootstrap servers configured'' 500
      else (case pick_bootstrap get (perm servers) of
          None \<Rightarrow> http_Error ''Bootstrap metrics unavailable (Check if /metrics route exists on Bootstrap)'' 503
        | Some (targetBootstrap, body) \<Rightarrow>
            (let bootData = fst (decode_stream dec_boot_data zero_boot_data body) in
             respond [(''Content-Type'', ''application/json''), (''Access-Control-Allow-Origin'', ''*'')]
               (marshal enc_NetworkOverview (overview_of get arrival targetBootstrap bootData) @ [CHR 0x0A]))))"

text \<open>\<open>main\<close>: the port and the servers from the environment, and the only route. Here the port stays a string.\<close>

definition explorer_port :: "(bytes \<Rightarrow> bytes) \<Rightarrow> bytes" where
  "explorer_port env = (if env ''PORT'' = [] then ''8081'' else env ''PORT'')"

definition explorer_servers :: "(bytes \<Rightarrow> bytes) \<Rightarrow> bytes list" where
  "explorer_servers env = (if env ''BOOTSTRAP_SERVERS'' \<noteq> [] then split_commas (env ''BOOTSTRAP_SERVERS'')
     else cfg_BootStrapServers default_config)"

definition explorer_mux ::
  "bytes list \<Rightarrow> http_get \<Rightarrow> (bytes list \<Rightarrow> bytes list) \<Rightarrow> (bytes list \<Rightarrow> bytes list) \<Rightarrow> request \<Rightarrow> response" where
  "explorer_mux servers get perm arrival req =
     (if req_Path req = ''/network/overview'' then GetNetworkOverview servers get perm arrival req
      else http_Error ''404 page not found'' 404)"

subsection \<open>What comes back from the metrics of servers and nodes\<close>

lemma fold_metrics_tags:
  "fold_name ''active_nodes'' = ''ACTIVE_NODES''"
  "fold_name ''total_files'' = ''TOTAL_FILES''"
  "fold_name ''node_addresses'' = ''NODE_ADDRESSES''"
  "fold_name ''status'' = ''STATUS''"
  "fold_name ''network'' = ''NETWORK''"
  "fold_name ''storage'' = ''STORAGE''"
  "fold_name ''data'' = ''DATA''"
  "fold_name ''total_chunks'' = ''TOTAL_CHUNKS''"
  "fold_name ''database_used_bytes'' = ''DATABASE_USED_BYTES''"
  "fold_name ''disk_total_bytes'' = ''DISK_TOTAL_BYTES''"
  "fold_name ''disk_used_bytes'' = ''DISK_USED_BYTES''"
  "fold_name ''disk_free_bytes'' = ''DISK_FREE_BYTES''"
  by (simp_all add: char_of_eq_iff)

lemmas metrics_defs = dec_struct_def find_field_def fold_metrics_tags fld_def

lemma dec_enc_u64: "0 \<le> i \<Longrightarrow> i < 2 ^ 64 \<Longrightarrow> dec_u64 (enc_int i) old = (i, True)"
  using digits_all[of "nat i"] read_nat_show[of 0 "nat i"] by (auto simp: enc_int_def show_int_def nat_less_iff)

definition storage_of :: "machine \<Rightarrow> StorageMetrics" where
  "storage_of m = (case disk_bytes m of (t, a, u) \<Rightarrow>
     \<lparr>stm_DatabaseUsedBytes = wrap64 (fst (mch_db_size m) + snd (mch_db_size m)), stm_DiskTotalBytes = t,
      stm_DiskUsedBytes = u, stm_DiskFreeBytes = a\<rparr>)"

lemma disk_bytes_range: "disk_bytes m = (t, a, u) \<Longrightarrow> 0 \<le> t \<and> t < 2 ^ 64 \<and> 0 \<le> a \<and> a < 2 ^ 64 \<and> 0 \<le> u \<and> u < 2 ^ 64"
  by (auto simp: disk_bytes_def wrap_u64_def Let_def split: option.splits)

lemma dec_storage: "dec_StorageMetrics (storage_json m) zero_StorageMetrics = (storage_of m, True)"
proof -
  obtain t a u where d: "disk_bytes m = (t, a, u)" by (metis prod_cases3)
  then show ?thesis
    using disk_bytes_range[OF d]
    by (simp add: storage_json_def dec_StorageMetrics_def zero_StorageMetrics_def storage_of_def metrics_defs dec_enc_int wrap64_range dec_enc_u64)
qed

lemma wf_storage: "wf_json (storage_json m)"
  by (simp add: storage_json_def codec_simps case_prod_beta)

lemma decode_render: "wf_json j \<Longrightarrow> decode_stream d x (render j) = d j x"
  using parse_stream_render[of j "[]"] by (simp add: decode_stream_def delimited_simps)

definition chunk_count :: "'db env \<Rightarrow> 'db \<Rightarrow> int" where
  "chunk_count env db = int (length (elems (GetAllKeys (env_bg env) db ns_chunks)))"

lemma node_metrics_decoded:
  assumes "req_Method req = ''GET''" "in_int64 (chunk_count env db)"
  shows "decode_stream dec_node_data zero_node_data (rsp_Body (GetNodeMetrics env m req db))
    = (\<lparr>nda_Status = ''online'', nda_TotalChunks = chunk_count env db, nda_Storage = storage_of m\<rparr>, True)"
  using assms dec_storage[of m] wf_storage[of m]
  by (simp add: GetNodeMetrics_def Let_def decode_render dec_node_data_def zero_node_data_def metrics_defs chunk_count_def
      codec_simps del: render.simps)

text \<open>What a bootstrap server counts; the prefix it cuts off its keys is never there.\<close>

definition registered :: "'db env \<Rightarrow> 'db \<Rightarrow> bytes list" where
  "registered env db = elems (GetAllKeys (env_bg env) db ns_active_nodes)"

definition file_count :: "'db env \<Rightarrow> 'db \<Rightarrow> int" where
  "file_count env db = int (length (elems (GetAllKeys (env_bg env) db ns_manifests)))"

lemma boot_metrics_decoded:
  assumes "req_Method req = ''GET''" "in_int64 (int (length (registered env db)))" "in_int64 (file_count env db)"
    and "\<forall>a \<in> set (registered env db). utf8_ok a \<and> trim_prefix ''active_nodes_'' a = a"
  shows "decode_stream dec_boot_data zero_boot_data (rsp_Body (GetBootstrapMetrics env m req db))
    = (\<lparr>bda_Status = ''online'', bda_Network = \<lparr>bnw_ActiveNodes = int (length (registered env db)), bnw_TotalFiles = file_count env db,
        bnw_NodeAddresses = appended (registered env db)\<rparr>, bda_Storage = storage_of m\<rparr>, True)"
proof -
  have "map (trim_prefix ''active_nodes_'') (registered env db) = registered env db"
    using assms(4) by (intro map_idI) simp
  moreover have "ok_strs (appended (registered env db))" using assms(4) by (simp add: ok_strs_def list_all_iff)
  ultimately show ?thesis
    using assms(1-3) dec_storage[of m] wf_storage[of m]
    by (simp add: GetBootstrapMetrics_def Let_def decode_render dec_boot_data_def dec_boot_network_def zero_boot_data_def metrics_defs
        registered_def file_count_def codec_simps del: render.simps)
qed

text \<open>The sum of what the nodes report, in any order.\<close>

lemma wrap64_add: "wrap64 (wrap64 a + b) = wrap64 (a + b)"
  by (simp add: wrap64_def mod_simps algebra_simps)

lemma add_details:
  "nov_Nodes (fold (\<lambda>a. add_detail (d a)) addrs ov) = nov_Nodes ov @ map d addrs
   \<and> nov_TotalFiles (fold (\<lambda>a. add_detail (d a)) addrs ov) = nov_TotalFiles ov
   \<and> nov_ActiveNodesCount (fold (\<lambda>a. add_detail (d a)) addrs ov) = nov_ActiveNodesCount ov
   \<and> nov_Bootstrap (fold (\<lambda>a. add_detail (d a)) addrs ov) = nov_Bootstrap ov
   \<and> (in_int64 (nov_TotalChunksDistributed ov) \<longrightarrow> nov_TotalChunksDistributed (fold (\<lambda>a. add_detail (d a)) addrs ov)
      = wrap64 (nov_TotalChunksDistributed ov + (\<Sum>a \<leftarrow> addrs. ndt_TotalChunks (d a))))"
proof (induction addrs arbitrary: ov)
  case (Cons a addrs)
  then show ?case using wrap64_range wrap64_add by (simp add: add_detail_def ac_simps)
qed (simp add: wrap64_id)

text \<open>Servers and nodes that answer requests for their metrics, or do not.\<close>

definition metrics_get :: "(bytes \<Rightarrow> response option) \<Rightarrow> http_get" where
  "metrics_get answers url = (case split_url url of (server, path) \<Rightarrow>
     if path \<noteq> ''/metrics'' then Inr (404, ''404 page not found'')
     else (case answers server of None \<Rightarrow> Inl ''connection refused'' | Some rsp \<Rightarrow> Inr (rsp_Status rsp, rsp_Body rsp)))"

lemma metrics_get_url:
  "CHR ''/'' \<notin> set server \<Longrightarrow> metrics_get answers (http_url server ''/metrics'')
    = (case answers server of None \<Rightarrow> Inl ''connection refused'' | Some rsp \<Rightarrow> Inr (rsp_Status rsp, rsp_Body rsp))"
  using split_http_url[of server "''metrics''"] by (simp add: metrics_get_def)

lemma pick_bootstrap_up:
  assumes "\<forall>s \<in> set servers. CHR ''/'' \<notin> set s \<and> (\<forall>rsp. answers s = Some rsp \<longrightarrow> rsp_Status rsp = 200)"
    and "\<exists>s \<in> set servers. answers s \<noteq> None"
  shows "\<exists>s \<in> set servers. \<exists>rsp. answers s = Some rsp \<and> pick_bootstrap (metrics_get answers) servers = Some (s, rsp_Body rsp)"
  using assms
proof (induction servers)
  case (Cons s servers)
  then show ?case by (cases "answers s") (auto simp: metrics_get_url)
qed simp

text \<open>A node's detail when it is up and when it is not.\<close>

lemma node_detail_up:
  assumes "CHR ''/'' \<notin> set a" "answers a = Some (GetNodeMetrics env m req db)" "req_Method req = ''GET''" "in_int64 (chunk_count env db)"
  shows "node_detail (metrics_get answers) a
    = \<lparr>ndt_Address = a, ndt_Status = ''online'', ndt_TotalChunks = chunk_count env db, ndt_Storage = storage_of m\<rparr>"
  using assms by (simp add: node_detail_def metrics_get_url node_metrics_decoded Let_def)

lemma node_detail_down:
  assumes "CHR ''/'' \<notin> set a" "answers a = None"
  shows "node_detail (metrics_get answers) a
    = \<lparr>ndt_Address = a, ndt_Status = ''offline'', ndt_TotalChunks = 0, ndt_Storage = zero_StorageMetrics\<rparr>"
  using assms by (simp add: node_detail_def metrics_get_url Let_def)

text \<open>A process of the network: its handlers' environment, its machine and its database, or nothing when it is down.\<close>

type_synonym 'db host = "('db env \<times> machine \<times> 'db) option"

text \<open>What a bootstrap server says, and what it holds.\<close>

definition server_answer :: "request \<Rightarrow> 'db host \<Rightarrow> response option" where
  "server_answer req = map_option (\<lambda>(env, m, db). GetBootstrapMetrics env m req db)"

definition server_holds :: "bytes list \<Rightarrow> int \<Rightarrow> 'db host \<Rightarrow> bool" where
  "server_holds addrs files h = (case h of None \<Rightarrow> True | Some (env, m, db) \<Rightarrow> registered env db = addrs \<and> file_count env db = files)"

text \<open>What a node says, and what the overview should say about it.\<close>

definition host_answer :: "request \<Rightarrow> 'db host \<Rightarrow> response option" where
  "host_answer req = map_option (\<lambda>(env, m, db). GetNodeMetrics env m req db)"

definition host_detail :: "bytes \<Rightarrow> 'db host \<Rightarrow> NodeDetail" where
  "host_detail a h = (case h of
     None \<Rightarrow> \<lparr>ndt_Address = a, ndt_Status = ''offline'', ndt_TotalChunks = 0, ndt_Storage = zero_StorageMetrics\<rparr>
   | Some (env, m, db) \<Rightarrow> \<lparr>ndt_Address = a, ndt_Status = ''online'', ndt_TotalChunks = chunk_count env db, ndt_Storage = storage_of m\<rparr>)"

definition host_small :: "'db host \<Rightarrow> bool" where
  "host_small h = (case h of None \<Rightarrow> True | Some (env, m, db) \<Rightarrow> in_int64 (chunk_count env db))"

lemma node_detail_host:
  "CHR ''/'' \<notin> set a \<Longrightarrow> answers a = host_answer req h \<Longrightarrow> req_Method req = ''GET'' \<Longrightarrow> host_small h
    \<Longrightarrow> node_detail (metrics_get answers) a = host_detail a h"
  by (cases h) (auto simp: host_answer_def host_detail_def host_small_def node_detail_up node_detail_down)

lemma fold_details:
  assumes "\<forall>a \<in> set addrs. node_detail get a = d a"
  shows "fold (\<lambda>a. add_detail (node_detail get a)) addrs ov = fold (\<lambda>a. add_detail (d a)) addrs ov"
  using assms by (intro fold_cong) auto

lemma sum_list_mset_eq: "mset xs = mset ys \<Longrightarrow> sum_list (map f xs) = sum_list (map f ys)" for f :: "'a \<Rightarrow> int"
  by (metis mset_map sum_mset_sum_list)

text \<open>
  C25: when at least one of the bootstrap servers is up and those that are up hold the same addresses
  and the same number of manifests, the overview gives that number and the number of registered
  nodes, one detail for every registered node, online with its own number of chunks and
  storage when it is up and offline with zeros when it is not, and the sum of those numbers as an
  \<open>int64\<close>; neither the order the servers are tried in nor the order the answers arrive in matters.
\<close>

theorem overview_counts:
  assumes "req_Method request = ''GET''" "req_Path request = ''/network/overview''" "req_Method metrics = ''GET''"
    and "mset (perm servers) = mset servers" "\<And>as. mset (arrival as) = mset as"
    and "\<forall>s \<in> set servers. CHR ''/'' \<notin> set s \<and> answers s = server_answer metrics (server s) \<and> server_holds addrs files (server s)"
    and "\<exists>s \<in> set servers. server s \<noteq> None"
    and "\<forall>a \<in> set addrs. utf8_ok a \<and> trim_prefix ''active_nodes_'' a = a \<and> CHR ''/'' \<notin> set a
      \<and> answers a = host_answer metrics (host a) \<and> host_small (host a)"
    and "in_int64 (int (length addrs))" "in_int64 files"
  shows "\<exists>ov target. target \<in> set servers
    \<and> explorer_mux servers (metrics_get answers) perm arrival request
      = respond [(''Content-Type'', ''application/json''), (''Access-Control-Allow-Origin'', ''*'')] (marshal enc_NetworkOverview ov @ [CHR 0x0A])
    \<and> nov_TotalFiles ov = files \<and> nov_ActiveNodesCount ov = int (length addrs) \<and> bsd_Address (nov_Bootstrap ov) = target
    \<and> mset (nov_Nodes ov) = mset (map (\<lambda>a. host_detail a (host a)) addrs)
    \<and> nov_TotalChunksDistributed ov = wrap64 (\<Sum>a \<leftarrow> addrs. ndt_TotalChunks (host_detail a (host a)))"
proof -
  let ?as = "arrival addrs"
  have same: "set (perm servers) = set servers" "set ?as = set addrs"
    using assms(4,5) mset_eq_setD by blast+
  have "\<forall>s \<in> set (perm servers). CHR ''/'' \<notin> set s \<and> (\<forall>rsp. answers s = Some rsp \<longrightarrow> rsp_Status rsp = 200)"
    using assms(3,6) same(1) by (auto simp: server_answer_def GetBootstrapMetrics_def Let_def)
  moreover have "\<exists>s \<in> set (perm servers). answers s \<noteq> None"
    using assms(6,7) same(1) by (auto simp: server_answer_def)
  ultimately obtain target rsp where t: "target \<in> set servers" "answers target = Some rsp"
    "pick_bootstrap (metrics_get answers) (perm servers) = Some (target, rsp_Body rsp)"
    using pick_bootstrap_up same(1) by blast
  have up: "server_answer metrics (server target) = Some rsp" "server_holds addrs files (server target)"
    using t(1,2) assms(6) by simp_all
  then obtain env m db where "server target = Some (env, m, db)"
    by (auto simp: server_answer_def)
  with up have st: "rsp = GetBootstrapMetrics env m metrics db" "registered env db = addrs" "file_count env db = files"
    by (simp_all add: server_answer_def server_holds_def)
  define bd where "bd = \<lparr>bda_Status = ''online'', bda_Network = \<lparr>bnw_ActiveNodes = int (length addrs), bnw_TotalFiles = files,
        bnw_NodeAddresses = appended addrs\<rparr>, bda_Storage = storage_of m\<rparr>"
  have d: "fst (decode_stream dec_boot_data zero_boot_data (rsp_Body rsp)) = bd"
    using boot_metrics_decoded[of metrics env db m] assms(3,8-10) st by (simp add: bd_def)
  have "\<forall>a \<in> set ?as. node_detail (metrics_get answers) a = host_detail a (host a)"
    using assms(3,8) same(2) by (auto intro!: node_detail_host)
  note ov = fold_details[OF this]
  define ov where "ov = overview_of (metrics_get answers) arrival target bd"
  have parts: "nov_Nodes ov = map (\<lambda>a. host_detail a (host a)) ?as" "nov_TotalFiles ov = files"
    "nov_ActiveNodesCount ov = int (length addrs)" "bsd_Address (nov_Bootstrap ov) = target"
    "nov_TotalChunksDistributed ov = wrap64 (\<Sum>a \<leftarrow> ?as. ndt_TotalChunks (host_detail a (host a)))"
    by (simp_all add: ov_def bd_def overview_of_def ov add_details in_int64_def)
  have "explorer_mux servers (metrics_get answers) perm arrival request
      = respond [(''Content-Type'', ''application/json''), (''Access-Control-Allow-Origin'', ''*'')] (marshal enc_NetworkOverview ov @ [CHR 0x0A])"
    using assms(1,2) t d by (auto simp: explorer_mux_def GetNetworkOverview_def Let_def ov_def)
  then show ?thesis
    using t(1) parts assms(5)[of addrs] sum_list_mset_eq[OF assms(5)[of addrs], where f = "\<lambda>a. ndt_TotalChunks (host_detail a (host a))"]
    by (intro exI[of _ ov] exI[of _ target]) simp
qed

theorem overview_counts_witness:
  "\<exists>ov. explorer_mux [''b'', ''c''] (metrics_get (\<lambda>s. if s = ''c''
        then Some (GetBootstrapMetrics (ref_env ''c'' []) (out_machine ref_out) (http_request ''GET'' ''/metrics'' [])
          (RBT.insert (makeKey ns_active_nodes ''x:1'') [] RBT.empty)) else None)) rev rev (http_request ''GET'' ''/network/overview'' [])
      = respond [(''Content-Type'', ''application/json''), (''Access-Control-Allow-Origin'', ''*'')] (marshal enc_NetworkOverview ov @ [CHR 0x0A])
    \<and> nov_ActiveNodesCount ov = 1 \<and> map ndt_Status (nov_Nodes ov) = [''offline'']"
proof -
  let ?db = "RBT.insert (makeKey ns_active_nodes ''x:1'') [] RBT.empty" and ?e = "ref_env ''c'' []"
  have "registered ?e ?db = [''x:1'']" "file_count ?e ?db = 0"
    by code_simp+
  then show ?thesis
    using overview_counts[of "http_request ''GET'' ''/network/overview'' []" "http_request ''GET'' ''/metrics'' []"
        rev "[''b'', ''c'']" rev "\<lambda>s. if s = ''c'' then Some (GetBootstrapMetrics ?e (out_machine ref_out) (http_request ''GET'' ''/metrics'' []) ?db) else None"
        "\<lambda>s. if s = ''c'' then Some (?e, out_machine ref_out, ?db) else None" "[''x:1'']" 0 "\<lambda>_. None :: (bytes, bytes) RBT.rbt host"]
    by (auto simp: host_answer_def host_small_def host_detail_def server_answer_def server_holds_def trim_prefix_def in_int64_def http_request_def)
qed

end
